theory Spec2Isabelle
  imports Complex_Main "HOL-Library.Log_Nat"
begin

section \<open>Photo Diary backend: values of the JavaScript runtime\<close>

text \<open>
  The backend (\<^verbatim>\<open>src/photo-app/backend/public/script.js\<close>) is an Express application.
  Its handlers work on values that come out of \<^verbatim>\<open>JSON.parse\<close> and out of the query
  string, so the model keeps them untyped, as the code does.

  Strings are byte lists (UTF-8). The code never measures a string that may hold
  non-ASCII text: it only cuts the seven ASCII characters of \<^verbatim>\<open>'Bearer '\<close>.
\<close>

datatype js_error = TypeError | SyntaxError | IOError

text \<open>
  A JavaScript number: a finite value (every double is a rational; \<open>Fin 0\<close> is the
  positive zero), the negative zero, the infinities, NaN.
\<close>

datatype jsnum = Fin rat | NegZero | PInf | NInf | NaN

text \<open>
  A JavaScript value as \<^verbatim>\<open>JSON.parse\<close> and the query string produce them, and
  \<^verbatim>\<open>undefined\<close>. An object is the list of its own properties, in their order, each name
  once.
\<close>

datatype jsval =
    Undefined
  | Null
  | Bool bool
  | Num jsnum
  | Str string
  | Arr "jsval list"
  | Obj "(string \<times> jsval) list"

text \<open>
  What the handlers take from the runtime and cannot compute themselves:
  \<^item> \<open>JSON_parse\<close>: \<^verbatim>\<open>JSON.parse(raw)\<close>, \<open>None\<close> when it throws;
  \<^item> \<open>Date_parse\<close>: \<^verbatim>\<open>Date.parse(s)\<close>, a time value in milliseconds, \<open>None\<close> for NaN
    (strings outside the ISO format are parsed as the implementation pleases);
  \<^item> \<open>LocalTZA\<close>: the offset of local time from UTC, in milliseconds, at a UTC time value;
  \<^item> \<open>Number_toString\<close>: the decimal text of a finite number.
\<close>

record js_runtime =
  JSON_parse :: "string \<Rightarrow> jsval option"
  Date_parse :: "string \<Rightarrow> int option"
  LocalTZA :: "int \<Rightarrow> int"
  Number_toString :: "rat \<Rightarrow> string"

subsection \<open>Truthiness, property reads, conversion to string\<close>

fun truthy :: "jsval \<Rightarrow> bool" where
  "truthy Undefined = False"
| "truthy Null = False"
| "truthy (Bool b) = b"
| "truthy (Num (Fin x)) = (x \<noteq> 0)"
| "truthy (Num NegZero) = False"
| "truthy (Num PInf) = True"
| "truthy (Num NInf) = True"
| "truthy (Num NaN) = False"
| "truthy (Str s) = (s \<noteq> [])"
| "truthy (Arr xs) = True"
| "truthy (Obj kvs) = True"

text \<open>
  \<^verbatim>\<open>p.name\<close> for the four names the handlers read (\<^verbatim>\<open>filename\<close>, \<^verbatim>\<open>url\<close>,
  \<^verbatim>\<open>uploadedAt\<close>, \<^verbatim>\<open>dateUploaded\<close>), none of which a prototype defines: reading from
  \<^verbatim>\<open>null\<close> or \<^verbatim>\<open>undefined\<close> throws a TypeError, an object gives its own property or
  \<^verbatim>\<open>undefined\<close>, every other value gives \<^verbatim>\<open>undefined\<close>.
\<close>

fun get_prop :: "jsval \<Rightarrow> string \<Rightarrow> js_error + jsval" where
  "get_prop Undefined k = Inl TypeError"
| "get_prop Null k = Inl TypeError"
| "get_prop (Obj kvs) k = Inr (case map_of kvs k of None \<Rightarrow> Undefined | Some v \<Rightarrow> v)"
| "get_prop v k = Inr Undefined"

definition number_string :: "js_runtime \<Rightarrow> jsnum \<Rightarrow> string" where
  "number_string rt n =
     (case n of Fin x \<Rightarrow> Number_toString rt x | NegZero \<Rightarrow> ''0'' | PInf \<Rightarrow> ''Infinity''
      | NInf \<Rightarrow> ''-Infinity'' | NaN \<Rightarrow> ''NaN'')"

text \<open>
  \<^verbatim>\<open>String(v)\<close> and the conversion inside a template literal. An array is its elements
  joined by commas, \<^verbatim>\<open>null\<close> and \<^verbatim>\<open>undefined\<close> elements giving the empty string. A
  plain object is \<^verbatim>\<open>[object Object]\<close>, unless it has a property named \<^verbatim>\<open>toString\<close> of
  its own: a parsed value is never callable, and the conversion throws a TypeError.
\<close>

fun ToString :: "js_runtime \<Rightarrow> jsval \<Rightarrow> js_error + string"
  and join_elements :: "js_runtime \<Rightarrow> jsval list \<Rightarrow> js_error + string" where
  "ToString rt Undefined = Inr ''undefined''"
| "ToString rt Null = Inr ''null''"
| "ToString rt (Bool b) = Inr (if b then ''true'' else ''false'')"
| "ToString rt (Num n) = Inr (number_string rt n)"
| "ToString rt (Str s) = Inr s"
| "ToString rt (Arr xs) = join_elements rt xs"
| "ToString rt (Obj kvs) =
     (if ''toString'' \<in> set (map fst kvs) then Inl TypeError else Inr ''[object Object]'')"
| "join_elements rt [] = Inr []"
| "join_elements rt (x # xs) =
     (case (if x = Undefined \<or> x = Null then Inr [] else ToString rt x) of
        Inl e \<Rightarrow> Inl e
      | Inr s \<Rightarrow>
          (case join_elements rt xs of
             Inl e \<Rightarrow> Inl e
           | Inr t \<Rightarrow> Inr (if xs = [] then s else s @ '','' @ t)))"

subsection \<open>parseInt with radix 10\<close>

text \<open>
  \<^verbatim>\<open>parseInt(s, 10)\<close>: leading white space is skipped, then an optional sign, then the
  longest run of decimal digits; no digit gives NaN (\<open>None\<close>). The white space of
  ECMAScript is written here in its UTF-8 bytes. The result is kept as an exact integer:
  a double differs from it only beyond \<open>2 ^ 53\<close>, far from every year and month the
  handlers compare it with.
\<close>

fun skip_white :: "string \<Rightarrow> string" where
  "skip_white [] = []"
| "skip_white (c # cs) =
     (if c \<in> set [CHR 0x09, CHR 0x0A, CHR 0x0B, CHR 0x0C, CHR 0x0D, CHR 0x20]
      then skip_white cs
      else (case c # cs of
              CHR 0xC2 # CHR 0xA0 # r \<Rightarrow> skip_white r
            | CHR 0xE1 # CHR 0x9A # CHR 0x80 # r \<Rightarrow> skip_white r
            | CHR 0xE2 # CHR 0x80 # d # r \<Rightarrow>
                (if of_char d \<in> {0x80 .. 0x8A :: nat} \<union> {0xA8, 0xA9, 0xAF}
                 then skip_white r else c # cs)
            | CHR 0xE2 # CHR 0x81 # CHR 0x9F # r \<Rightarrow> skip_white r
            | CHR 0xE3 # CHR 0x80 # CHR 0x80 # r \<Rightarrow> skip_white r
            | CHR 0xEF # CHR 0xBB # CHR 0xBF # r \<Rightarrow> skip_white r
            | _ \<Rightarrow> c # cs))"

definition is_digit :: "char \<Rightarrow> bool" where
  "is_digit c = (48 \<le> (of_char c :: nat) \<and> (of_char c :: nat) \<le> 57)"

definition digit_val :: "char \<Rightarrow> int" where
  "digit_val c = int (of_char c) - 48"

definition digits_val :: "string \<Rightarrow> int" where
  "digits_val ds = foldl (\<lambda>acc c. 10 * acc + digit_val c) 0 ds"

definition parseInt10 :: "string \<Rightarrow> int option" where
  "parseInt10 s =
     (let t = skip_white s;
          neg = (case t of c # _ \<Rightarrow> c = CHR ''-'' | [] \<Rightarrow> False);
          u = (case t of c # r \<Rightarrow> if c = CHR ''+'' \<or> c = CHR ''-'' then r else t | [] \<Rightarrow> t);
          ds = takeWhile is_digit u
      in if ds = [] then None
         else Some (if neg then - digits_val ds else digits_val ds))"

section \<open>Dates\<close>

text \<open>
  The handlers build \<^verbatim>\<open>new Date(v)\<close> and read \<^verbatim>\<open>getFullYear()\<close> and \<^verbatim>\<open>getMonth()\<close>,
  which are in local time. A date is its time value (milliseconds since the epoch, UTC),
  or \<open>None\<close> for an invalid date. The calendar follows the definitions of ECMAScript
  (Day, DayFromYear, YearFromTime, InLeapYear, MonthFromTime, DateFromTime).
\<close>

definition msPerDay :: int where
  "msPerDay = 86400000"

definition Day :: "int \<Rightarrow> int" where
  "Day t = t div msPerDay"

definition DaysInYear :: "int \<Rightarrow> int" where
  "DaysInYear y =
     (if y mod 4 \<noteq> 0 then 365 else if y mod 100 \<noteq> 0 then 366
      else if y mod 400 \<noteq> 0 then 365 else 366)"

definition DayFromYear :: "int \<Rightarrow> int" where
  "DayFromYear y =
     365 * (y - 1970) + (y - 1969) div 4 - (y - 1901) div 100 + (y - 1601) div 400"

text \<open>
  ECMAScript defines the year of a time value as the largest \<open>y\<close> whose first day is not
  after it. It is computed from an estimate that is off by one year at most
  (lemma \<open>YearFromDay_bounds\<close> below).
\<close>

definition YearFromDay :: "int \<Rightarrow> int" where
  "YearFromDay d =
     (let y = 1970 + (400 * d) div 146097
      in if d < DayFromYear y then y - 1
         else if DayFromYear (y + 1) \<le> d then y + 1 else y)"

definition YearFromTime :: "int \<Rightarrow> int" where
  "YearFromTime t = YearFromDay (Day t)"

definition InLeapYear :: "int \<Rightarrow> int" where
  "InLeapYear t = (if DaysInYear (YearFromTime t) = 366 then 1 else 0)"

definition DayWithinYear :: "int \<Rightarrow> int" where
  "DayWithinYear t = Day t - DayFromYear (YearFromTime t)"

definition MonthFromTime :: "int \<Rightarrow> int" where
  "MonthFromTime t =
     (let d = DayWithinYear t; l = InLeapYear t
      in if d < 31 then 0
         else if d < 59 + l then 1
         else if d < 90 + l then 2
         else if d < 120 + l then 3
         else if d < 151 + l then 4
         else if d < 181 + l then 5
         else if d < 212 + l then 6
         else if d < 243 + l then 7
         else if d < 273 + l then 8
         else if d < 304 + l then 9
         else if d < 334 + l then 10
         else 11)"

definition DateFromTime :: "int \<Rightarrow> int" where
  "DateFromTime t =
     (let d = DayWithinYear t; l = InLeapYear t; m = MonthFromTime t
      in if m = 0 then d + 1
         else if m = 1 then d - 30
         else if m = 2 then d - 58 - l
         else if m = 3 then d - 89 - l
         else if m = 4 then d - 119 - l
         else if m = 5 then d - 150 - l
         else if m = 6 then d - 180 - l
         else if m = 7 then d - 211 - l
         else if m = 8 then d - 242 - l
         else if m = 9 then d - 272 - l
         else if m = 10 then d - 303 - l
         else d - 333 - l)"

type_synonym jsdate = "int option"

text \<open>TimeClip: a time value beyond 8.64e15 ms is no date; a fraction is cut off.\<close>

definition TimeClip :: "jsnum \<Rightarrow> jsdate" where
  "TimeClip n =
     (case n of
        Fin x \<Rightarrow> if \<bar>x\<bar> > 8640000000000000 then None
                 else Some (if 0 \<le> x then \<lfloor>x\<rfloor> else \<lceil>x\<rceil>)
      | NegZero \<Rightarrow> Some 0
      | _ \<Rightarrow> None)"

definition clip_parsed :: "int option \<Rightarrow> jsdate" where
  "clip_parsed tv =
     (case tv of None \<Rightarrow> None
      | Some t \<Rightarrow> if \<bar>t\<bar> > 8640000000000000 then None else Some t)"

text \<open>
  \<^verbatim>\<open>new Date(v)\<close> with one argument: a string is parsed; an array or an object is first
  turned into a string (which may throw) and then parsed; every other value is turned
  into a number.
\<close>

fun new_Date :: "js_runtime \<Rightarrow> jsval \<Rightarrow> js_error + jsdate" where
  "new_Date rt Undefined = Inr None"
| "new_Date rt Null = Inr (Some 0)"
| "new_Date rt (Bool b) = Inr (Some (if b then 1 else 0))"
| "new_Date rt (Num n) = Inr (TimeClip n)"
| "new_Date rt (Str s) = Inr (clip_parsed (Date_parse rt s))"
| "new_Date rt v =
     (case ToString rt v of Inl e \<Rightarrow> Inl e | Inr s \<Rightarrow> Inr (clip_parsed (Date_parse rt s)))"

definition LocalTime :: "js_runtime \<Rightarrow> int \<Rightarrow> int" where
  "LocalTime rt t = t + LocalTZA rt t"

text \<open>A number the handlers compare: an integer, or \<open>None\<close> for NaN.\<close>

definition getFullYear :: "js_runtime \<Rightarrow> jsdate \<Rightarrow> int option" where
  "getFullYear rt d =
     (case d of None \<Rightarrow> None | Some t \<Rightarrow> Some (YearFromTime (LocalTime rt t)))"

definition getMonth :: "js_runtime \<Rightarrow> jsdate \<Rightarrow> int option" where
  "getMonth rt d =
     (case d of None \<Rightarrow> None | Some t \<Rightarrow> Some (MonthFromTime (LocalTime rt t)))"

text \<open>\<^verbatim>\<open>a === b\<close> on two numbers: NaN equals nothing, not even itself.\<close>

definition strict_equal :: "int option \<Rightarrow> int option \<Rightarrow> bool" where
  "strict_equal a b = (case a of None \<Rightarrow> False | Some x \<Rightarrow> (case b of None \<Rightarrow> False | Some y \<Rightarrow> x = y))"

subsection \<open>toISOString\<close>

definition digit_char :: "int \<Rightarrow> char" where
  "digit_char d = ''0123456789'' ! nat (d mod 10)"

definition pad2 :: "int \<Rightarrow> string" where
  "pad2 n = [digit_char (n div 10), digit_char n]"

definition pad3 :: "int \<Rightarrow> string" where
  "pad3 n = [digit_char (n div 100), digit_char (n div 10), digit_char n]"

definition pad4 :: "int \<Rightarrow> string" where
  "pad4 n = [digit_char (n div 1000), digit_char (n div 100), digit_char (n div 10), digit_char n]"

definition pad6 :: "int \<Rightarrow> string" where
  "pad6 n = [digit_char (n div 100000), digit_char (n div 10000)] @ pad4 n"

text \<open>
  \<^verbatim>\<open>new Date().toISOString()\<close> at the time value \<open>t\<close>: UTC, with a four-digit year from
  0 to 9999 and a signed six-digit year outside.
\<close>

definition toISOString :: "int \<Rightarrow> string" where
  "toISOString t =
     (let y = YearFromTime t
      in (if 0 \<le> y \<and> y \<le> 9999 then pad4 y
          else (if y < 0 then ''-'' else ''+'') @ pad6 \<bar>y\<bar>)
         @ ''-'' @ pad2 (MonthFromTime t + 1) @ ''-'' @ pad2 (DateFromTime t)
         @ ''T'' @ pad2 (t div 3600000 mod 24) @ '':'' @ pad2 (t div 60000 mod 60)
         @ '':'' @ pad2 (t div 1000 mod 60) @ ''.'' @ pad3 (t mod 1000) @ ''Z'')"

section \<open>The record store\<close>

subsection \<open>The text of photos.json\<close>

text \<open>
  \<^verbatim>\<open>photos.json\<close> holds a text that somebody put there (\<open>Raw\<close>), or the text that
  \<^verbatim>\<open>writePhotosList\<close> wrote for a list, \<^verbatim>\<open>JSON.stringify(list, null, 2)\<close> (\<open>Written\<close>). A raw
  text is read by the runtime's \<^verbatim>\<open>JSON.parse\<close>. A written text is kept as the list it was
  written for, and what \<^verbatim>\<open>JSON.parse\<close> reads from it is given by the rules of
  \<^verbatim>\<open>JSON.stringify\<close> (ECMAScript, SerializeJSONProperty): a number that is not finite is
  written \<^verbatim>\<open>null\<close>, and so is an \<^verbatim>\<open>undefined\<close> element of an array; the negative zero is
  written \<^verbatim>\<open>0\<close>; a property whose value is \<^verbatim>\<open>undefined\<close> is left out; every other value
  is written so that it is read back as it was (the digits of a finite number, the
  escapes of a string and the order of the properties are chosen for that). The layout
  of the text is not modelled.
\<close>

datatype json_text = Raw string | Written "jsval list"

fun reparsed :: "jsval \<Rightarrow> jsval"
  and reparsed_elements :: "jsval list \<Rightarrow> jsval list"
  and reparsed_properties :: "(string \<times> jsval) list \<Rightarrow> (string \<times> jsval) list" where
  "reparsed Undefined = Null"
| "reparsed Null = Null"
| "reparsed (Bool b) = Bool b"
| "reparsed (Num (Fin x)) = Num (Fin x)"
| "reparsed (Num NegZero) = Num (Fin 0)"
| "reparsed (Num PInf) = Null"
| "reparsed (Num NInf) = Null"
| "reparsed (Num NaN) = Null"
| "reparsed (Str s) = Str s"
| "reparsed (Arr xs) = Arr (reparsed_elements xs)"
| "reparsed (Obj kvs) = Obj (reparsed_properties kvs)"
| "reparsed_elements [] = []"
| "reparsed_elements (x # xs) = reparsed x # reparsed_elements xs"
| "reparsed_properties [] = []"
| "reparsed_properties ((k, v) # kvs) =
     (if v = Undefined then reparsed_properties kvs else (k, reparsed v) # reparsed_properties kvs)"

text \<open>\<^verbatim>\<open>JSON.parse(raw)\<close> for the text read from the file; \<open>None\<close> when it throws.\<close>

definition JSON_parse_text :: "js_runtime \<Rightarrow> json_text \<Rightarrow> jsval option" where
  "JSON_parse_text rt raw =
     (case raw of
        Raw s \<Rightarrow> JSON_parse rt s
      | Written list \<Rightarrow> Some (Arr (reparsed_elements list)))"

text \<open>
  A value that is read back as it is: it holds no \<^verbatim>\<open>undefined\<close> (no value that
  \<^verbatim>\<open>JSON.parse\<close> returns does), and every number in it is finite and is not the negative
  zero.
\<close>

fun stable_json :: "jsval \<Rightarrow> bool"
  and stable_elements :: "jsval list \<Rightarrow> bool"
  and stable_properties :: "(string \<times> jsval) list \<Rightarrow> bool" where
  "stable_json Undefined = False"
| "stable_json Null = True"
| "stable_json (Bool b) = True"
| "stable_json (Num n) = (case n of Fin x \<Rightarrow> True | _ \<Rightarrow> False)"
| "stable_json (Str s) = True"
| "stable_json (Arr xs) = stable_elements xs"
| "stable_json (Obj kvs) = stable_properties kvs"
| "stable_elements [] = True"
| "stable_elements (x # xs) = (stable_json x \<and> stable_elements xs)"
| "stable_properties [] = True"
| "stable_properties ((k, v) # kvs) = (stable_json v \<and> stable_properties kvs)"

subsection \<open>The file\<close>

text \<open>
  \<^verbatim>\<open>photos.json\<close> is absent or holds a text. Whether the process may read it and whether
  it may write it are separate facts of the file system, and writing the file changes
  neither. \<open>uploads_listing\<close> is what \<^verbatim>\<open>fs.readdir(uploadsDir, callback)\<close> hands to its
  callback: an error or none, and the file names.
\<close>

record fs_state =
  photos_json :: "json_text option"
  photos_json_readable :: bool
  photos_json_writable :: bool
  uploads_listing :: "js_error option \<times> string list option"

text \<open>\<^verbatim>\<open>fs.readFileSync(photosJsonPath, 'utf-8')\<close>\<close>

definition readFileSync :: "fs_state \<Rightarrow> js_error + json_text" where
  "readFileSync fs =
     (case photos_json fs of
        None \<Rightarrow> Inl IOError
      | Some raw \<Rightarrow> if photos_json_readable fs then Inr raw else Inl IOError)"

text \<open>The body of the \<^verbatim>\<open>try\<close> block of \<^verbatim>\<open>readPhotosList\<close>.\<close>

definition readPhotosList_try :: "js_runtime \<Rightarrow> fs_state \<Rightarrow> js_error + jsval list" where
  "readPhotosList_try rt fs =
     (case readFileSync fs of
        Inl e \<Rightarrow> Inl e
      | Inr raw \<Rightarrow>
          (case JSON_parse_text rt raw of
             None \<Rightarrow> Inl SyntaxError
           | Some obj \<Rightarrow> Inr (case obj of Arr xs \<Rightarrow> xs | _ \<Rightarrow> [])))"

text \<open>\<^verbatim>\<open>readPhotosList\<close>: the \<^verbatim>\<open>catch\<close> clause answers every exception with the empty list.\<close>

definition readPhotosList :: "js_runtime \<Rightarrow> fs_state \<Rightarrow> jsval list" where
  "readPhotosList rt fs = (case readPhotosList_try rt fs of Inl e \<Rightarrow> [] | Inr xs \<Rightarrow> xs)"

text \<open>
  \<^verbatim>\<open>writePhotosList\<close>: \<^verbatim>\<open>fs.writeFileSync\<close> replaces the text (creating the file when it is
  absent), or it cannot open the file, throws, and leaves everything as it was. The
  result is the exception, if any, and the state afterwards. A write that begins and
  then breaks off (a full disk) is outside the model.
\<close>

definition writePhotosList :: "jsval list \<Rightarrow> fs_state \<Rightarrow> js_error option \<times> fs_state" where
  "writePhotosList list fs =
     (if photos_json_writable fs
      then (None, fs\<lparr>photos_json := Some (Written list)\<rparr>)
      else (Some IOError, fs))"

section \<open>Responses and the access guard\<close>

record response =
  status :: nat
  body :: jsval

definition json_response :: "nat \<Rightarrow> jsval \<Rightarrow> response" where
  "json_response code v = \<lparr>status = code, body = v\<rparr>"

definition error_body :: "string \<Rightarrow> jsval" where
  "error_body msg = Obj [(''error'', Str msg)]"

text \<open>
  \<^verbatim>\<open>const ADMIN_TOKEN = process.env.ADMIN_TOKEN || null\<close>: an unset or empty variable
  gives \<^verbatim>\<open>null\<close>.
\<close>

definition ADMIN_TOKEN :: "string option \<Rightarrow> string option" where
  "ADMIN_TOKEN env_var = (case env_var of None \<Rightarrow> None | Some s \<Rightarrow> if s = [] then None else Some s)"

text \<open>
  \<^verbatim>\<open>requireAdmin\<close>: \<open>Some\<close> response when the request is answered here, \<open>None\<close> when
  \<^verbatim>\<open>next()\<close> is called. The second argument is \<^verbatim>\<open>req.headers['authorization']\<close>.
\<close>

definition requireAdmin :: "string option \<Rightarrow> string option \<Rightarrow> response option" where
  "requireAdmin admin_token authorization =
     (if admin_token = None \<or> admin_token = Some []
      then Some (json_response 500 (error_body ''Server missing ADMIN_TOKEN''))
      else
        (let header = (case authorization of None \<Rightarrow> [] | Some h \<Rightarrow> h);
             token = (if take 7 header = ''Bearer '' then drop 7 header else header)
         in if Some token \<noteq> admin_token
            then Some (json_response 401 (error_body ''Unauthorized''))
            else None))"

section \<open>Random selection\<close>

subsection \<open>Arithmetic on doubles\<close>

text \<open>
  A product of two doubles is the exact product rounded to the nearest double, a tie going
  to the double with the even significand (IEEE 754, round to nearest, ties to even).
  A double has 53 significant bits; below \<open>2 powi (- 1022)\<close> the doubles are
  \<open>2 powi (- 1074)\<close> apart.

  \<open>binary_exponent x\<close>, for a positive \<open>x\<close>, is the \<open>e\<close> with \<open>2 powi e \<le> x < 2 powi (e + 1)\<close>
  (lemma \<open>exponent_bounds\<close>); \<open>ulp x\<close> is the distance between the doubles around \<open>x\<close>;
  \<open>round_double x\<close> is the double nearest to \<open>x\<close>, for every \<open>x\<close> below the largest double.
\<close>

definition binary_exponent :: "rat \<Rightarrow> int" where
  "binary_exponent x =
     (if 1 \<le> x then int (floorlog 2 (nat \<lfloor>x\<rfloor>)) - 1
      else - int (floorlog 2 (nat (\<lceil>1 / x\<rceil> - 1))))"

definition round_half_even :: "rat \<Rightarrow> int" where
  "round_half_even y =
     (let f = \<lfloor>y\<rfloor>; d = y - of_int f
      in if d < 1 / 2 then f else if 1 / 2 < d then f + 1 else if even f then f else f + 1)"

definition ulp :: "rat \<Rightarrow> rat" where
  "ulp x = 2 powi (max (binary_exponent x) (- 1022) - 52)"

definition round_double :: "rat \<Rightarrow> rat" where
  "round_double x =
     (if x = 0 then 0
      else sgn x * of_int (round_half_even (\<bar>x\<bar> / ulp \<bar>x\<bar>)) * ulp \<bar>x\<bar>)"

text \<open>
  A value \<^verbatim>\<open>Math.random()\<close> may return: a double, at least 0 and below 1.
\<close>

definition unit_double :: "rat \<Rightarrow> bool" where
  "unit_double r = (0 \<le> r \<and> r < 1 \<and> round_double r = r)"

subsection \<open>The index\<close>

text \<open>
  \<^verbatim>\<open>Math.floor(Math.random() * n)\<close>, with the value of \<^verbatim>\<open>Math.random()\<close> given as \<open>r\<close>. The
  length \<open>n\<close> of an array is an integer below \<open>2 ^ 32\<close>, which is a double; the product is
  rounded.
\<close>

definition random_index :: "rat \<Rightarrow> nat \<Rightarrow> int" where
  "random_index r n = \<lfloor>round_double (r * of_nat n)\<rfloor>"

text \<open>\<^verbatim>\<open>xs[i]\<close>: an index outside the array gives \<^verbatim>\<open>undefined\<close>.\<close>

definition js_nth :: "jsval list \<Rightarrow> int \<Rightarrow> jsval" where
  "js_nth xs i = (if 0 \<le> i \<and> i < int (length xs) then xs ! nat i else Undefined)"

definition get_api_photos :: "js_runtime \<Rightarrow> fs_state \<Rightarrow> response" where
  "get_api_photos rt fs = json_response 200 (Arr (readPhotosList rt fs))"

definition get_api_photos_random :: "js_runtime \<Rightarrow> fs_state \<Rightarrow> rat \<Rightarrow> response" where
  "get_api_photos_random rt fs r =
     (let list = readPhotosList rt fs
      in if list = [] then json_response 404 (error_body ''No photos'')
         else json_response 200 (js_nth list (random_index r (length list))))"

section \<open>The filtered selection of /random-photo\<close>

text \<open>\<^verbatim>\<open>p.uploadedAt || p.dateUploaded || 0\<close>\<close>

definition effective_timestamp :: "jsval \<Rightarrow> js_error + jsval" where
  "effective_timestamp p =
     (case get_prop p ''uploadedAt'' of
        Inl e \<Rightarrow> Inl e
      | Inr a \<Rightarrow>
          if truthy a then Inr a
          else (case get_prop p ''dateUploaded'' of
                  Inl e \<Rightarrow> Inl e
                | Inr b \<Rightarrow> if truthy b then Inr b else Inr (Num (Fin 0))))"

definition photo_date :: "js_runtime \<Rightarrow> jsval \<Rightarrow> js_error + jsdate" where
  "photo_date rt p =
     (case effective_timestamp p of Inl e \<Rightarrow> Inl e | Inr v \<Rightarrow> new_Date rt v)"

text \<open>\<^verbatim>\<open>Array.prototype.filter\<close> with a callback that may throw: the first exception ends it.\<close>

fun filterE :: "('a \<Rightarrow> js_error + bool) \<Rightarrow> 'a list \<Rightarrow> js_error + 'a list" where
  "filterE f [] = Inr []"
| "filterE f (x # xs) =
     (case f x of
        Inl e \<Rightarrow> Inl e
      | Inr b \<Rightarrow>
          (case filterE f xs of
             Inl e \<Rightarrow> Inl e
           | Inr ys \<Rightarrow> Inr (if b then x # ys else ys)))"

definition year_matches :: "js_runtime \<Rightarrow> int option \<Rightarrow> jsval \<Rightarrow> js_error + bool" where
  "year_matches rt yr p =
     (case photo_date rt p of Inl e \<Rightarrow> Inl e | Inr d \<Rightarrow> Inr (strict_equal (getFullYear rt d) yr))"

definition month_matches :: "js_runtime \<Rightarrow> int option \<Rightarrow> jsval \<Rightarrow> js_error + bool" where
  "month_matches rt m p =
     (case photo_date rt p of Inl e \<Rightarrow> Inl e | Inr d \<Rightarrow> Inr (strict_equal (getMonth rt d) m))"

text \<open>The block \<^verbatim>\<open>if (year) { ... }\<close>; \<open>year\<close> is \<^verbatim>\<open>req.query.year\<close>.\<close>

definition year_filter :: "js_runtime \<Rightarrow> jsval \<Rightarrow> jsval list \<Rightarrow> js_error + jsval list" where
  "year_filter rt year filtered =
     (if truthy year
      then (case ToString rt year of
              Inl e \<Rightarrow> Inl e
            | Inr s \<Rightarrow> filterE (year_matches rt (parseInt10 s)) filtered)
      else Inr filtered)"

text \<open>\<^verbatim>\<open>const m = mRaw > 11 ? mRaw - 1 : mRaw\<close>; NaN is not greater than 11 and stays NaN.\<close>

definition normalize_month :: "int option \<Rightarrow> int option" where
  "normalize_month mRaw =
     (case mRaw of None \<Rightarrow> None | Some k \<Rightarrow> Some (if k > 11 then k - 1 else k))"

text \<open>The block \<^verbatim>\<open>if (month) { ... }\<close>; \<open>month\<close> is \<^verbatim>\<open>req.query.month\<close>.\<close>

definition month_filter :: "js_runtime \<Rightarrow> jsval \<Rightarrow> jsval list \<Rightarrow> js_error + jsval list" where
  "month_filter rt month filtered =
     (if truthy month
      then (case ToString rt month of
              Inl e \<Rightarrow> Inl e
            | Inr s \<Rightarrow> filterE (month_matches rt (normalize_month (parseInt10 s))) filtered)
      else Inr filtered)"

text \<open>The value of \<^verbatim>\<open>filtered\<close> after both blocks.\<close>

definition filter_photos :: "js_runtime \<Rightarrow> jsval \<Rightarrow> jsval \<Rightarrow> jsval list \<Rightarrow> js_error + jsval list" where
  "filter_photos rt year month list =
     (case year_filter rt year list of
        Inl e \<Rightarrow> Inl e
      | Inr filtered \<Rightarrow> month_filter rt month filtered)"

text \<open>
  The object handed to \<^verbatim>\<open>res.json\<close> for the chosen record:
  \<^verbatim>\<open>{ filename: pick.filename, url: pick.url || `/photos/${pick.filename}`,
     uploadedAt: pick.uploadedAt || pick.dateUploaded }\<close>.
  A property whose value is \<^verbatim>\<open>undefined\<close> is left out when the object is serialised.
\<close>

definition photo_response :: "js_runtime \<Rightarrow> jsval \<Rightarrow> js_error + response" where
  "photo_response rt pick =
     (case get_prop pick ''filename'' of
        Inl e \<Rightarrow> Inl e
      | Inr fname \<Rightarrow>
     (case get_prop pick ''url'' of
        Inl e \<Rightarrow> Inl e
      | Inr u \<Rightarrow>
     (case (if truthy u then Inr u
            else (case ToString rt fname of Inl e \<Rightarrow> Inl e | Inr s \<Rightarrow> Inr (Str (''/photos/'' @ s)))) of
        Inl e \<Rightarrow> Inl e
      | Inr url \<Rightarrow>
     (case get_prop pick ''uploadedAt'' of
        Inl e \<Rightarrow> Inl e
      | Inr a \<Rightarrow>
     (case (if truthy a then Inr a else get_prop pick ''dateUploaded'') of
        Inl e \<Rightarrow> Inl e
      | Inr up \<Rightarrow>
          Inr (json_response 200
                 (Obj [(''filename'', fname), (''url'', url), (''uploadedAt'', up)])))))))"

text \<open>The regular expression \<^verbatim>\<open>/\.(jpe?g|png|gif|webp|avif)$/i\<close>.\<close>

definition ascii_lower :: "char \<Rightarrow> char" where
  "ascii_lower c =
     (case map_of (zip ''ABCDEFGHIJKLMNOPQRSTUVWXYZ'' ''abcdefghijklmnopqrstuvwxyz'') c of
        None \<Rightarrow> c
      | Some l \<Rightarrow> l)"

definition ends_with :: "string \<Rightarrow> string \<Rightarrow> bool" where
  "ends_with s e = (length e \<le> length s \<and> drop (length s - length e) s = e)"

definition is_image_name :: "string \<Rightarrow> bool" where
  "is_image_name name =
     list_ex (ends_with (map ascii_lower name))
       [''.jpg'', ''.jpeg'', ''.png'', ''.gif'', ''.webp'', ''.avif'']"

text \<open>The callback of \<^verbatim>\<open>fs.readdir\<close>: the fallback when the store has no record.\<close>

definition readdir_callback ::
  "js_runtime \<Rightarrow> js_error option \<times> string list option \<Rightarrow> rat \<Rightarrow> js_error + response" where
  "readdir_callback rt listing r =
     (case listing of
        (Some err, files) \<Rightarrow> Inr (json_response 500 (error_body ''Failed to read photos''))
      | (None, files) \<Rightarrow>
          (let imageFiles = filter is_image_name (case files of None \<Rightarrow> [] | Some names \<Rightarrow> names)
           in if imageFiles = [] then Inr (json_response 404 (error_body ''No photos yet''))
              else
                (let randomFile = js_nth (map Str imageFiles) (random_index r (length imageFiles))
                 in case ToString rt randomFile of
                      Inl e \<Rightarrow> Inl e
                    | Inr s \<Rightarrow>
                        Inr (json_response 200
                               (Obj [(''filename'', randomFile), (''url'', Str (''/photos/'' @ s))])))))"

text \<open>
  \<^verbatim>\<open>GET /random-photo\<close>. \<open>Inl\<close> is an exception thrown inside the handler, which Express
  passes to the error middleware.
\<close>

definition get_random_photo ::
  "js_runtime \<Rightarrow> fs_state \<Rightarrow> jsval \<Rightarrow> jsval \<Rightarrow> rat \<Rightarrow> js_error + response" where
  "get_random_photo rt fs month year r =
     (let list = readPhotosList rt fs
      in if list \<noteq> [] then
           (case filter_photos rt year month list of
              Inl e \<Rightarrow> Inl e
            | Inr filtered \<Rightarrow>
                if filtered = []
                then Inr (json_response 404 (error_body ''No photos found for this filter''))
                else photo_response rt (js_nth filtered (random_index r (length filtered))))
         else readdir_callback rt (uploads_listing fs) r)"

section \<open>Uploads\<close>

text \<open>
  \<^verbatim>\<open>req.file\<close> as multer's \<^verbatim>\<open>upload.single('photo')\<close> leaves it: absent when the request
  carried no file, else the file already saved under a generated name. Only the name is
  read by the handlers.
\<close>

record multer_file =
  file_filename :: string

text \<open>
  \<^verbatim>\<open>POST /api/photos/upload\<close>: \<^verbatim>\<open>requireAdmin\<close>, then multer, then the handler. \<open>now\<close> is
  the time value of \<^verbatim>\<open>new Date()\<close>.
\<close>

definition admin_item :: "string \<Rightarrow> int \<Rightarrow> jsval" where
  "admin_item f now =
     Obj [(''filename'', Str f), (''url'', Str (''/uploads/'' @ f)),
          (''uploadedAt'', Str (toISOString now))]"

definition post_api_photos_upload ::
  "js_runtime \<Rightarrow> string option \<Rightarrow> string option \<Rightarrow> multer_file option \<Rightarrow> int \<Rightarrow> fs_state
     \<Rightarrow> js_error + response \<times> fs_state" where
  "post_api_photos_upload rt admin_token authorization file now fs =
     (case requireAdmin admin_token authorization of
        Some rejected \<Rightarrow> Inr (rejected, fs)
      | None \<Rightarrow>
          (case file of
             None \<Rightarrow> Inr (json_response 400 (error_body ''No file uploaded''), fs)
           | Some f \<Rightarrow>
               (let list = readPhotosList rt fs;
                    item = admin_item (file_filename f) now
                in case writePhotosList (list @ [item]) fs of
                     (Some e, fs') \<Rightarrow> Inl e
                   | (None, fs') \<Rightarrow> Inr (json_response 201 item, fs'))))"

text \<open>\<^verbatim>\<open>POST /upload\<close>: no guard; the record carries \<^verbatim>\<open>dateUploaded\<close> as well.\<close>

definition open_item :: "string \<Rightarrow> int \<Rightarrow> jsval" where
  "open_item f now =
     (let nowIso = toISOString now
      in Obj [(''filename'', Str f), (''url'', Str (''/photos/'' @ f)),
              (''uploadedAt'', Str nowIso), (''dateUploaded'', Str nowIso)])"

definition post_upload ::
  "js_runtime \<Rightarrow> multer_file option \<Rightarrow> int \<Rightarrow> fs_state \<Rightarrow> js_error + response \<times> fs_state" where
  "post_upload rt file now fs =
     (case file of
        None \<Rightarrow> Inr (json_response 400 (error_body ''No file uploaded''), fs)
      | Some f \<Rightarrow>
          (let list = readPhotosList rt fs;
               item = open_item (file_filename f) now
           in case writePhotosList (list @ [item]) fs of
                (Some e, fs') \<Rightarrow> Inl e
              | (None, fs') \<Rightarrow>
                  Inr (json_response 200
                         (Obj [(''message'', Str ''Photo uploaded!''),
                               (''photo'', Obj [(''filename'', Str (file_filename f)),
                                                (''dateUploaded'', Str (toISOString now))])]),
                       fs')))"

section \<open>Photo records\<close>

text \<open>
  A photo record, as the uploads write it and the selection reads it: an object whose
  \<^verbatim>\<open>filename\<close>, \<^verbatim>\<open>url\<close>, \<^verbatim>\<open>uploadedAt\<close> and \<^verbatim>\<open>dateUploaded\<close>, where present, are
  primitive values (strings, in every record the uploads write).
\<close>

definition primitive :: "jsval \<Rightarrow> bool" where
  "primitive v = (case v of Arr xs \<Rightarrow> False | Obj kvs \<Rightarrow> False | _ \<Rightarrow> True)"

definition is_record :: "jsval \<Rightarrow> bool" where
  "is_record p =
     (case p of
        Obj kvs \<Rightarrow>
          list_all (\<lambda>k. case map_of kvs k of None \<Rightarrow> True | Some v \<Rightarrow> primitive v)
            [''filename'', ''url'', ''uploadedAt'', ''dateUploaded'']
      | _ \<Rightarrow> False)"

text \<open>The date the filters compute for a record; an exception counts as no date.\<close>

definition record_date :: "js_runtime \<Rightarrow> jsval \<Rightarrow> jsdate" where
  "record_date rt p = (case photo_date rt p of Inl e \<Rightarrow> None | Inr d \<Rightarrow> d)"

subsection \<open>The effective timestamp, in the words of the specification\<close>

text \<open>
  The specification's glossary: the effective timestamp of a record is its
  \<^verbatim>\<open>uploadedAt\<close>, falling back to \<^verbatim>\<open>dateUploaded\<close>, falling back to epoch zero. A field
  is given when the record has it with a value that JavaScript counts as true (a
  non-empty string, a number other than 0); an absent, empty, zero or \<^verbatim>\<open>null\<close> field is
  passed over. The definitions of this subsection are written from the specification,
  not from the code; the theorems on the filters compare the code with them.
\<close>

definition spec_given :: "(string \<times> jsval) list \<Rightarrow> string \<Rightarrow> bool" where
  "spec_given kvs k = (case map_of kvs k of None \<Rightarrow> False | Some v \<Rightarrow> truthy v)"

definition spec_effective_timestamp :: "jsval \<Rightarrow> jsval" where
  "spec_effective_timestamp p =
     (case p of
        Obj kvs \<Rightarrow>
          if spec_given kvs ''uploadedAt'' then the (map_of kvs ''uploadedAt'')
          else if spec_given kvs ''dateUploaded'' then the (map_of kvs ''dateUploaded'')
          else Num (Fin 0)
      | _ \<Rightarrow> Num (Fin 0))"

text \<open>
  The local time of the effective timestamp: the time value of the date made from it,
  moved by the offset of the time zone; \<open>None\<close> when it is no date. The local year and the
  0-indexed local month of a record are \<open>YearFromTime\<close> and \<open>MonthFromTime\<close> of it.
\<close>

definition spec_local_time :: "js_runtime \<Rightarrow> jsval \<Rightarrow> int option" where
  "spec_local_time rt p =
     (case new_Date rt (spec_effective_timestamp p) of
        Inr (Some t) \<Rightarrow> Some (t + LocalTZA rt t)
      | _ \<Rightarrow> None)"

section \<open>A runtime for the examples\<close>

text \<open>
  The theorems below hold for every runtime. The examples run them in two. In the first
  the time zone is UTC, \<^verbatim>\<open>Date.parse\<close> reads the format that \<^verbatim>\<open>toISOString\<close> writes (with
  or without milliseconds) and nothing else, integers are printed in decimal digits, and
  \<^verbatim>\<open>JSON.parse\<close> is tabulated at the raw texts the examples use, with the answers of Node
  there. The second differs in the time zone: five hours behind UTC, all year.
\<close>

definition fixed_number :: "string \<Rightarrow> int option" where
  "fixed_number ds = (if ds \<noteq> [] \<and> list_all is_digit ds then Some (digits_val ds) else None)"

definition days_before_month :: "int \<Rightarrow> int \<Rightarrow> int" where
  "days_before_month m l =
     [0, 31, 59 + l, 90 + l, 120 + l, 151 + l, 181 + l, 212 + l, 243 + l, 273 + l,
      304 + l, 334 + l] ! nat m"

definition days_in_month :: "int \<Rightarrow> int \<Rightarrow> int" where
  "days_in_month m l = [31, 28 + l, 31, 30, 31, 30, 31, 31, 30, 31, 30, 31] ! nat m"

definition iso_parse :: "string \<Rightarrow> int option" where
  "iso_parse s =
     (let n = length s
      in if (n = 20 \<or> n = 24) \<and> s ! 4 = CHR ''-'' \<and> s ! 7 = CHR ''-'' \<and> s ! 10 = CHR ''T''
            \<and> s ! 13 = CHR '':'' \<and> s ! 16 = CHR '':'' \<and> last s = CHR ''Z''
            \<and> (n = 20 \<or> s ! 19 = CHR ''.'')
         then
           (case those [fixed_number (take 4 s), fixed_number (take 2 (drop 5 s)),
                        fixed_number (take 2 (drop 8 s)), fixed_number (take 2 (drop 11 s)),
                        fixed_number (take 2 (drop 14 s)), fixed_number (take 2 (drop 17 s)),
                        (if n = 24 then fixed_number (take 3 (drop 20 s)) else Some 0)] of
              Some [y, mo, d, h, mi, sec, ms] \<Rightarrow>
                (let l = (if DaysInYear y = 366 then 1 else 0)
                 in if 1 \<le> mo \<and> mo \<le> 12 \<and> 1 \<le> d \<and> d \<le> days_in_month (mo - 1) l
                       \<and> h \<le> 23 \<and> mi \<le> 59 \<and> sec \<le> 59
                    then Some ((DayFromYear y + days_before_month (mo - 1) l + d - 1) * msPerDay
                               + h * 3600000 + mi * 60000 + sec * 1000 + ms)
                    else None)
            | _ \<Rightarrow> None)
         else None)"

fun nat_digits :: "nat \<Rightarrow> string" where
  "nat_digits n =
     (if n < 10 then [digit_char (int n)] else nat_digits (n div 10) @ [digit_char (int n)])"

definition integer_digits :: "rat \<Rightarrow> string" where
  "integer_digits x = (if x < 0 then [CHR ''-''] else []) @ nat_digits (nat \<bar>\<lfloor>x\<rfloor>\<bar>)"

text \<open>
  Five records: one as the admin upload writes it, the one of the specification's
  scenario (no \<^verbatim>\<open>url\<close>), one as the open upload writes it, one with \<^verbatim>\<open>dateUploaded\<close> only
  (two hours into 2024 in UTC, still 2023 five hours to the west), and one with no
  timestamp at all.
\<close>

definition photo_jan :: jsval where
  "photo_jan =
     Obj [(''filename'', Str ''0f1e2d3c4b5a69788796a5b4.jpg''),
          (''url'', Str ''/uploads/0f1e2d3c4b5a69788796a5b4.jpg''),
          (''uploadedAt'', Str ''2024-01-15T12:00:00.000Z'')]"

definition photo_mar :: jsval where
  "photo_mar = Obj [(''filename'', Str ''a.jpg''), (''uploadedAt'', Str ''2024-03-05T00:00:00Z'')]"

definition photo_dec :: jsval where
  "photo_dec =
     Obj [(''filename'', Str ''c0ffee00c0ffee00c0ffee00.png''),
          (''url'', Str ''/photos/c0ffee00c0ffee00c0ffee00.png''),
          (''uploadedAt'', Str ''2023-12-31T23:59:59.000Z''),
          (''dateUploaded'', Str ''2023-12-31T23:59:59.000Z'')]"

definition photo_legacy :: jsval where
  "photo_legacy =
     Obj [(''filename'', Str ''old.gif''), (''dateUploaded'', Str ''2024-01-01T02:00:00.000Z'')]"

definition photo_bare :: jsval where
  "photo_bare = Obj [(''filename'', Str ''scan.PNG'')]"

text \<open>The text \<^verbatim>\<open>JSON.stringify([photo_jan], null, 2)\<close>, put there as a raw text.\<close>

definition text_jan :: string where
  \<open>text_jan =
     ''[\<newline>  {\<newline>    "filename": "0f1e2d3c4b5a69788796a5b4.jpg",\<newline>    "url": "/uploads/0f1e2d3c4b5a69788796a5b4.jpg",\<newline>    "uploadedAt": "2024-01-15T12:00:00.000Z"\<newline>  }\<newline>]''\<close>

text \<open>The text \<^verbatim>\<open>JSON.stringify([photo_dec], null, 2)\<close>.\<close>

definition text_dec :: string where
  \<open>text_dec =
     ''[\<newline>  {\<newline>    "filename": "c0ffee00c0ffee00c0ffee00.png",\<newline>    "url": "/photos/c0ffee00c0ffee00c0ffee00.png",\<newline>    "uploadedAt": "2023-12-31T23:59:59.000Z",\<newline>    "dateUploaded": "2023-12-31T23:59:59.000Z"\<newline>  }\<newline>]''\<close>

text \<open>A store written by hand, one line, holding the three records.\<close>

definition text_three :: string where
  \<open>text_three =
     ''[{"filename":"0f1e2d3c4b5a69788796a5b4.jpg","url":"/uploads/0f1e2d3c4b5a69788796a5b4.jpg","uploadedAt":"2024-01-15T12:00:00.000Z"},{"filename":"a.jpg","uploadedAt":"2024-03-05T00:00:00Z"},{"filename":"c0ffee00c0ffee00c0ffee00.png","url":"/photos/c0ffee00c0ffee00c0ffee00.png","uploadedAt":"2023-12-31T23:59:59.000Z","dateUploaded":"2023-12-31T23:59:59.000Z"}]''\<close>

text \<open>A store written by hand, one line, holding the five records.\<close>

definition text_five :: string where
  \<open>text_five =
     ''[{"filename":"0f1e2d3c4b5a69788796a5b4.jpg","url":"/uploads/0f1e2d3c4b5a69788796a5b4.jpg","uploadedAt":"2024-01-15T12:00:00.000Z"},{"filename":"a.jpg","uploadedAt":"2024-03-05T00:00:00Z"},{"filename":"c0ffee00c0ffee00c0ffee00.png","url":"/photos/c0ffee00c0ffee00c0ffee00.png","uploadedAt":"2023-12-31T23:59:59.000Z","dateUploaded":"2023-12-31T23:59:59.000Z"},{"filename":"old.gif","dateUploaded":"2024-01-01T02:00:00.000Z"},{"filename":"scan.PNG"}]''\<close>

text \<open>
  \<^verbatim>\<open>JSON.parse\<close> at the texts of the examples. The number \<^verbatim>\<open>1e999\<close> is beyond the
  doubles and is read as \<^verbatim>\<open>Infinity\<close>; \<^verbatim>\<open>-0\<close> is read as the negative zero. Every other text counts as a syntax error here,
  which is right for the one the examples use, \<^verbatim>\<open>[{"filename":\<close>.
\<close>

definition example_parse :: "string \<Rightarrow> jsval option" where
  \<open>example_parse raw =
     map_of
       [(''[]'', Arr []),
        (text_jan, Arr [photo_jan]),
        (text_dec, Arr [photo_dec]),
        (text_three, Arr [photo_jan, photo_mar, photo_dec]),
        (text_five, Arr [photo_jan, photo_mar, photo_dec, photo_legacy, photo_bare]),
        (''{"photos": []}'', Obj [(''photos'', Arr [])]),
        (''[1e999]'', Arr [Num PInf]),
        (''[-0]'', Arr [Num NegZero])]
       raw\<close>

definition example_rt :: js_runtime where
  "example_rt =
     \<lparr>JSON_parse = example_parse, Date_parse = iso_parse, LocalTZA = (\<lambda>t. 0),
      Number_toString = integer_digits\<rparr>"

definition west_rt :: js_runtime where
  "west_rt = example_rt\<lparr>LocalTZA := (\<lambda>t. - 18000000)\<rparr>"

text \<open>A store holding \<open>photo_jan\<close>, with three files in the upload directory.\<close>

definition example_fs :: fs_state where
  "example_fs =
     \<lparr>photos_json = Some (Raw text_jan), photos_json_readable = True,
      photos_json_writable = True,
      uploads_listing =
        (None, Some [''0f1e2d3c4b5a69788796a5b4.jpg'', ''notes.txt'', ''scan.PNG''])\<rparr>"

text \<open>A store that was just created by \<^verbatim>\<open>ensurePhotosJson\<close>.\<close>

definition empty_fs :: fs_state where
  "empty_fs =
     \<lparr>photos_json = Some (Raw ''[]''), photos_json_readable = True,
      photos_json_writable = True,
      uploads_listing =
        (None, Some [''0f1e2d3c4b5a69788796a5b4.jpg'', ''notes.txt'', ''scan.PNG''])\<rparr>"

definition three_fs :: fs_state where
  "three_fs = example_fs\<lparr>photos_json := Some (Raw text_three)\<rparr>"

definition five_fs :: fs_state where
  "five_fs = example_fs\<lparr>photos_json := Some (Raw text_five)\<rparr>"

text \<open>A store of seven records, as \<^verbatim>\<open>writePhotosList\<close> left it.\<close>

definition seven_fs :: fs_state where
  "seven_fs =
     example_fs\<lparr>photos_json :=
       Some (Written [photo_jan, photo_mar, photo_dec, photo_legacy, photo_bare, photo_mar,
                      photo_jan])\<rparr>"

text \<open>A store whose text holds a number too large for a double.\<close>

definition overflow_fs :: fs_state where
  "overflow_fs = example_fs\<lparr>photos_json := Some (Raw ''[1e999]'')\<rparr>"

text \<open>A store whose text holds the negative zero.\<close>

definition negative_zero_fs :: fs_state where
  "negative_zero_fs = example_fs\<lparr>photos_json := Some (Raw ''[-0]'')\<rparr>"

text \<open>A store that the process may write and may not read (mode 0200).\<close>

definition write_only_fs :: fs_state where
  "write_only_fs = example_fs\<lparr>photos_json_readable := False\<rparr>"

section \<open>Properties of the calendar\<close>

lemma int_div_bounds:
  fixes a k :: int
  assumes "0 < k"
  shows "k * (a div k) \<le> a \<and> a < k * (a div k) + k"
proof -
  have "k * (a div k) + a mod k = a" by simp
  moreover have "0 \<le> a mod k" "a mod k < k" using assms by simp_all
  ultimately show ?thesis by linarith
qed

lemma DayFromYear_bounds:
  "146097 * (y - 1970) - 506 \<le> 400 * DayFromYear y \<and>
   400 * DayFromYear y \<le> 146097 * (y - 1970) + 589"
proof -
  define a where "a = (y - 1969) div 4"
  define b where "b = (y - 1901) div 100"
  define c where "c = (y - 1601) div 400"
  have A: "4 * a \<le> y - 1969 \<and> y - 1969 < 4 * a + 4"
    unfolding a_def by (rule int_div_bounds) simp
  have B: "100 * b \<le> y - 1901 \<and> y - 1901 < 100 * b + 100"
    unfolding b_def by (rule int_div_bounds) simp
  have C: "400 * c \<le> y - 1601 \<and> y - 1601 < 400 * c + 400"
    unfolding c_def by (rule int_div_bounds) simp
  have "DayFromYear y = 365 * (y - 1970) + a - b + c"
    by (simp add: DayFromYear_def a_def b_def c_def)
  with A B C show ?thesis by (simp add: algebra_simps)
qed

text \<open>The year computed is the year ECMAScript defines: its first day is the last one not after \<open>d\<close>.\<close>

lemma YearFromDay_bounds:
  "DayFromYear (YearFromDay d) \<le> d \<and> d < DayFromYear (YearFromDay d + 1)"
proof -
  define y where "y = 1970 + (400 * d) div 146097"
  have E: "146097 * (y - 1970) \<le> 400 * d \<and> 400 * d < 146097 * (y - 1970) + 146097"
    using int_div_bounds [of 146097 "400 * d"] by (simp add: y_def)
  have Y: "YearFromDay d =
      (if d < DayFromYear y then y - 1 else if DayFromYear (y + 1) \<le> d then y + 1 else y)"
    by (simp add: YearFromDay_def y_def Let_def)
  show ?thesis
  proof (cases "d < DayFromYear y")
    case True
    moreover have "DayFromYear (y - 1) \<le> d"
      using DayFromYear_bounds [of "y - 1"] E by (simp add: algebra_simps)
    ultimately show ?thesis by (simp add: Y)
  next
    case False
    show ?thesis
    proof (cases "DayFromYear (y + 1) \<le> d")
      case True
      moreover have "d < DayFromYear (y + 1 + 1)"
        using DayFromYear_bounds [of "y + 1 + 1"] E by (simp add: algebra_simps)
      ultimately show ?thesis using False by (simp add: Y)
    next
      case late: False
      with False show ?thesis by (simp add: Y)
    qed
  qed
qed

text \<open>
  A year spans \<open>DaysInYear\<close> days, so the day within the year of any time value lies in
  its year: the last branch of \<open>MonthFromTime\<close> is December and nothing else.
\<close>

lemma div_succ:
  fixes a k :: int
  assumes "0 < k"
  shows "(a + 1) div k = a div k + (if k dvd a + 1 then 1 else 0)"
proof (cases "k dvd a + 1")
  case True
  then obtain q where q: "a + 1 = k * q" by (auto simp: dvd_def)
  have "a div k = q - 1"
  proof (rule int_div_pos_eq [where r = "k - 1"])
    show "a = k * (q - 1) + (k - 1)" using q by (simp add: algebra_simps)
    show "0 \<le> k - 1" "k - 1 < k" using assms by simp_all
  qed
  moreover have "(a + 1) div k = q" using assms q by simp
  ultimately show ?thesis using True by simp
next
  case False
  have b: "k * (a div k) \<le> a" "a < k * (a div k) + k"
    using int_div_bounds [OF assms, of a] by simp_all
  have "a + 1 \<noteq> k * (a div k) + k"
  proof
    assume "a + 1 = k * (a div k) + k"
    then have "a + 1 = k * (a div k + 1)" by (simp add: algebra_simps)
    then have "k dvd a + 1" by simp
    with False show False by simp
  qed
  with b have lo: "k * (a div k) \<le> a + 1" and hi: "a + 1 < k * (a div k) + k" by linarith+
  have "(a + 1) div k = a div k"
  proof (rule int_div_pos_eq [where r = "a + 1 - k * (a div k)"])
    show "a + 1 = k * (a div k) + (a + 1 - k * (a div k))" by simp
    show "0 \<le> a + 1 - k * (a div k)" using lo by simp
    show "a + 1 - k * (a div k) < k" using hi by simp
  qed
  with False show ?thesis by simp
qed

lemma leap_steps:
  fixes y :: int
  shows "(y - 1968) div 4 = (y - 1969) div 4 + (if 4 dvd y then 1 else 0)"
    and "(y - 1900) div 100 = (y - 1901) div 100 + (if 100 dvd y then 1 else 0)"
    and "(y - 1600) div 400 = (y - 1601) div 400 + (if 400 dvd y then 1 else 0)"
proof -
  have "4 dvd (y - 1968) + 1968 \<longleftrightarrow> 4 dvd (y - 1968)"
    by (rule dvd_add_left_iff) simp
  then have "4 dvd (y - 1969) + 1 \<longleftrightarrow> 4 dvd y" by simp
  with div_succ [of 4 "y - 1969"]
  show "(y - 1968) div 4 = (y - 1969) div 4 + (if 4 dvd y then 1 else 0)" by simp
  have "100 dvd (y - 1900) + 1900 \<longleftrightarrow> 100 dvd (y - 1900)"
    by (rule dvd_add_left_iff) simp
  then have "100 dvd (y - 1901) + 1 \<longleftrightarrow> 100 dvd y" by simp
  with div_succ [of 100 "y - 1901"]
  show "(y - 1900) div 100 = (y - 1901) div 100 + (if 100 dvd y then 1 else 0)" by simp
  have "400 dvd (y - 1600) + 1600 \<longleftrightarrow> 400 dvd (y - 1600)"
    by (rule dvd_add_left_iff) simp
  then have "400 dvd (y - 1601) + 1 \<longleftrightarrow> 400 dvd y" by simp
  with div_succ [of 400 "y - 1601"]
  show "(y - 1600) div 400 = (y - 1601) div 400 + (if 400 dvd y then 1 else 0)" by simp
qed

lemma DaysInYear_dvd:
  "DaysInYear y = 365 + (if 4 dvd y then 1 else 0) - (if 100 dvd y then 1 else 0)
      + (if 400 dvd y then 1 else 0)"
proof -
  have d1: "4 dvd y" if "100 dvd y" by (rule dvd_trans [OF _ that]) simp
  have d2: "100 dvd y" if "400 dvd y" by (rule dvd_trans [OF _ that]) simp
  have m: "y mod 4 = 0 \<longleftrightarrow> 4 dvd y" "y mod 100 = 0 \<longleftrightarrow> 100 dvd y"
    "y mod 400 = 0 \<longleftrightarrow> 400 dvd y"
    by (simp_all only: dvd_eq_mod_eq_0)
  show ?thesis
    unfolding DaysInYear_def m using d1 d2 by (cases "4 dvd y"; cases "100 dvd y"; cases "400 dvd y") simp_all
qed

lemma DayFromYear_step: "DayFromYear (y + 1) = DayFromYear y + DaysInYear y"
proof -
  define a where "a = (y - 1969) div 4"
  define b where "b = (y - 1901) div 100"
  define c where "c = (y - 1601) div 400"
  have next_year: "DayFromYear (y + 1) =
      365 * (y - 1969) + (y - 1968) div 4 - (y - 1900) div 100 + (y - 1600) div 400"
    by (simp add: DayFromYear_def)
  have this_year: "DayFromYear y = 365 * (y - 1970) + a - b + c"
    by (simp add: DayFromYear_def a_def b_def c_def)
  show ?thesis
    unfolding next_year leap_steps this_year DaysInYear_dvd
      a_def [symmetric] b_def [symmetric] c_def [symmetric]
    by (cases "4 dvd y"; cases "100 dvd y"; cases "400 dvd y") simp_all
qed

lemma DayWithinYear_range:
  "0 \<le> DayWithinYear t \<and> DayWithinYear t < DaysInYear (YearFromTime t)"
  using YearFromDay_bounds [of "Day t"] DayFromYear_step [of "YearFromDay (Day t)"]
  by (simp add: DayWithinYear_def YearFromTime_def)

lemma MonthFromTime_range: "0 \<le> MonthFromTime t \<and> MonthFromTime t \<le> 11"
  by (simp add: MonthFromTime_def Let_def)

lemma getMonth_range: "getMonth rt d = Some m \<Longrightarrow> 0 \<le> m \<and> m \<le> 11"
  using MonthFromTime_range by (auto simp: getMonth_def split: option.splits)

lemma getMonth_never_12: "\<not> strict_equal (getMonth rt d) (Some 12)"
  using getMonth_range [of rt d] by (auto simp: strict_equal_def split: option.splits)

section \<open>Properties of the helpers\<close>

lemma filterE_total:
  "(\<And>x. x \<in> set xs \<Longrightarrow> f x = Inr (g x)) \<Longrightarrow> filterE f xs = Inr (filter g xs)"
  by (induction xs) auto

lemma filterE_none:
  "(\<And>x b. x \<in> set xs \<Longrightarrow> f x = Inr b \<Longrightarrow> \<not> b) \<Longrightarrow> filterE f xs = Inr ys \<Longrightarrow> ys = []"
proof (induction xs arbitrary: ys)
  case Nil
  then show ?case by simp
next
  case (Cons x xs)
  from Cons.prems(2) obtain b zs where fx: "f x = Inr b" and rest: "filterE f xs = Inr zs"
    and ys: "ys = (if b then x # zs else zs)"
    by (auto split: sum.splits)
  have "\<not> b" using Cons.prems(1) [of x b] fx by simp
  moreover have "zs = []" using Cons.IH [OF _ rest] Cons.prems(1) by auto
  ultimately show ?case using ys by simp
qed

lemma primitive_ToString: "primitive v \<Longrightarrow> \<exists>s. ToString rt v = Inr s"
  by (cases v) (auto simp: primitive_def)

lemma primitive_new_Date: "primitive v \<Longrightarrow> \<exists>d. new_Date rt v = Inr d"
  by (cases v) (auto simp: primitive_def)

lemma record_prop:
  assumes "is_record p" and "k \<in> set [''filename'', ''url'', ''uploadedAt'', ''dateUploaded'']"
  shows "\<exists>v. get_prop p k = Inr v \<and> primitive v"
proof -
  from assms(1) obtain kvs where p: "p = Obj kvs"
    by (cases p) (auto simp: is_record_def)
  from assms have "case map_of kvs k of None \<Rightarrow> True | Some v \<Rightarrow> primitive v"
    unfolding p is_record_def by (auto simp del: map_of_eq_None_iff)
  then show ?thesis
    unfolding p by (auto simp: primitive_def split: option.splits)
qed

lemma record_timestamp:
  assumes "is_record p"
  shows "\<exists>v. effective_timestamp p = Inr v \<and> primitive v"
proof -
  obtain a where a: "get_prop p ''uploadedAt'' = Inr a" "primitive a"
    using record_prop [OF assms, of "''uploadedAt''"] by auto
  obtain b where b: "get_prop p ''dateUploaded'' = Inr b" "primitive b"
    using record_prop [OF assms, of "''dateUploaded''"] by auto
  show ?thesis
    using a b by (auto simp: effective_timestamp_def primitive_def)
qed

lemma record_photo_date:
  assumes "is_record p"
  shows "photo_date rt p = Inr (record_date rt p)"
proof -
  obtain v where v: "effective_timestamp p = Inr v" "primitive v"
    using record_timestamp [OF assms] by auto
  obtain d where "new_Date rt v = Inr d"
    using primitive_new_Date [OF v(2)] by auto
  with v show ?thesis by (simp add: photo_date_def record_date_def)
qed

lemma record_year_matches:
  "is_record p \<Longrightarrow> year_matches rt yr p = Inr (strict_equal (getFullYear rt (record_date rt p)) yr)"
  by (simp add: year_matches_def record_photo_date)

lemma record_month_matches:
  "is_record p \<Longrightarrow> month_matches rt m p = Inr (strict_equal (getMonth rt (record_date rt p)) m)"
  by (simp add: month_matches_def record_photo_date)

lemma record_photo_response:
  assumes "is_record p"
  shows "\<exists>fname url up. photo_response rt p =
           Inr (json_response 200 (Obj [(''filename'', fname), (''url'', url), (''uploadedAt'', up)]))
         \<and> get_prop p ''filename'' = Inr fname"
proof -
  obtain f where f: "get_prop p ''filename'' = Inr f" "primitive f"
    using record_prop [OF assms, of "''filename''"] by auto
  obtain u where u: "get_prop p ''url'' = Inr u"
    using record_prop [OF assms, of "''url''"] by auto
  obtain a where a: "get_prop p ''uploadedAt'' = Inr a"
    using record_prop [OF assms, of "''uploadedAt''"] by auto
  obtain b where b: "get_prop p ''dateUploaded'' = Inr b"
    using record_prop [OF assms, of "''dateUploaded''"] by auto
  obtain s where s: "ToString rt f = Inr s"
    using primitive_ToString [OF f(2)] by auto
  show ?thesis
    using f u a b s by (auto simp: photo_response_def)
qed

section \<open>Rounding to a double\<close>

lemma exponent_bounds:
  assumes "0 < x"
  shows "2 powi (binary_exponent x) \<le> x \<and> x < 2 powi (binary_exponent x + 1)"
proof (cases "1 \<le> x")
  case True
  define n where "n = nat \<lfloor>x\<rfloor>"
  define k where "k = floorlog 2 n"
  from True have fl: "1 \<le> \<lfloor>x\<rfloor>" by (simp add: le_floor_iff)
  then have n: "0 < n" by (simp add: n_def)
  have b: "2 ^ (k - 1) \<le> n \<and> n < 2 ^ k"
    using floorlog_bounds [of n 2] n by (simp add: k_def)
  have "k \<noteq> 0" using n floorlog_eq_zero_iff [of 2 n] by (simp add: k_def)
  then have k: "1 \<le> k" by simp
  have e: "binary_exponent x = int (k - 1)"
    using True k by (simp add: binary_exponent_def n_def k_def)
  have nx: "(of_nat n :: rat) = of_int \<lfloor>x\<rfloor>" using fl by (simp add: n_def)
  have lo: "(of_nat n :: rat) \<le> x" unfolding nx by simp
  have hi: "x < of_nat n + 1" unfolding nx by linarith
  from b have "(of_nat (2 ^ (k - 1)) :: rat) \<le> of_nat n" by (simp only: of_nat_le_iff)
  then have l2: "(2::rat) ^ (k - 1) \<le> of_nat n" by simp
  from b have "n + 1 \<le> 2 ^ k" by simp
  then have "(of_nat (n + 1) :: rat) \<le> of_nat (2 ^ k)" by (simp only: of_nat_le_iff)
  then have h2: "(of_nat n :: rat) + 1 \<le> 2 ^ k" by simp
  have p1: "(2::rat) powi int (k - 1) = 2 ^ (k - 1)" by simp
  have "int (k - 1) + 1 = int k" using k by simp
  then have p2: "(2::rat) powi (int (k - 1) + 1) = 2 ^ k" by simp
  from l2 lo h2 hi show ?thesis unfolding e p1 p2 by linarith
next
  case False
  with assms have x1: "x < 1" by simp
  define c where "c = \<lceil>1 / x\<rceil>"
  define m where "m = nat (c - 1)"
  define k where "k = floorlog 2 m"
  from assms x1 have inv: "1 < 1 / x" by simp
  then have c2: "2 \<le> c" unfolding c_def by (simp add: le_ceiling_iff)
  then have m: "0 < m" by (simp add: m_def)
  have b: "2 ^ (k - 1) \<le> m \<and> m < 2 ^ k"
    using floorlog_bounds [of m 2] m by (simp add: k_def)
  have "k \<noteq> 0" using m floorlog_eq_zero_iff [of 2 m] by (simp add: k_def)
  then have k: "1 \<le> k" by simp
  have e: "binary_exponent x = - int k"
    using False by (simp add: binary_exponent_def c_def m_def k_def)
  have mc: "int m = c - 1" using c2 by (simp add: m_def)
  from b have "int m < int (2 ^ k)" by (simp only: of_nat_less_iff)
  then have "c \<le> 2 ^ k" using mc by simp
  then have "(of_int c :: rat) \<le> of_int (2 ^ k)" by (simp only: of_int_le_iff)
  then have "(of_int c :: rat) \<le> 2 ^ k" by simp
  moreover have "1 / x \<le> of_int c" unfolding c_def by simp
  ultimately have u: "1 / x \<le> 2 ^ k" by linarith
  from b have "int (2 ^ (k - 1)) \<le> int m" by (simp only: of_nat_le_iff)
  then have "2 ^ (k - 1) < c" using mc by simp
  then have "of_int (2 ^ (k - 1)) < 1 / x" unfolding c_def by (simp only: less_ceiling_iff)
  then have l: "2 ^ (k - 1) < 1 / x" by simp
  have p1: "(2::rat) powi (- int k) = 1 / 2 ^ k" by (simp add: power_int_minus divide_simps)
  have "- int k + 1 = - int (k - 1)" using k by simp
  then have "(2::rat) powi (- int k + 1) = 2 powi (- int (k - 1))" by (simp only:)
  also have "\<dots> = 1 / 2 ^ (k - 1)" by (simp add: power_int_minus divide_simps)
  finally have p2: "(2::rat) powi (- int k + 1) = 1 / 2 ^ (k - 1)" .
  have pk: "(0::rat) < 2 ^ k" and pk1: "(0::rat) < 2 ^ (k - 1)" by simp_all
  from u assms pk have a1: "1 / 2 ^ k \<le> x" by (simp add: field_simps)
  from l assms pk1 have a2: "x < 1 / 2 ^ (k - 1)" by (simp add: field_simps)
  from a1 a2 show ?thesis unfolding e p1 p2 by simp
qed

lemma round_half_even_error:
  "\<bar>of_int (round_half_even y) - y\<bar> \<le> 1 / 2"
proof -
  have "of_int \<lfloor>y\<rfloor> \<le> y" and "y < of_int \<lfloor>y\<rfloor> + 1" by linarith+
  then show ?thesis by (auto simp: round_half_even_def Let_def)
qed

lemma round_half_even_int:
  "round_half_even (of_int k) = k"
  by (simp add: round_half_even_def)

lemma round_half_even_ge:
  assumes "of_int k \<le> y" shows "k \<le> round_half_even y"
proof -
  from assms have "k \<le> \<lfloor>y\<rfloor>" by (simp add: le_floor_iff)
  then show ?thesis by (auto simp: round_half_even_def Let_def)
qed

lemma round_half_even_le:
  assumes "y \<le> of_int k" shows "round_half_even y \<le> k"
proof (cases "y = of_int k")
  case True
  then show ?thesis by (simp add: round_half_even_int)
next
  case False
  with assms have "y < of_int k" by simp
  then have "\<lfloor>y\<rfloor> < k" by (simp add: floor_less_iff)
  then show ?thesis by (auto simp: round_half_even_def Let_def)
qed

lemma ulp_pos: "0 < ulp x"
  by (simp add: ulp_def)

lemma round_double_error:
  assumes "0 < x"
  shows "\<bar>round_double x - x\<bar> \<le> ulp x / 2"
proof -
  define q where "q = ulp x"
  have q: "0 < q" by (simp add: q_def ulp_pos)
  have "\<bar>of_int (round_half_even (x / q)) - x / q\<bar> \<le> 1 / 2" by (rule round_half_even_error)
  then have "\<bar>of_int (round_half_even (x / q)) - x / q\<bar> * q \<le> 1 / 2 * q"
    using q by (simp only: mult_le_cancel_right_pos)
  moreover have eq: "(of_int (round_half_even (x / q)) - x / q) * q
      = of_int (round_half_even (x / q)) * q - x"
    using q by (simp add: left_diff_distrib)
  moreover have "\<bar>of_int (round_half_even (x / q)) - x / q\<bar> * q
      = \<bar>(of_int (round_half_even (x / q)) - x / q) * q\<bar>"
    by (rule abs_mult_pos) (use q in simp)
  ultimately have "\<bar>of_int (round_half_even (x / q)) * q - x\<bar> \<le> q / 2" by simp
  with assms show ?thesis by (simp add: round_double_def q_def)
qed

lemma ulp_normal:
  assumes "0 < x" "- 1022 \<le> binary_exponent x"
  shows "ulp x \<le> x / 2 ^ 52"
proof -
  from assms have "ulp x = 2 powi (binary_exponent x - 52)" by (simp add: ulp_def max_def)
  also have "\<dots> = 2 powi binary_exponent x / 2 ^ 52" by (simp add: power_int_diff)
  also have "\<dots> \<le> x / 2 ^ 52"
    using exponent_bounds [OF assms(1)] by (simp add: divide_right_mono)
  finally show ?thesis .
qed

lemma ulp_subnormal:
  assumes "binary_exponent x < - 1022"
  shows "ulp x = 2 powi (- 1074)"
  using assms by (simp add: ulp_def max_def)

lemma round_double_nonneg:
  assumes "0 \<le> x" shows "0 \<le> round_double x"
proof (cases "x = 0")
  case True then show ?thesis by (simp add: round_double_def)
next
  case False
  with assms have x: "0 < x" by simp
  have "0 \<le> x / ulp x" using x ulp_pos [of x] by simp
  then have "of_int 0 \<le> x / ulp x" by simp
  then have "0 \<le> round_half_even (x / ulp x)" by (rule round_half_even_ge)
  with x ulp_pos [of x] show ?thesis by (simp add: round_double_def)
qed

lemma round_double_less:
  assumes x: "0 < x" and le: "x \<le> N * (1 - 1 / 2 ^ 53)" and N: "1 \<le> N"
  shows "round_double x < N"
proof (cases "- 1022 \<le> binary_exponent x")
  case True
  define c where "c = (1 :: rat) / 2 ^ 53"
  have c0: "0 < c" and c1: "c * c < 1 \<and> 0 < c * c" by (simp_all add: c_def)
  have a: "round_double x - x \<le> ulp x / 2" using round_double_error [OF x] by linarith
  have "x / 2 ^ 52 = 2 * (x * c)" by (simp add: c_def)
  with ulp_normal [OF x True] have "ulp x / 2 \<le> x * c" by linarith
  with a have "round_double x \<le> x + x * c" by linarith
  also have "\<dots> = x * (1 + c)" by (simp add: algebra_simps)
  also have "\<dots> \<le> (N * (1 - c)) * (1 + c)"
  proof (rule mult_right_mono)
    show "x \<le> N * (1 - c)" using le by (simp only: c_def)
    show "0 \<le> 1 + c" using c0 by simp
  qed
  also have "\<dots> = N - N * (c * c)" by (simp add: algebra_simps)
  also have "\<dots> < N" using N c1 by simp
  finally show ?thesis .
next
  case False
  then have e: "binary_exponent x < - 1022" by simp
  have "x < 2 powi (binary_exponent x + 1)" using exponent_bounds [OF x] by simp
  also have "\<dots> \<le> 2 powi (- 1021)" using e by (intro power_int_increasing) simp_all
  also have "\<dots> \<le> 1 / 2" by (simp add: field_simps)
  finally have x2: "x < 1 / 2" .
  have "ulp x = 2 powi (- 1074)" using e by (rule ulp_subnormal)
  also have "\<dots> \<le> 1 / 2" by (simp add: field_simps)
  finally have u: "ulp x \<le> 1 / 2" .
  have "round_double x - x \<le> ulp x / 2" using round_double_error [OF x] by linarith
  with x2 u N show ?thesis by linarith
qed

lemma unit_double_below_one:
  assumes "unit_double r"
  shows "0 \<le> r \<and> r \<le> 1 - 1 / 2 ^ 53"
proof (cases "r < 1 / 2")
  case True
  then have "r \<le> 1 - 1 / 2 ^ 53" by simp
  with assms show ?thesis by (simp add: unit_double_def)
next
  case False
  from assms have r1: "r < 1" and d: "round_double r = r" by (simp_all add: unit_double_def)
  from False have r0: "0 < r" and h: "1 / 2 \<le> r" by simp_all
  from r0 r1 h have "1 < 1 / r \<and> 1 / r \<le> 2" by (simp add: field_simps)
  then have "\<lceil>1 / r\<rceil> = 2" by (simp add: ceiling_eq_iff)
  then have "binary_exponent r = - 1" using r1 by (simp add: binary_exponent_def compute_floorlog)
  then have u: "ulp r = 1 / 2 ^ 53" by (simp add: ulp_def field_simps)
  define k where "k = round_half_even (r / ulp r)"
  from d r0 have rk: "r = of_int k / 2 ^ 53" by (simp add: round_double_def k_def u)
  with r1 have "(of_int k :: rat) < 2 ^ 53" by (simp add: field_simps)
  then have "(of_int k :: rat) < of_int (2 ^ 53)" by simp
  then have "k < 2 ^ 53" by (simp only: of_int_less_iff)
  then have "k \<le> 2 ^ 53 - 1" by simp
  then have "(of_int k :: rat) \<le> of_int (2 ^ 53 - 1)" by (simp only: of_int_le_iff)
  then have "(of_int k :: rat) \<le> 2 ^ 53 - 1" by simp
  then have "(of_int k :: rat) / 2 ^ 53 \<le> (2 ^ 53 - 1) / 2 ^ 53" by (simp add: divide_right_mono)
  with rk r0 show ?thesis by (simp add: field_simps)
qed

text \<open>
  The index is within the array, although the product is rounded: a double below 1 is at
  most \<open>1 - 1 / 2 ^ 53\<close>, and rounding moves the product by less than what that leaves.
\<close>

lemma random_index_range:
  assumes u: "unit_double r" and n: "0 < n"
  shows "0 \<le> random_index r n \<and> random_index r n < int n"
proof -
  have r0: "0 \<le> r" and r1: "r \<le> 1 - 1 / 2 ^ 53"
    using unit_double_below_one [OF u] by simp_all
  define x where "x = r * of_nat n"
  have x0: "0 \<le> x" using r0 by (simp add: x_def)
  have lo: "0 \<le> round_double x" using x0 by (rule round_double_nonneg)
  have hi: "round_double x < of_nat n"
  proof (cases "x = 0")
    case True
    with n show ?thesis by (simp add: round_double_def)
  next
    case False
    with x0 have x: "0 < x" by simp
    have "of_nat n * r \<le> of_nat n * (1 - 1 / 2 ^ 53)"
      using r1 by (rule mult_left_mono) simp
    then have "x \<le> of_nat n * (1 - 1 / 2 ^ 53)"
      by (simp only: x_def mult.commute [of r])
    moreover have "(1::rat) \<le> of_nat n" using n by simp
    ultimately show ?thesis using x by (intro round_double_less)
  qed
  from hi have "round_double x < of_int (int n)" by simp
  then have "\<lfloor>round_double x\<rfloor> < int n" by (simp only: floor_less_iff)
  moreover from lo have "0 \<le> \<lfloor>round_double x\<rfloor>" by simp
  ultimately show ?thesis by (simp add: random_index_def x_def)
qed

text \<open>
  Equal shares, up to the rounding: the index chosen is that of the interval
  \<open>[i / n, (i + 1) / n)\<close> in which \<open>r\<close> lies, or, at the very end of the interval, the next.
\<close>

lemma random_index_share:
  assumes r: "0 \<le> r" and b: "r * of_nat n < 2 ^ 53"
  shows "\<lfloor>r * of_nat n\<rfloor> \<le> random_index r n \<and> random_index r n \<le> \<lfloor>r * of_nat n\<rfloor> + 1"
proof (cases "r * of_nat n = 0")
  case True
  have "random_index r n = 0" unfolding random_index_def True by (simp add: round_double_def)
  then show ?thesis unfolding True by simp
next
  case False
  define x where "x = r * of_nat n"
  define i where "i = \<lfloor>x\<rfloor>"
  from r have "0 \<le> x" by (simp add: x_def)
  moreover from False have "x \<noteq> 0" by (simp only: x_def) simp
  ultimately have x: "0 < x" by linarith
  define d where "d = 52 - max (binary_exponent x) (- 1022)"
  have e: "binary_exponent x \<le> 52"
  proof (rule ccontr)
    assume "\<not> binary_exponent x \<le> 52"
    then have "(2::rat) powi 53 \<le> 2 powi binary_exponent x"
      by (intro power_int_increasing) simp_all
    with exponent_bounds [OF x] b show False by (simp add: x_def)
  qed
  then have d0: "0 \<le> d" by (simp add: d_def)
  have "ulp x = 2 powi (- d)" by (simp add: ulp_def d_def)
  also have "\<dots> = 1 / 2 ^ nat d" using d0 by (simp add: power_int_def divide_simps)
  finally have u: "ulp x = 1 / 2 ^ nat d" .
  have scale: "y / ulp x = y * 2 ^ nat d" for y by (simp add: u)
  have unscale: "of_int (j * 2 ^ nat d) * ulp x = of_int j" for j by (simp add: u)
  have "of_int i \<le> x" by (simp add: i_def)
  then have "of_int i * 2 ^ nat d \<le> x * 2 ^ nat d" by (simp add: mult_right_mono)
  then have "of_int (i * 2 ^ nat d) \<le> x / ulp x" by (simp add: scale)
  then have "i * 2 ^ nat d \<le> round_half_even (x / ulp x)" by (rule round_half_even_ge)
  then have "(of_int (i * 2 ^ nat d) :: rat) \<le> of_int (round_half_even (x / ulp x))"
    by (simp only: of_int_le_iff)
  then have "of_int (i * 2 ^ nat d) * ulp x \<le> of_int (round_half_even (x / ulp x)) * ulp x"
    using ulp_pos [of x] by (simp only: mult_le_cancel_right_pos)
  then have lo: "of_int i \<le> round_double x"
    unfolding unscale using x by (simp add: round_double_def)
  have "x \<le> of_int (i + 1)" unfolding i_def by linarith
  then have "x * 2 ^ nat d \<le> of_int (i + 1) * 2 ^ nat d" by (simp add: mult_right_mono)
  then have "x / ulp x \<le> of_int ((i + 1) * 2 ^ nat d)" by (simp add: scale)
  then have "round_half_even (x / ulp x) \<le> (i + 1) * 2 ^ nat d" by (rule round_half_even_le)
  then have "(of_int (round_half_even (x / ulp x)) :: rat) \<le> of_int ((i + 1) * 2 ^ nat d)"
    by (simp only: of_int_le_iff)
  then have "of_int (round_half_even (x / ulp x)) * ulp x \<le> of_int ((i + 1) * 2 ^ nat d) * ulp x"
    using ulp_pos [of x] by (simp only: mult_le_cancel_right_pos)
  then have hi: "round_double x \<le> of_int (i + 1)"
    unfolding unscale using x by (simp add: round_double_def)
  from lo have "i \<le> \<lfloor>round_double x\<rfloor>" by (simp only: le_floor_iff)
  moreover from hi have "\<lfloor>round_double x\<rfloor> \<le> i + 1" by (simp add: floor_le_iff)
  ultimately show ?thesis by (simp add: random_index_def x_def i_def)
qed

lemma js_nth_random:
  assumes "unit_double r" and "xs \<noteq> []"
  shows "js_nth xs (random_index r (length xs)) = xs ! nat (random_index r (length xs))
         \<and> nat (random_index r (length xs)) < length xs"
  using random_index_range [OF assms(1), of "length xs"] assms(2)
  by (auto simp: js_nth_def)

section \<open>What is read back from a written text\<close>

lemma reparsed_elements_map: "reparsed_elements xs = map reparsed xs"
  by (induction xs) simp_all

lemma stable_elements_all: "stable_elements xs = list_all stable_json xs"
  by (induction xs) simp_all

lemma stable_reparsed:
  shows "stable_json v \<Longrightarrow> reparsed v = v"
    and "stable_elements xs \<Longrightarrow> reparsed_elements xs = xs"
    and "stable_properties kvs \<Longrightarrow> reparsed_properties kvs = kvs"
proof (induction v and xs and kvs rule: stable_json_stable_elements_stable_properties.induct)
  case (4 n)
  then show ?case by (cases n) simp_all
next
  case (11 k v kvs)
  then show ?case by (cases v) auto
qed simp_all

lemma reparsed_stable:
  shows "stable_json (reparsed v)"
    and "stable_elements (reparsed_elements xs)"
    and "stable_properties (reparsed_properties kvs)"
  by (induction v and xs and kvs rule: reparsed_reparsed_elements_reparsed_properties.induct)
    simp_all

section \<open>The code and the specification's effective timestamp\<close>

lemma object_timestamp:
  "effective_timestamp (Obj kvs) = Inr (spec_effective_timestamp (Obj kvs))"
  by (simp add: effective_timestamp_def spec_effective_timestamp_def spec_given_def
      split: option.splits)

lemma record_local_time:
  assumes "is_record p"
  shows "map_option (\<lambda>t. t + LocalTZA rt t) (record_date rt p) = spec_local_time rt p"
proof -
  from assms obtain kvs where p: "p = Obj kvs"
    by (cases p) (auto simp: is_record_def)
  from record_photo_date [OF assms, of rt]
  have "new_Date rt (spec_effective_timestamp p) = Inr (record_date rt p)"
    unfolding p photo_date_def object_timestamp by simp
  then show ?thesis
    by (cases "record_date rt p") (simp_all add: spec_local_time_def)
qed

lemma record_local_month:
  "is_record p \<Longrightarrow> getMonth rt (record_date rt p) = map_option MonthFromTime (spec_local_time rt p)"
  using record_local_time [of p rt, symmetric]
  by (cases "record_date rt p") (auto simp: getMonth_def LocalTime_def)

lemma record_local_year:
  "is_record p \<Longrightarrow> getFullYear rt (record_date rt p) = map_option YearFromTime (spec_local_time rt p)"
  using record_local_time [of p rt, symmetric]
  by (cases "record_date rt p") (auto simp: getFullYear_def LocalTime_def)

section \<open>The examples, evaluated\<close>

lemmas example_texts = text_jan_def text_dec_def text_three_def text_five_def

lemma readPhotosList_example: "readPhotosList example_rt example_fs = [photo_jan]"
  by (simp add: readPhotosList_def readPhotosList_try_def readFileSync_def JSON_parse_text_def
      example_fs_def example_rt_def example_parse_def example_texts)

lemma readPhotosList_three: "readPhotosList example_rt three_fs = [photo_jan, photo_mar, photo_dec]"
  by (simp add: readPhotosList_def readPhotosList_try_def readFileSync_def JSON_parse_text_def
      three_fs_def example_fs_def example_rt_def example_parse_def example_texts)

lemma readPhotosList_five:
  "readPhotosList west_rt five_fs = [photo_jan, photo_mar, photo_dec, photo_legacy, photo_bare]"
  by (simp add: readPhotosList_def readPhotosList_try_def readFileSync_def JSON_parse_text_def
      five_fs_def example_fs_def west_rt_def example_rt_def example_parse_def example_texts)

lemma readPhotosList_seven:
  "readPhotosList example_rt seven_fs =
     [photo_jan, photo_mar, photo_dec, photo_legacy, photo_bare, photo_mar, photo_jan]"
  by (simp add: readPhotosList_def readPhotosList_try_def readFileSync_def JSON_parse_text_def
      seven_fs_def example_fs_def photo_jan_def photo_mar_def photo_dec_def photo_legacy_def
      photo_bare_def)

lemma readPhotosList_overflow: "readPhotosList example_rt overflow_fs = [Num PInf]"
  by (simp add: readPhotosList_def readPhotosList_try_def readFileSync_def JSON_parse_text_def
      overflow_fs_def example_fs_def example_rt_def example_parse_def example_texts)

lemma readPhotosList_negative_zero: "readPhotosList example_rt negative_zero_fs = [Num NegZero]"
  by (simp add: readPhotosList_def readPhotosList_try_def readFileSync_def JSON_parse_text_def
      negative_zero_fs_def example_fs_def example_rt_def example_parse_def example_texts)

lemma readPhotosList_write_only: "readPhotosList example_rt write_only_fs = []"
  by (simp add: readPhotosList_def readPhotosList_try_def readFileSync_def write_only_fs_def
      example_fs_def)

lemma readPhotosList_empty: "readPhotosList example_rt empty_fs = []"
  by (simp add: readPhotosList_def readPhotosList_try_def readFileSync_def JSON_parse_text_def
      empty_fs_def example_rt_def example_parse_def example_texts)

lemma toISOString_jan: "toISOString 1705320000000 = ''2024-01-15T12:00:00.000Z''"
  by code_simp

lemma toISOString_dec: "toISOString 1704067199000 = ''2023-12-31T23:59:59.000Z''"
  by code_simp

lemma admin_item_jan: "admin_item ''0f1e2d3c4b5a69788796a5b4.jpg'' 1705320000000 = photo_jan"
  by (simp add: admin_item_def photo_jan_def toISOString_jan)

lemma open_item_dec: "open_item ''c0ffee00c0ffee00c0ffee00.png'' 1704067199000 = photo_dec"
  by (simp add: open_item_def photo_dec_def toISOString_dec Let_def)

lemma example_records: "is_record photo_jan" "is_record photo_mar" "is_record photo_dec"
  by (simp_all add: is_record_def primitive_def photo_jan_def photo_mar_def photo_dec_def)

lemma more_records: "is_record photo_legacy" "is_record photo_bare"
  by (simp_all add: is_record_def primitive_def photo_legacy_def photo_bare_def)

lemma example_stable:
  "stable_json photo_jan" "stable_json photo_mar" "stable_json photo_dec"
  by (simp_all add: photo_jan_def photo_mar_def photo_dec_def)

lemma date_jan: "record_date example_rt photo_jan = Some 1705320000000"
  by code_simp

lemma date_mar: "record_date example_rt photo_mar = Some 1709596800000"
  by code_simp

lemma date_dec: "record_date example_rt photo_dec = Some 1704067199000"
  by code_simp

lemma year_month_jan:
  "getFullYear example_rt (Some 1705320000000) = Some 2024"
  "getMonth example_rt (Some 1705320000000) = Some 0"
  by code_simp+

lemma year_month_mar:
  "getFullYear example_rt (Some 1709596800000) = Some 2024"
  "getMonth example_rt (Some 1709596800000) = Some 2"
  by code_simp+

lemma year_month_dec:
  "getFullYear example_rt (Some 1704067199000) = Some 2023"
  "getMonth example_rt (Some 1704067199000) = Some 11"
  by code_simp+

lemma example_numbers:
  "parseInt10 ''0'' = Some 0" "parseInt10 ''2'' = Some 2" "parseInt10 ''11'' = Some 11"
  "parseInt10 ''12'' = Some 12" "parseInt10 ''13'' = Some 13"
  "parseInt10 ''2022'' = Some 2022" "parseInt10 ''2024'' = Some 2024"
  "parseInt10 ''2023'' = Some 2023" "parseInt10 ''1969'' = Some 1969"
  by (simp_all add: parseInt10_def is_digit_def digits_val_def digit_val_def)

lemma example_parsed:
  "JSON_parse example_rt ''[]'' = Some (Arr [])"
  "JSON_parse example_rt text_jan = Some (Arr [photo_jan])"
  "JSON_parse example_rt text_dec = Some (Arr [photo_dec])"
  by (simp_all add: example_rt_def example_parse_def example_texts)

text \<open>
  Five hours behind UTC: the record with \<^verbatim>\<open>dateUploaded\<close> only falls into December 2023,
  the record with no timestamp into December 1969.
\<close>

lemma west_jan:
  "map_option YearFromTime (spec_local_time west_rt photo_jan) = Some 2024"
  "map_option MonthFromTime (spec_local_time west_rt photo_jan) = Some 0"
  by code_simp+

lemma west_mar:
  "map_option YearFromTime (spec_local_time west_rt photo_mar) = Some 2024"
  "map_option MonthFromTime (spec_local_time west_rt photo_mar) = Some 2"
  by code_simp+

lemma west_dec:
  "map_option YearFromTime (spec_local_time west_rt photo_dec) = Some 2023"
  "map_option MonthFromTime (spec_local_time west_rt photo_dec) = Some 11"
  by code_simp+

lemma west_legacy:
  "map_option YearFromTime (spec_local_time west_rt photo_legacy) = Some 2023"
  "map_option MonthFromTime (spec_local_time west_rt photo_legacy) = Some 11"
  by code_simp+

lemma west_bare:
  "map_option YearFromTime (spec_local_time west_rt photo_bare) = Some 1969"
  "map_option MonthFromTime (spec_local_time west_rt photo_bare) = Some 11"
  by code_simp+

lemmas west_years = west_jan(1) west_mar(1) west_dec(1) west_legacy(1) west_bare(1)

lemmas west_months = west_jan(2) west_mar(2) west_dec(2) west_legacy(2) west_bare(2)

text \<open>
  In UTC the record with \<^verbatim>\<open>dateUploaded\<close> only falls into January 2024, the record with
  no timestamp into January 1970.
\<close>

lemma utc_months:
  "map_option MonthFromTime (spec_local_time example_rt photo_jan) = Some 0"
  "map_option MonthFromTime (spec_local_time example_rt photo_mar) = Some 2"
  "map_option MonthFromTime (spec_local_time example_rt photo_dec) = Some 11"
  "map_option MonthFromTime (spec_local_time example_rt photo_legacy) = Some 0"
  "map_option MonthFromTime (spec_local_time example_rt photo_bare) = Some 0"
  by code_simp+

lemma photo_response_legacy:
  "photo_response west_rt photo_legacy =
     Inr (json_response 200
            (Obj [(''filename'', Str ''old.gif''), (''url'', Str ''/photos/old.gif''),
                  (''uploadedAt'', Str ''2024-01-01T02:00:00.000Z'')]))"
  by (simp add: photo_response_def photo_legacy_def)

lemma photo_response_mar_west:
  "photo_response west_rt photo_mar =
     Inr (json_response 200
            (Obj [(''filename'', Str ''a.jpg''), (''url'', Str ''/photos/a.jpg''),
                  (''uploadedAt'', Str ''2024-03-05T00:00:00Z'')]))"
  by (simp add: photo_response_def photo_mar_def)

lemma photo_response_bare_west:
  "photo_response west_rt photo_bare =
     Inr (json_response 200
            (Obj [(''filename'', Str ''scan.PNG''), (''url'', Str ''/photos/scan.PNG''),
                  (''uploadedAt'', Undefined)]))"
  by (simp add: photo_response_def photo_bare_def)

text \<open>
  Rounding at work: a tie goes to the even significand, down or up; one tenth is no
  double, and the nearest one is \<open>3602879701896397 / 2 ^ 55\<close>.
\<close>

lemma round_double_examples:
  "round_double (1 + 1 / 2 ^ 53) = 1"
  "round_double (1 + 3 / 2 ^ 53) = 1 + 1 / 2 ^ 51"
  "round_double (4 - 1 / 2 ^ 52) = 4"
  "round_double (1 / 10) = 3602879701896397 / 36028797018963968"
  "round_double (- (1 / 10)) = - (3602879701896397 / 36028797018963968)"
  by code_simp+

lemma example_doubles:
  "unit_double (1 / 2)" "unit_double (3 / 4)"
  "unit_double (2573485501354569 / 4503599627370496)"
  by code_simp+

lemma example_indices:
  "random_index (1 / 2) 3 = 1" "random_index (3 / 4) 2 = 1"
  "random_index (2573485501354569 / 4503599627370496) 7 = 4"
  "\<lfloor>(2573485501354569 / 4503599627370496 :: rat) * 7\<rfloor> = 3"
  "random_index (3 / 4) 1 = 0" "random_index (1 / 2) 1 = 0"
  by code_simp+

lemma photo_response_bare:
  "photo_response example_rt photo_bare =
     Inr (json_response 200
            (Obj [(''filename'', Str ''scan.PNG''), (''url'', Str ''/photos/scan.PNG''),
                  (''uploadedAt'', Undefined)]))"
  by (simp add: photo_response_def photo_bare_def)

lemma photo_response_mar:
  "photo_response example_rt photo_mar =
     Inr (json_response 200
            (Obj [(''filename'', Str ''a.jpg''), (''url'', Str ''/photos/a.jpg''),
                  (''uploadedAt'', Str ''2024-03-05T00:00:00Z'')]))"
  by (simp add: photo_response_def photo_mar_def)

section \<open>The record store: reading\<close>

text \<open>
  C7. \<^verbatim>\<open>readPhotosList\<close> returns the empty list when \<^verbatim>\<open>photos.json\<close> is missing, when it
  cannot be read, when its text is not JSON, and when its text is JSON but not an array.
  Whatever the \<^verbatim>\<open>try\<close> block throws, the function returns a list: for every state of
  the file system its result is the list the block produced, or the empty list.
\<close>

theorem readPhotosList_tolerant:
  "(photos_json fs = None \<longrightarrow> readPhotosList rt fs = []) \<and>
   (\<not> photos_json_readable fs \<longrightarrow> readPhotosList rt fs = []) \<and>
   (\<forall>raw. photos_json fs = Some raw \<and> JSON_parse_text rt raw = None \<longrightarrow> readPhotosList rt fs = []) \<and>
   (\<forall>raw v. photos_json fs = Some raw \<and> JSON_parse_text rt raw = Some v \<and> (\<forall>xs. v \<noteq> Arr xs)
      \<longrightarrow> readPhotosList rt fs = []) \<and>
   (\<forall>e. readPhotosList_try rt fs = Inl e \<longrightarrow> readPhotosList rt fs = []) \<and>
   (\<forall>xs. readPhotosList_try rt fs = Inr xs \<longrightarrow> readPhotosList rt fs = xs)"
proof (intro conjI allI impI)
  assume "photos_json fs = None"
  then show "readPhotosList rt fs = []"
    by (simp add: readPhotosList_def readPhotosList_try_def readFileSync_def)
next
  assume "\<not> photos_json_readable fs"
  then show "readPhotosList rt fs = []"
    by (simp add: readPhotosList_def readPhotosList_try_def readFileSync_def
        split: option.splits)
next
  fix raw
  assume "photos_json fs = Some raw \<and> JSON_parse_text rt raw = None"
  then show "readPhotosList rt fs = []"
    by (simp add: readPhotosList_def readPhotosList_try_def readFileSync_def)
next
  fix raw v
  assume "photos_json fs = Some raw \<and> JSON_parse_text rt raw = Some v \<and> (\<forall>xs. v \<noteq> Arr xs)"
  then show "readPhotosList rt fs = []"
    by (cases v) (simp_all add: readPhotosList_def readPhotosList_try_def readFileSync_def)
next
  fix e
  assume "readPhotosList_try rt fs = Inl e"
  then show "readPhotosList rt fs = []"
    by (simp add: readPhotosList_def)
next
  fix xs
  assume "readPhotosList_try rt fs = Inr xs"
  then show "readPhotosList rt fs = xs"
    by (simp add: readPhotosList_def)
qed

text \<open>
  The four cases at work: no file, a file that may not be read (though its text is that
  of one record), a text cut off in the middle, and an object instead of an array.
\<close>

theorem readPhotosList_tolerant_witness:
  \<open>readPhotosList example_rt (example_fs\<lparr>photos_json := None\<rparr>) = [] \<and>
   photos_json write_only_fs = Some (Raw text_jan) \<and>
   readPhotosList example_rt write_only_fs = [] \<and>
   JSON_parse_text example_rt (Raw ''[{"filename":'') = None \<and>
   readPhotosList example_rt (example_fs\<lparr>photos_json := Some (Raw ''[{"filename":'')\<rparr>) = [] \<and>
   JSON_parse_text example_rt (Raw ''{"photos": []}'') = Some (Obj [(''photos'', Arr [])]) \<and>
   readPhotosList example_rt (example_fs\<lparr>photos_json := Some (Raw ''{"photos": []}'')\<rparr>) = []\<close>
proof -
  have p1: \<open>JSON_parse_text example_rt (Raw ''[{"filename":'') = None\<close>
    by (simp add: JSON_parse_text_def example_rt_def example_parse_def example_texts)
  have p2: \<open>JSON_parse_text example_rt (Raw ''{"photos": []}'') = Some (Obj [(''photos'', Arr [])])\<close>
    by (simp add: JSON_parse_text_def example_rt_def example_parse_def example_texts)
  have wo: "photos_json write_only_fs = Some (Raw text_jan)" "\<not> photos_json_readable write_only_fs"
    by (simp_all add: write_only_fs_def example_fs_def)
  show ?thesis
    using readPhotosList_tolerant [of "example_fs\<lparr>photos_json := None\<rparr>" example_rt]
      readPhotosList_tolerant [of write_only_fs example_rt]
      readPhotosList_tolerant [of \<open>example_fs\<lparr>photos_json := Some (Raw ''[{"filename":'')\<rparr>\<close> example_rt]
      readPhotosList_tolerant [of \<open>example_fs\<lparr>photos_json := Some (Raw ''{"photos": []}'')\<rparr>\<close> example_rt]
      p1 p2 wo
    by simp
qed

section \<open>The access guard\<close>

text \<open>
  C5. With no admin secret configured (\<^verbatim>\<open>ADMIN_TOKEN\<close> unset or empty), \<^verbatim>\<open>requireAdmin\<close>
  answers 500 "Server missing ADMIN_TOKEN", whatever the header: it neither lets the
  request through nor answers 401. With a secret configured, the token is what follows
  \<^verbatim>\<open>'Bearer '\<close> when the Authorization header starts with it, and the header itself
  otherwise (the empty string when the header is absent); the request goes on exactly
  when the token is the secret, and is answered 401 "Unauthorized" when it is not.
\<close>

theorem requireAdmin_correct:
  "(ADMIN_TOKEN env_var = None \<longrightarrow>
      requireAdmin (ADMIN_TOKEN env_var) authorization
        = Some (json_response 500 (error_body ''Server missing ADMIN_TOKEN''))) \<and>
   (\<forall>secret. ADMIN_TOKEN env_var = Some secret \<longrightarrow>
      (let header = (case authorization of None \<Rightarrow> [] | Some h \<Rightarrow> h);
           token = (if take 7 header = ''Bearer '' then drop 7 header else header)
       in (requireAdmin (ADMIN_TOKEN env_var) authorization = None \<longleftrightarrow> token = secret) \<and>
          (token \<noteq> secret \<longrightarrow>
             requireAdmin (ADMIN_TOKEN env_var) authorization
               = Some (json_response 401 (error_body ''Unauthorized'')))))"
proof (intro conjI allI impI)
  assume "ADMIN_TOKEN env_var = None"
  then show "requireAdmin (ADMIN_TOKEN env_var) authorization
      = Some (json_response 500 (error_body ''Server missing ADMIN_TOKEN''))"
    by (simp add: requireAdmin_def)
next
  fix secret
  assume s: "ADMIN_TOKEN env_var = Some secret"
  then have "secret \<noteq> []"
    by (auto simp: ADMIN_TOKEN_def split: option.splits if_splits)
  with s show "let header = (case authorization of None \<Rightarrow> [] | Some h \<Rightarrow> h);
           token = (if take 7 header = ''Bearer '' then drop 7 header else header)
       in (requireAdmin (ADMIN_TOKEN env_var) authorization = None \<longleftrightarrow> token = secret) \<and>
          (token \<noteq> secret \<longrightarrow>
             requireAdmin (ADMIN_TOKEN env_var) authorization
               = Some (json_response 401 (error_body ''Unauthorized'')))"
    by (simp add: requireAdmin_def Let_def)
qed

text \<open>
  No secret: 500. The secret \<^verbatim>\<open>s3cret\<close>: the bearer form and the bare form pass, a
  missing header and a wrong token are answered 401.
\<close>

theorem requireAdmin_correct_witness:
  "ADMIN_TOKEN None = None \<and>
   requireAdmin (ADMIN_TOKEN None) (Some ''Bearer s3cret'')
     = Some (json_response 500 (error_body ''Server missing ADMIN_TOKEN'')) \<and>
   ADMIN_TOKEN (Some ''s3cret'') = Some ''s3cret'' \<and>
   requireAdmin (ADMIN_TOKEN (Some ''s3cret'')) (Some ''Bearer s3cret'') = None \<and>
   requireAdmin (ADMIN_TOKEN (Some ''s3cret'')) (Some ''s3cret'') = None \<and>
   requireAdmin (ADMIN_TOKEN (Some ''s3cret'')) None
     = Some (json_response 401 (error_body ''Unauthorized'')) \<and>
   requireAdmin (ADMIN_TOKEN (Some ''s3cret'')) (Some ''Bearer s3cre'')
     = Some (json_response 401 (error_body ''Unauthorized''))"
proof -
  have a: "ADMIN_TOKEN None = None" "ADMIN_TOKEN (Some ''s3cret'') = Some ''s3cret''"
    by (simp_all add: ADMIN_TOKEN_def)
  show ?thesis
    using requireAdmin_correct [of None "Some ''Bearer s3cret''"]
      requireAdmin_correct [of "Some ''s3cret''" "Some ''Bearer s3cret''"]
      requireAdmin_correct [of "Some ''s3cret''" "Some ''s3cret''"]
      requireAdmin_correct [of "Some ''s3cret''" None]
      requireAdmin_correct [of "Some ''s3cret''" "Some ''Bearer s3cre''"]
    by (simp add: a Let_def)
qed

section \<open>The unfiltered random selection\<close>

text \<open>
  C8. \<^verbatim>\<open>GET /api/photos/random\<close>: when the stored list is not empty, the index
  \<^verbatim>\<open>Math.floor(Math.random() * list.length)\<close> lies within the list and the response is 200
  with the element at that index, an element of the list itself; when the list is empty
  the response is 404 with \<^verbatim>\<open>{error: "No photos"}\<close>. The selection of \<^verbatim>\<open>/random-photo\<close>
  without filters chooses the element at the same index and answers with the response
  built from it. The value \<open>r\<close> of \<^verbatim>\<open>Math.random()\<close> is any double with \<open>0 \<le> r < 1\<close>, and
  the index is the floor of the product as the machine computes it, rounded to a double.
\<close>

theorem get_api_photos_random_correct:
  assumes "unit_double r"
  shows "(readPhotosList rt fs \<noteq> [] \<longrightarrow>
            (\<exists>i < length (readPhotosList rt fs).
                int i = \<lfloor>round_double (r * of_nat (length (readPhotosList rt fs)))\<rfloor> \<and>
                get_api_photos_random rt fs r = json_response 200 (readPhotosList rt fs ! i) \<and>
                readPhotosList rt fs ! i \<in> set (readPhotosList rt fs) \<and>
                get_random_photo rt fs Undefined Undefined r
                  = photo_response rt (readPhotosList rt fs ! i))) \<and>
         (readPhotosList rt fs = [] \<longrightarrow>
            get_api_photos_random rt fs r = json_response 404 (error_body ''No photos''))"
proof (intro conjI impI)
  assume ne: "readPhotosList rt fs \<noteq> []"
  let ?xs = "readPhotosList rt fs"
  let ?i = "nat (random_index r (length ?xs))"
  have rng: "0 \<le> random_index r (length ?xs) \<and> random_index r (length ?xs) < int (length ?xs)"
    using random_index_range [OF assms, of "length ?xs"] ne by simp
  have pick: "js_nth ?xs (random_index r (length ?xs)) = ?xs ! ?i" and lt: "?i < length ?xs"
    using js_nth_random [OF assms ne] by simp_all
  have "int ?i = \<lfloor>round_double (r * of_nat (length ?xs))\<rfloor>"
    using rng by (simp add: random_index_def)
  moreover have "get_api_photos_random rt fs r = json_response 200 (?xs ! ?i)"
    using ne pick by (simp add: get_api_photos_random_def Let_def)
  moreover have "?xs ! ?i \<in> set ?xs" using lt by simp
  moreover have "filter_photos rt Undefined Undefined ?xs = Inr ?xs"
    by (simp add: filter_photos_def year_filter_def month_filter_def)
  then have "get_random_photo rt fs Undefined Undefined r = photo_response rt (?xs ! ?i)"
    using ne pick by (simp add: get_random_photo_def Let_def)
  ultimately show "\<exists>i < length ?xs. int i = \<lfloor>round_double (r * of_nat (length ?xs))\<rfloor> \<and>
      get_api_photos_random rt fs r = json_response 200 (?xs ! i) \<and> ?xs ! i \<in> set ?xs \<and>
      get_random_photo rt fs Undefined Undefined r = photo_response rt (?xs ! i)"
    using lt by blast
next
  assume "readPhotosList rt fs = []"
  then show "get_api_photos_random rt fs r = json_response 404 (error_body ''No photos'')"
    by (simp add: get_api_photos_random_def)
qed

text \<open>
  A store of three records with \<open>r = 1/2\<close>: the index is 1 and the second record is
  returned. A store of seven records with \<open>r = 2573485501354569 / 2 ^ 52\<close>: the exact
  product is \<open>4 - 1 / 2 ^ 52\<close>, half-way between two doubles, and is rounded to 4; the
  fifth record is returned, not the fourth. With no store file the answer is 404.
\<close>

theorem get_api_photos_random_correct_witness:
  "unit_double (1 / 2) \<and>
   readPhotosList example_rt three_fs = [photo_jan, photo_mar, photo_dec] \<and>
   get_api_photos_random example_rt three_fs (1 / 2) = json_response 200 photo_mar \<and>
   get_random_photo example_rt three_fs Undefined Undefined (1 / 2)
     = Inr (json_response 200
              (Obj [(''filename'', Str ''a.jpg''), (''url'', Str ''/photos/a.jpg''),
                    (''uploadedAt'', Str ''2024-03-05T00:00:00Z'')])) \<and>
   unit_double (2573485501354569 / 4503599627370496) \<and>
   readPhotosList example_rt seven_fs
     = [photo_jan, photo_mar, photo_dec, photo_legacy, photo_bare, photo_mar, photo_jan] \<and>
   \<lfloor>(2573485501354569 / 4503599627370496 :: rat) * 7\<rfloor> = 3 \<and>
   get_api_photos_random example_rt seven_fs (2573485501354569 / 4503599627370496)
     = json_response 200 photo_bare \<and>
   get_random_photo example_rt seven_fs Undefined Undefined (2573485501354569 / 4503599627370496)
     = Inr (json_response 200
              (Obj [(''filename'', Str ''scan.PNG''), (''url'', Str ''/photos/scan.PNG''),
                    (''uploadedAt'', Undefined)])) \<and>
   readPhotosList example_rt (example_fs\<lparr>photos_json := None\<rparr>) = [] \<and>
   get_api_photos_random example_rt (example_fs\<lparr>photos_json := None\<rparr>) (1 / 2)
     = json_response 404 (error_body ''No photos'')"
proof -
  let ?r = "2573485501354569 / 4503599627370496 :: rat"
  let ?seven = "[photo_jan, photo_mar, photo_dec, photo_legacy, photo_bare, photo_mar, photo_jan]"
  have l3: "readPhotosList example_rt three_fs = [photo_jan, photo_mar, photo_dec]"
    by (simp add: readPhotosList_three)
  have l7: "readPhotosList example_rt seven_fs = ?seven"
    by (simp add: readPhotosList_seven)
  have l0: "readPhotosList example_rt (example_fs\<lparr>photos_json := None\<rparr>) = []"
    by (simp add: readPhotosList_def readPhotosList_try_def readFileSync_def)
  have ix3: "\<lfloor>round_double (1 / 2 * of_nat (length [photo_jan, photo_mar, photo_dec]))\<rfloor> = 1"
    using example_indices(1) by (simp add: random_index_def)
  have ix7: "\<lfloor>round_double (?r * of_nat (length ?seven))\<rfloor> = 4"
    using example_indices(3) by (simp add: random_index_def)
  \<comment> \<open>three records\<close>
  from get_api_photos_random_correct [OF example_doubles(1), of example_rt three_fs]
  obtain i where i: "int i = \<lfloor>round_double (1 / 2 * of_nat (length [photo_jan, photo_mar, photo_dec]))\<rfloor>"
    and picked: "get_api_photos_random example_rt three_fs (1 / 2)
                  = json_response 200 ([photo_jan, photo_mar, photo_dec] ! i)"
    and picked': "get_random_photo example_rt three_fs Undefined Undefined (1 / 2)
                  = photo_response example_rt ([photo_jan, photo_mar, photo_dec] ! i)"
    unfolding l3 by auto
  from i ix3 have "i = 1" by simp
  with picked picked'
  have second: "get_api_photos_random example_rt three_fs (1 / 2) = json_response 200 photo_mar"
    and second': "get_random_photo example_rt three_fs Undefined Undefined (1 / 2)
       = Inr (json_response 200
                (Obj [(''filename'', Str ''a.jpg''), (''url'', Str ''/photos/a.jpg''),
                      (''uploadedAt'', Str ''2024-03-05T00:00:00Z'')]))"
    by (simp_all add: photo_response_mar)
  \<comment> \<open>seven records\<close>
  from get_api_photos_random_correct [OF example_doubles(3), of example_rt seven_fs]
  obtain j where j: "int j = \<lfloor>round_double (?r * of_nat (length ?seven))\<rfloor>"
    and chosen: "get_api_photos_random example_rt seven_fs ?r = json_response 200 (?seven ! j)"
    and chosen': "get_random_photo example_rt seven_fs Undefined Undefined ?r
                  = photo_response example_rt (?seven ! j)"
    unfolding l7 by auto
  from j ix7 have "j = 4" by simp
  with chosen chosen'
  have fifth: "get_api_photos_random example_rt seven_fs ?r = json_response 200 photo_bare"
    and fifth': "get_random_photo example_rt seven_fs Undefined Undefined ?r
       = Inr (json_response 200
                (Obj [(''filename'', Str ''scan.PNG''), (''url'', Str ''/photos/scan.PNG''),
                      (''uploadedAt'', Undefined)]))"
    by (simp_all add: photo_response_bare)
  have none: "get_api_photos_random example_rt (example_fs\<lparr>photos_json := None\<rparr>) (1 / 2)
      = json_response 404 (error_body ''No photos'')"
    using get_api_photos_random_correct
      [OF example_doubles(1), of example_rt "example_fs\<lparr>photos_json := None\<rparr>"] l0
    by simp
  show ?thesis
    by (intro conjI example_doubles(1) l3 second second' example_doubles(3) l7
        example_indices(4) fifth fifth' l0 none)
qed

section \<open>Uploads\<close>

lemma requireAdmin_rejections:
  "requireAdmin admin_token authorization = Some rejected \<Longrightarrow>
     rejected = json_response 500 (error_body ''Server missing ADMIN_TOKEN'') \<or>
     rejected = json_response 401 (error_body ''Unauthorized'')"
  by (auto simp: requireAdmin_def Let_def split: if_splits)

lemma admin_upload_cases:
  "post_api_photos_upload rt admin_token authorization file now fs =
     (case requireAdmin admin_token authorization of
        Some rejected \<Rightarrow> Inr (rejected, fs)
      | None \<Rightarrow>
          (case file of
             None \<Rightarrow> Inr (json_response 400 (error_body ''No file uploaded''), fs)
           | Some f \<Rightarrow>
               if photos_json_writable fs
               then Inr (json_response 201 (admin_item (file_filename f) now),
                         fs\<lparr>photos_json := Some (Written
                              (readPhotosList rt fs @ [admin_item (file_filename f) now]))\<rparr>)
               else Inl IOError))"
  by (simp add: post_api_photos_upload_def writePhotosList_def Let_def
      split: option.splits)

lemma open_upload_cases:
  "post_upload rt file now fs =
     (case file of
        None \<Rightarrow> Inr (json_response 400 (error_body ''No file uploaded''), fs)
      | Some f \<Rightarrow>
          if photos_json_writable fs
          then Inr (json_response 200
                      (Obj [(''message'', Str ''Photo uploaded!''),
                            (''photo'', Obj [(''filename'', Str (file_filename f)),
                                             (''dateUploaded'', Str (toISOString now))])]),
                    fs\<lparr>photos_json := Some (Written
                         (readPhotosList rt fs @ [open_item (file_filename f) now]))\<rparr>)
          else Inl IOError)"
  by (simp add: post_upload_def writePhotosList_def Let_def split: option.splits)

text \<open>
  Loading after a write: nothing when the file may not be read, else the list written,
  each element as it is read back.
\<close>

lemma read_back:
  "readPhotosList rt (fs\<lparr>photos_json := Some (Written xs)\<rparr>) =
     (if photos_json_readable fs then map reparsed xs else [])"
  by (simp add: readPhotosList_def readPhotosList_try_def readFileSync_def JSON_parse_text_def
      reparsed_elements_map)

lemma reparsed_stable_list: "list_all stable_json xs \<Longrightarrow> map reparsed xs = xs"
  using stable_reparsed(2) [of xs] by (simp add: stable_elements_all reparsed_elements_map)

lemma reparsed_items:
  "reparsed (admin_item f now) = admin_item f now"
  "reparsed (open_item f now) = open_item f now"
  by (simp_all add: admin_item_def open_item_def Let_def)

lemma read_back_appended:
  assumes "reparsed item = item"
  shows "readPhotosList rt (fs\<lparr>photos_json := Some (Written (xs @ [item]))\<rparr>) =
           (if photos_json_readable fs then map reparsed xs @ [item] else [])"
  using assms by (simp add: read_back)

text \<open>
  C6 as stated fails in three places. The store text \<^verbatim>\<open>[1e999]\<close> loads as
  \<^verbatim>\<open>[Infinity]\<close>; the open upload of \<^verbatim>\<open>c0ffee00c0ffee00c0ffee00.png\<close> succeeds and writes
  the list \<^verbatim>\<open>[Infinity, record]\<close>, whose text reads \<^verbatim>\<open>[null, record]\<close>: the list loaded
  afterwards is not the list loaded before with the record appended. The store text
  \<^verbatim>\<open>[-0]\<close> loads as the negative zero, which is written \<^verbatim>\<open>0\<close> and read as the positive
  zero. And a store the process may write but not read loads as the empty list before
  the upload and after it, although the upload succeeded.
\<close>

theorem upload_appends_counterexample:
  "readPhotosList example_rt overflow_fs = [Num PInf] \<and>
   post_upload example_rt (Some \<lparr>file_filename = ''c0ffee00c0ffee00c0ffee00.png''\<rparr>)
       1704067199000 overflow_fs
     = Inr (json_response 200
              (Obj [(''message'', Str ''Photo uploaded!''),
                    (''photo'', Obj [(''filename'', Str ''c0ffee00c0ffee00c0ffee00.png''),
                                     (''dateUploaded'', Str ''2023-12-31T23:59:59.000Z'')])]),
            overflow_fs\<lparr>photos_json := Some (Written [Num PInf, photo_dec])\<rparr>) \<and>
   readPhotosList example_rt (overflow_fs\<lparr>photos_json := Some (Written [Num PInf, photo_dec])\<rparr>)
     = [Null, photo_dec] \<and>
   [Null, photo_dec] \<noteq> [Num PInf] @ [photo_dec] \<and>
   readPhotosList example_rt negative_zero_fs = [Num NegZero] \<and>
   post_upload example_rt (Some \<lparr>file_filename = ''c0ffee00c0ffee00c0ffee00.png''\<rparr>)
       1704067199000 negative_zero_fs
     = Inr (json_response 200
              (Obj [(''message'', Str ''Photo uploaded!''),
                    (''photo'', Obj [(''filename'', Str ''c0ffee00c0ffee00c0ffee00.png''),
                                     (''dateUploaded'', Str ''2023-12-31T23:59:59.000Z'')])]),
            negative_zero_fs\<lparr>photos_json := Some (Written [Num NegZero, photo_dec])\<rparr>) \<and>
   readPhotosList example_rt
       (negative_zero_fs\<lparr>photos_json := Some (Written [Num NegZero, photo_dec])\<rparr>)
     = [Num (Fin 0), photo_dec] \<and>
   [Num (Fin 0), photo_dec] \<noteq> [Num NegZero] @ [photo_dec] \<and>
   readPhotosList example_rt write_only_fs = [] \<and>
   post_upload example_rt (Some \<lparr>file_filename = ''c0ffee00c0ffee00c0ffee00.png''\<rparr>)
       1704067199000 write_only_fs
     = Inr (json_response 200
              (Obj [(''message'', Str ''Photo uploaded!''),
                    (''photo'', Obj [(''filename'', Str ''c0ffee00c0ffee00c0ffee00.png''),
                                     (''dateUploaded'', Str ''2023-12-31T23:59:59.000Z'')])]),
            write_only_fs\<lparr>photos_json := Some (Written [photo_dec])\<rparr>) \<and>
   readPhotosList example_rt (write_only_fs\<lparr>photos_json := Some (Written [photo_dec])\<rparr>) = [] \<and>
   [] \<noteq> [] @ [photo_dec]"
proof -
  let ?mg = "\<lparr>file_filename = ''c0ffee00c0ffee00c0ffee00.png''\<rparr>"
  have w: "photos_json_writable overflow_fs" "photos_json_readable overflow_fs"
    "photos_json_writable write_only_fs" "\<not> photos_json_readable write_only_fs"
    by (simp_all add: overflow_fs_def write_only_fs_def example_fs_def)
  have up1: "post_upload example_rt (Some ?mg) 1704067199000 overflow_fs
     = Inr (json_response 200
              (Obj [(''message'', Str ''Photo uploaded!''),
                    (''photo'', Obj [(''filename'', Str ''c0ffee00c0ffee00c0ffee00.png''),
                                     (''dateUploaded'', Str ''2023-12-31T23:59:59.000Z'')])]),
            overflow_fs\<lparr>photos_json := Some (Written [Num PInf, photo_dec])\<rparr>)"
    using w(1) by (simp add: open_upload_cases readPhotosList_overflow open_item_dec toISOString_dec)
  have l1: "readPhotosList example_rt (overflow_fs\<lparr>photos_json := Some (Written [Num PInf, photo_dec])\<rparr>)
     = [Null, photo_dec]"
    using w(2) stable_reparsed(1) [OF example_stable(3)] by (simp add: read_back)
  have up2: "post_upload example_rt (Some ?mg) 1704067199000 write_only_fs
     = Inr (json_response 200
              (Obj [(''message'', Str ''Photo uploaded!''),
                    (''photo'', Obj [(''filename'', Str ''c0ffee00c0ffee00c0ffee00.png''),
                                     (''dateUploaded'', Str ''2023-12-31T23:59:59.000Z'')])]),
            write_only_fs\<lparr>photos_json := Some (Written [photo_dec])\<rparr>)"
    using w(3) by (simp add: open_upload_cases readPhotosList_write_only open_item_dec toISOString_dec)
  have l2: "readPhotosList example_rt (write_only_fs\<lparr>photos_json := Some (Written [photo_dec])\<rparr>) = []"
    using w(4) by (simp add: read_back)
  have d1: "[Null, photo_dec] \<noteq> [Num PInf] @ [photo_dec]" by simp
  have wz: "photos_json_writable negative_zero_fs" "photos_json_readable negative_zero_fs"
    by (simp_all add: negative_zero_fs_def example_fs_def)
  have up3: "post_upload example_rt (Some ?mg) 1704067199000 negative_zero_fs
     = Inr (json_response 200
              (Obj [(''message'', Str ''Photo uploaded!''),
                    (''photo'', Obj [(''filename'', Str ''c0ffee00c0ffee00c0ffee00.png''),
                                     (''dateUploaded'', Str ''2023-12-31T23:59:59.000Z'')])]),
            negative_zero_fs\<lparr>photos_json := Some (Written [Num NegZero, photo_dec])\<rparr>)"
    using wz(1)
    by (simp add: open_upload_cases readPhotosList_negative_zero open_item_dec toISOString_dec)
  have l3: "readPhotosList example_rt
       (negative_zero_fs\<lparr>photos_json := Some (Written [Num NegZero, photo_dec])\<rparr>)
     = [Num (Fin 0), photo_dec]"
    using wz(2) stable_reparsed(1) [OF example_stable(3)] by (simp add: read_back)
  have d3: "[Num (Fin 0), photo_dec] \<noteq> [Num NegZero] @ [photo_dec]" by simp
  have d2: "[] \<noteq> [] @ [photo_dec]" by simp
  show ?thesis
    by (intro conjI readPhotosList_overflow up1 l1 d1 readPhotosList_negative_zero up3 l3 d3
        readPhotosList_write_only up2 l2 d2)
qed

text \<open>
  C6, as amended. An upload that succeeds (201 on the admin route, 200 on the open route)
  had a file, and with \<open>f\<close> the name the file was saved under it leaves \<^verbatim>\<open>photos.json\<close>
  holding the text of the list loaded before with one record appended,
  \<^verbatim>\<open>save(load() + [record])\<close>, and nothing else changed. The record has \<^verbatim>\<open>filename\<close> \<open>f\<close> and
  \<^verbatim>\<open>uploadedAt\<close> the current instant in ISO form; its \<^verbatim>\<open>url\<close> is \<^verbatim>\<open>/uploads/f\<close> on the admin
  route and \<^verbatim>\<open>/photos/f\<close> on the open route; \<^verbatim>\<open>dateUploaded\<close>, equal to \<^verbatim>\<open>uploadedAt\<close>, is
  present on the open route only. When the store may be read and the list loaded before
  holds no number that is not finite and no negative zero, the list loaded afterwards is
  the list loaded before followed by the record. In general it is empty when the store
  may not be read, and otherwise the list loaded before, each element as it is read back
  (a number that is not finite as \<^verbatim>\<open>null\<close>, the negative zero as the positive), followed
  by the record. An upload does succeed when the guard lets
  it through, the file is there and \<^verbatim>\<open>photos.json\<close> can be written.
\<close>

theorem upload_appends_record:
  "(\<forall>resp fs'.
      post_api_photos_upload rt admin_token authorization file now fs = Inr (resp, fs')
        \<and> status resp = 201 \<longrightarrow>
      (\<exists>mf f item.
          file = Some mf \<and> f = file_filename mf \<and> item = admin_item f now \<and>
          item = Obj [(''filename'', Str f), (''url'', Str (''/uploads/'' @ f)),
                      (''uploadedAt'', Str (toISOString now))] \<and>
          get_prop item ''dateUploaded'' = Inr Undefined \<and>
          resp = json_response 201 item \<and>
          fs' = fs\<lparr>photos_json := Some (Written (readPhotosList rt fs @ [item]))\<rparr> \<and>
          readPhotosList rt fs' =
            (if photos_json_readable fs then map reparsed (readPhotosList rt fs) @ [item] else []) \<and>
          (photos_json_readable fs \<and> list_all stable_json (readPhotosList rt fs) \<longrightarrow>
             readPhotosList rt fs' = readPhotosList rt fs @ [item]))) \<and>
   (\<forall>resp fs'.
      post_upload rt file now fs = Inr (resp, fs') \<and> status resp = 200 \<longrightarrow>
      (\<exists>mf f item.
          file = Some mf \<and> f = file_filename mf \<and> item = open_item f now \<and>
          item = Obj [(''filename'', Str f), (''url'', Str (''/photos/'' @ f)),
                      (''uploadedAt'', Str (toISOString now)),
                      (''dateUploaded'', Str (toISOString now))] \<and>
          get_prop item ''dateUploaded'' = get_prop item ''uploadedAt'' \<and>
          fs' = fs\<lparr>photos_json := Some (Written (readPhotosList rt fs @ [item]))\<rparr> \<and>
          readPhotosList rt fs' =
            (if photos_json_readable fs then map reparsed (readPhotosList rt fs) @ [item] else []) \<and>
          (photos_json_readable fs \<and> list_all stable_json (readPhotosList rt fs) \<longrightarrow>
             readPhotosList rt fs' = readPhotosList rt fs @ [item]))) \<and>
   (\<forall>mf. requireAdmin admin_token authorization = None \<and> file = Some mf
           \<and> photos_json_writable fs \<longrightarrow>
      (\<exists>resp fs'. post_api_photos_upload rt admin_token authorization file now fs = Inr (resp, fs')
          \<and> status resp = 201)) \<and>
   (\<forall>mf. file = Some mf \<and> photos_json_writable fs \<longrightarrow>
      (\<exists>resp fs'. post_upload rt file now fs = Inr (resp, fs') \<and> status resp = 200))"
proof (intro conjI allI impI)
  fix resp fs'
  assume a: "post_api_photos_upload rt admin_token authorization file now fs = Inr (resp, fs')
             \<and> status resp = 201"
  have guard: "requireAdmin admin_token authorization = None"
  proof (cases "requireAdmin admin_token authorization")
    case None
    then show ?thesis .
  next
    case (Some rejected)
    with a have "resp = rejected" by (simp add: admin_upload_cases)
    with requireAdmin_rejections [OF Some] a show ?thesis
      by (auto simp: json_response_def)
  qed
  from a guard obtain mf where mf: "file = Some mf"
    by (cases "file") (auto simp: admin_upload_cases json_response_def)
  let ?item = "admin_item (file_filename mf) now"
  let ?old = "readPhotosList rt fs"
  from a guard mf have w: "photos_json_writable fs"
    by (auto simp: admin_upload_cases split: if_splits)
  from a guard mf w have r: "resp = json_response 201 ?item"
    and s: "fs' = fs\<lparr>photos_json := Some (Written (?old @ [?item]))\<rparr>"
    by (simp_all add: admin_upload_cases)
  have shape: "?item = Obj [(''filename'', Str (file_filename mf)),
        (''url'', Str (''/uploads/'' @ file_filename mf)), (''uploadedAt'', Str (toISOString now))]"
    by (simp add: admin_item_def)
  have nodate: "get_prop ?item ''dateUploaded'' = Inr Undefined"
    by (simp add: admin_item_def)
  have reread: "readPhotosList rt fs' =
      (if photos_json_readable fs then map reparsed ?old @ [?item] else [])"
    unfolding s by (rule read_back_appended) (rule reparsed_items)
  have amended: "photos_json_readable fs \<and> list_all stable_json ?old \<longrightarrow>
      readPhotosList rt fs' = ?old @ [?item]"
    using reread by (simp add: reparsed_stable_list)
  from mf r s shape nodate reread amended
  show "\<exists>mf f item.
          file = Some mf \<and> f = file_filename mf \<and> item = admin_item f now \<and>
          item = Obj [(''filename'', Str f), (''url'', Str (''/uploads/'' @ f)),
                      (''uploadedAt'', Str (toISOString now))] \<and>
          get_prop item ''dateUploaded'' = Inr Undefined \<and>
          resp = json_response 201 item \<and>
          fs' = fs\<lparr>photos_json := Some (Written (readPhotosList rt fs @ [item]))\<rparr> \<and>
          readPhotosList rt fs' =
            (if photos_json_readable fs then map reparsed (readPhotosList rt fs) @ [item] else []) \<and>
          (photos_json_readable fs \<and> list_all stable_json (readPhotosList rt fs) \<longrightarrow>
             readPhotosList rt fs' = readPhotosList rt fs @ [item])"
    by blast
next
  fix resp fs'
  assume a: "post_upload rt file now fs = Inr (resp, fs') \<and> status resp = 200"
  then obtain mf where mf: "file = Some mf"
    by (cases "file") (auto simp: open_upload_cases json_response_def)
  let ?item = "open_item (file_filename mf) now"
  let ?old = "readPhotosList rt fs"
  from a mf have w: "photos_json_writable fs"
    by (auto simp: open_upload_cases split: if_splits)
  from a mf w have s: "fs' = fs\<lparr>photos_json := Some (Written (?old @ [?item]))\<rparr>"
    by (simp add: open_upload_cases)
  have shape: "?item = Obj [(''filename'', Str (file_filename mf)),
        (''url'', Str (''/photos/'' @ file_filename mf)), (''uploadedAt'', Str (toISOString now)),
        (''dateUploaded'', Str (toISOString now))]"
    by (simp add: open_item_def Let_def)
  have same: "get_prop ?item ''dateUploaded'' = get_prop ?item ''uploadedAt''"
    by (simp add: open_item_def Let_def)
  have reread: "readPhotosList rt fs' =
      (if photos_json_readable fs then map reparsed ?old @ [?item] else [])"
    unfolding s by (rule read_back_appended) (rule reparsed_items)
  have amended: "photos_json_readable fs \<and> list_all stable_json ?old \<longrightarrow>
      readPhotosList rt fs' = ?old @ [?item]"
    using reread by (simp add: reparsed_stable_list)
  from mf s shape same reread amended
  show "\<exists>mf f item.
          file = Some mf \<and> f = file_filename mf \<and> item = open_item f now \<and>
          item = Obj [(''filename'', Str f), (''url'', Str (''/photos/'' @ f)),
                      (''uploadedAt'', Str (toISOString now)),
                      (''dateUploaded'', Str (toISOString now))] \<and>
          get_prop item ''dateUploaded'' = get_prop item ''uploadedAt'' \<and>
          fs' = fs\<lparr>photos_json := Some (Written (readPhotosList rt fs @ [item]))\<rparr> \<and>
          readPhotosList rt fs' =
            (if photos_json_readable fs then map reparsed (readPhotosList rt fs) @ [item] else []) \<and>
          (photos_json_readable fs \<and> list_all stable_json (readPhotosList rt fs) \<longrightarrow>
             readPhotosList rt fs' = readPhotosList rt fs @ [item])"
    by blast
next
  fix mf
  assume "requireAdmin admin_token authorization = None \<and> file = Some mf \<and> photos_json_writable fs"
  then show "\<exists>resp fs'. post_api_photos_upload rt admin_token authorization file now fs = Inr (resp, fs')
      \<and> status resp = 201"
    by (simp add: admin_upload_cases json_response_def)
next
  fix mf
  assume "file = Some mf \<and> photos_json_writable fs"
  then show "\<exists>resp fs'. post_upload rt file now fs = Inr (resp, fs') \<and> status resp = 200"
    by (simp add: open_upload_cases json_response_def)
qed

text \<open>
  Two uploads into stores that hold a record already: the admin route with the bearer
  token at 2024-01-15T12:00:00.000Z into the store of the December record, and the open
  route at 2023-12-31T23:59:59.000Z into the store of the January record. Each time the
  list loaded afterwards is the record that was there followed by the new one.
\<close>

theorem upload_appends_record_witness:
  "readPhotosList example_rt (example_fs\<lparr>photos_json := Some (Raw text_dec)\<rparr>) = [photo_dec] \<and>
   photos_json_readable (example_fs\<lparr>photos_json := Some (Raw text_dec)\<rparr>) \<and>
   list_all stable_json [photo_dec] \<and>
   post_api_photos_upload example_rt (Some ''s3cret'') (Some ''Bearer s3cret'')
       (Some \<lparr>file_filename = ''0f1e2d3c4b5a69788796a5b4.jpg''\<rparr>) 1705320000000
       (example_fs\<lparr>photos_json := Some (Raw text_dec)\<rparr>)
     = Inr (json_response 201 photo_jan,
            example_fs\<lparr>photos_json := Some (Written [photo_dec, photo_jan])\<rparr>) \<and>
   status (json_response 201 photo_jan) = 201 \<and>
   readPhotosList example_rt (example_fs\<lparr>photos_json := Some (Written [photo_dec, photo_jan])\<rparr>)
     = [photo_dec, photo_jan] \<and>
   readPhotosList example_rt example_fs = [photo_jan] \<and>
   photos_json_readable example_fs \<and>
   list_all stable_json [photo_jan] \<and>
   (\<exists>resp. post_upload example_rt (Some \<lparr>file_filename = ''c0ffee00c0ffee00c0ffee00.png''\<rparr>)
              1704067199000 example_fs
            = Inr (resp, example_fs\<lparr>photos_json := Some (Written [photo_jan, photo_dec])\<rparr>)
          \<and> status resp = 200) \<and>
   readPhotosList example_rt (example_fs\<lparr>photos_json := Some (Written [photo_jan, photo_dec])\<rparr>)
     = [photo_jan, photo_dec]"
proof -
  let ?mf = "\<lparr>file_filename = ''0f1e2d3c4b5a69788796a5b4.jpg''\<rparr>"
  let ?mg = "\<lparr>file_filename = ''c0ffee00c0ffee00c0ffee00.png''\<rparr>"
  let ?dec = "example_fs\<lparr>photos_json := Some (Raw text_dec)\<rparr>"
  note inst1 = upload_appends_record
    [of example_rt "Some ''s3cret''" "Some ''Bearer s3cret''" "Some ?mf" 1705320000000 ?dec]
  note inst2 = upload_appends_record
    [of example_rt "Some ''s3cret''" "Some ''Bearer s3cret''" "Some ?mg" 1704067199000 example_fs]
  have guard: "requireAdmin (Some ''s3cret'') (Some ''Bearer s3cret'') = None"
    by (simp add: requireAdmin_def)
  have w: "photos_json_writable ?dec" "photos_json_writable example_fs"
    and rd: "photos_json_readable ?dec" "photos_json_readable example_fs"
    by (simp_all add: example_fs_def)
  have old1: "readPhotosList example_rt ?dec = [photo_dec]"
    by (simp add: readPhotosList_def readPhotosList_try_def readFileSync_def JSON_parse_text_def
        example_fs_def example_parsed)
  have old2: "readPhotosList example_rt example_fs = [photo_jan]"
    by (rule readPhotosList_example)
  have fin1: "list_all stable_json [photo_dec]" and fin2: "list_all stable_json [photo_jan]"
    by (simp_all add: example_stable)
  have same: "?dec\<lparr>photos_json := Some (Written [photo_dec, photo_jan])\<rparr>
        = example_fs\<lparr>photos_json := Some (Written [photo_dec, photo_jan])\<rparr>"
    by simp
  \<comment> \<open>the admin route\<close>
  from inst1 [THEN conjunct2, THEN conjunct2, THEN conjunct1, rule_format,
      OF conjI [OF guard conjI [OF refl w(1)]]]
  obtain resp fs' where
    run: "post_api_photos_upload example_rt (Some ''s3cret'') (Some ''Bearer s3cret'') (Some ?mf)
            1705320000000 ?dec = Inr (resp, fs')" and ok: "status resp = 201"
    by (elim exE conjE)
  from inst1 [THEN conjunct1, rule_format, OF conjI [OF run ok]]
  obtain mf f item where
    mf: "Some ?mf = Some mf" and f: "f = file_filename mf" and item: "item = admin_item f 1705320000000"
    and resp: "resp = json_response 201 item"
    and fs': "fs' = ?dec\<lparr>photos_json := Some (Written (readPhotosList example_rt ?dec @ [item]))\<rparr>"
    and again: "photos_json_readable ?dec \<and> list_all stable_json (readPhotosList example_rt ?dec)
      \<longrightarrow> readPhotosList example_rt fs' = readPhotosList example_rt ?dec @ [item]"
    by (elim exE conjE)
  from mf have "mf = ?mf" by simp
  with f item have item': "item = photo_jan"
    by (simp add: admin_item_jan)
  have fs1: "fs' = example_fs\<lparr>photos_json := Some (Written [photo_dec, photo_jan])\<rparr>"
    using fs' unfolding old1 item' by simp
  have c1: "post_api_photos_upload example_rt (Some ''s3cret'') (Some ''Bearer s3cret'') (Some ?mf)
      1705320000000 ?dec
      = Inr (json_response 201 photo_jan,
             example_fs\<lparr>photos_json := Some (Written [photo_dec, photo_jan])\<rparr>)"
    using run resp fs1 item' by (simp only:)
  have c2: "readPhotosList example_rt (example_fs\<lparr>photos_json := Some (Written [photo_dec, photo_jan])\<rparr>)
      = [photo_dec, photo_jan]"
    using again rd(1) fin1 unfolding fs1 item' old1 by simp
  \<comment> \<open>the open route\<close>
  from inst2 [THEN conjunct2, THEN conjunct2, THEN conjunct2, rule_format, OF conjI [OF refl w(2)]]
  obtain resp2 fs2 where
    run2: "post_upload example_rt (Some ?mg) 1704067199000 example_fs = Inr (resp2, fs2)"
    and ok2: "status resp2 = 200"
    by (elim exE conjE)
  from inst2 [THEN conjunct2, THEN conjunct1, rule_format, OF conjI [OF run2 ok2]]
  obtain mg g item2 where
    mg: "Some ?mg = Some mg" and g: "g = file_filename mg" and item2: "item2 = open_item g 1704067199000"
    and fs2: "fs2 = example_fs\<lparr>photos_json :=
        Some (Written (readPhotosList example_rt example_fs @ [item2]))\<rparr>"
    and again2: "photos_json_readable example_fs
        \<and> list_all stable_json (readPhotosList example_rt example_fs)
      \<longrightarrow> readPhotosList example_rt fs2 = readPhotosList example_rt example_fs @ [item2]"
    by (elim exE conjE)
  from mg have "mg = ?mg" by simp
  with g item2 have item2': "item2 = photo_dec"
    by (simp add: open_item_dec)
  have fs2': "fs2 = example_fs\<lparr>photos_json := Some (Written [photo_jan, photo_dec])\<rparr>"
    using fs2 unfolding old2 item2' by simp
  have c3: "\<exists>resp. post_upload example_rt (Some ?mg) 1704067199000 example_fs
      = Inr (resp, example_fs\<lparr>photos_json := Some (Written [photo_jan, photo_dec])\<rparr>)
      \<and> status resp = 200"
    using run2 ok2 unfolding fs2' by (intro exI conjI)
  have c4: "readPhotosList example_rt (example_fs\<lparr>photos_json := Some (Written [photo_jan, photo_dec])\<rparr>)
      = [photo_jan, photo_dec]"
    using again2 rd(2) fin2 unfolding fs2' item2' old2 by simp
  have st: "status (json_response 201 photo_jan) = 201"
    by (simp add: json_response_def)
  show ?thesis
    by (intro conjI old1 rd(1) fin1 c1 st c2 old2 rd(2) fin2 c3 c4)
qed

text \<open>
  C10. A rejected upload writes nothing. On the admin route a request the guard answers
  (500 with no secret configured, 401 with a token that is not the secret) ends there,
  with the file system as it was; a request the guard lets through without a file is
  answered 400 "No file uploaded" with the file system as it was; so is a request
  without a file on the open route. Whenever either handler answers with a status other
  than its success status (201, 200), the file system after the request is the one
  before, and so is the list that \<^verbatim>\<open>readPhotosList\<close> loads.
\<close>

theorem rejected_upload_writes_nothing:
  "(\<forall>rejected. requireAdmin admin_token authorization = Some rejected \<longrightarrow>
       post_api_photos_upload rt admin_token authorization file now fs = Inr (rejected, fs) \<and>
       (rejected = json_response 500 (error_body ''Server missing ADMIN_TOKEN'') \<or>
        rejected = json_response 401 (error_body ''Unauthorized''))) \<and>
   (requireAdmin admin_token authorization = None \<longrightarrow>
       post_api_photos_upload rt admin_token authorization None now fs
         = Inr (json_response 400 (error_body ''No file uploaded''), fs)) \<and>
   post_upload rt None now fs = Inr (json_response 400 (error_body ''No file uploaded''), fs) \<and>
   (\<forall>resp fs'. post_api_photos_upload rt admin_token authorization file now fs = Inr (resp, fs')
        \<and> status resp \<noteq> 201 \<longrightarrow>
      status resp \<in> {400, 401, 500} \<and> fs' = fs \<and> readPhotosList rt fs' = readPhotosList rt fs) \<and>
   (\<forall>resp fs'. post_upload rt file now fs = Inr (resp, fs') \<and> status resp \<noteq> 200 \<longrightarrow>
      status resp = 400 \<and> fs' = fs \<and> readPhotosList rt fs' = readPhotosList rt fs)"
proof (intro conjI allI impI)
  fix rejected
  assume "requireAdmin admin_token authorization = Some rejected"
  then show "post_api_photos_upload rt admin_token authorization file now fs = Inr (rejected, fs)"
    by (simp add: admin_upload_cases)
next
  fix rejected
  assume "requireAdmin admin_token authorization = Some rejected"
  then show "rejected = json_response 500 (error_body ''Server missing ADMIN_TOKEN'') \<or>
      rejected = json_response 401 (error_body ''Unauthorized'')"
    by (rule requireAdmin_rejections)
next
  assume "requireAdmin admin_token authorization = None"
  then show "post_api_photos_upload rt admin_token authorization None now fs
      = Inr (json_response 400 (error_body ''No file uploaded''), fs)"
    by (simp add: admin_upload_cases)
next
  show "post_upload rt None now fs = Inr (json_response 400 (error_body ''No file uploaded''), fs)"
    by (simp add: open_upload_cases)
next
  fix resp fs'
  assume a: "post_api_photos_upload rt admin_token authorization file now fs = Inr (resp, fs')
      \<and> status resp \<noteq> 201"
  have "status resp \<in> {400, 401, 500} \<and> fs' = fs"
  proof (cases "requireAdmin admin_token authorization")
    case (Some rejected)
    with a have "resp = rejected" "fs' = fs" by (simp_all add: admin_upload_cases)
    with requireAdmin_rejections [OF Some] show ?thesis
      by (auto simp: json_response_def)
  next
    case None
    with a show ?thesis
      by (cases "file") (auto simp: admin_upload_cases json_response_def split: if_splits)
  qed
  then show "status resp \<in> {400, 401, 500}" "fs' = fs" "readPhotosList rt fs' = readPhotosList rt fs"
    by simp_all
next
  fix resp fs'
  assume a: "post_upload rt file now fs = Inr (resp, fs') \<and> status resp \<noteq> 200"
  then have "status resp = 400 \<and> fs' = fs"
    by (cases "file") (auto simp: open_upload_cases json_response_def split: if_splits)
  then show "status resp = 400" "fs' = fs" "readPhotosList rt fs' = readPhotosList rt fs"
    by simp_all
qed

text \<open>
  Against the store of one record: no secret configured, a wrong token, the right token
  without a file, and the open route without a file. Each time the store is untouched.
\<close>

theorem rejected_upload_writes_nothing_witness:
  "requireAdmin None (Some ''Bearer s3cret'')
     = Some (json_response 500 (error_body ''Server missing ADMIN_TOKEN'')) \<and>
   post_api_photos_upload example_rt None (Some ''Bearer s3cret'')
       (Some \<lparr>file_filename = ''0f1e2d3c4b5a69788796a5b4.jpg''\<rparr>) 1705320000000 example_fs
     = Inr (json_response 500 (error_body ''Server missing ADMIN_TOKEN''), example_fs) \<and>
   requireAdmin (Some ''s3cret'') (Some ''Bearer guess'')
     = Some (json_response 401 (error_body ''Unauthorized'')) \<and>
   post_api_photos_upload example_rt (Some ''s3cret'') (Some ''Bearer guess'')
       (Some \<lparr>file_filename = ''0f1e2d3c4b5a69788796a5b4.jpg''\<rparr>) 1705320000000 example_fs
     = Inr (json_response 401 (error_body ''Unauthorized''), example_fs) \<and>
   requireAdmin (Some ''s3cret'') (Some ''Bearer s3cret'') = None \<and>
   post_api_photos_upload example_rt (Some ''s3cret'') (Some ''Bearer s3cret'') None
       1705320000000 example_fs
     = Inr (json_response 400 (error_body ''No file uploaded''), example_fs) \<and>
   post_upload example_rt None 1705320000000 example_fs
     = Inr (json_response 400 (error_body ''No file uploaded''), example_fs)"
proof -
  let ?mf = "\<lparr>file_filename = ''0f1e2d3c4b5a69788796a5b4.jpg''\<rparr>"
  have g1: "requireAdmin None (Some ''Bearer s3cret'')
      = Some (json_response 500 (error_body ''Server missing ADMIN_TOKEN''))"
    by (simp add: requireAdmin_def)
  have g2: "requireAdmin (Some ''s3cret'') (Some ''Bearer guess'')
      = Some (json_response 401 (error_body ''Unauthorized''))"
    by (simp add: requireAdmin_def)
  have g3: "requireAdmin (Some ''s3cret'') (Some ''Bearer s3cret'') = None"
    by (simp add: requireAdmin_def)
  note c1 = rejected_upload_writes_nothing
      [of None "Some ''Bearer s3cret''" example_rt "Some ?mf" 1705320000000 example_fs,
       THEN conjunct1, rule_format, OF g1, THEN conjunct1]
  note c2 = rejected_upload_writes_nothing
      [of "Some ''s3cret''" "Some ''Bearer guess''" example_rt "Some ?mf" 1705320000000 example_fs,
       THEN conjunct1, rule_format, OF g2, THEN conjunct1]
  note c3 = rejected_upload_writes_nothing
      [of "Some ''s3cret''" "Some ''Bearer s3cret''" example_rt None 1705320000000 example_fs,
       THEN conjunct2, THEN conjunct1, rule_format, OF g3]
  note c4 = rejected_upload_writes_nothing
      [of "Some ''s3cret''" "Some ''Bearer s3cret''" example_rt None 1705320000000 example_fs,
       THEN conjunct2, THEN conjunct2, THEN conjunct1]
  show ?thesis
    by (intro conjI g1 c1 g2 c2 g3 c3 c4)
qed

section \<open>The record store: writing back what was read\<close>




section \<open>The filters of /random-photo\<close>

lemma strict_equal_Some: "strict_equal a (Some k) \<longleftrightarrow> a = Some k"
  by (auto simp: strict_equal_def split: option.splits)

lemma filterE_subset: "filterE f xs = Inr ys \<Longrightarrow> set ys \<subseteq> set xs"
proof (induction xs arbitrary: ys)
  case Nil
  then show ?case by simp
next
  case (Cons x xs)
  from Cons.prems obtain b zs where rest: "filterE f xs = Inr zs"
    and ys: "ys = (if b then x # zs else zs)"
    by (auto split: sum.splits)
  from Cons.IH [OF rest] ys show ?case by auto
qed

lemma year_filter_records:
  assumes "\<forall>p\<in>set xs. is_record p" and "truthy year" and "ToString rt year = Inr ys"
  shows "year_filter rt year xs =
           Inr (filter (\<lambda>p. strict_equal (getFullYear rt (record_date rt p)) (parseInt10 ys)) xs)"
proof -
  have "filterE (year_matches rt (parseInt10 ys)) xs =
      Inr (filter (\<lambda>p. strict_equal (getFullYear rt (record_date rt p)) (parseInt10 ys)) xs)"
    using assms(1) by (intro filterE_total) (simp add: record_year_matches)
  with assms(2,3) show ?thesis by (simp add: year_filter_def)
qed

lemma month_filter_records:
  assumes "\<forall>p\<in>set xs. is_record p" and "truthy month" and "ToString rt month = Inr ms"
  shows "month_filter rt month xs =
           Inr (filter (\<lambda>p. strict_equal (getMonth rt (record_date rt p))
                                (normalize_month (parseInt10 ms))) xs)"
proof -
  have "filterE (month_matches rt (normalize_month (parseInt10 ms))) xs =
      Inr (filter (\<lambda>p. strict_equal (getMonth rt (record_date rt p))
                           (normalize_month (parseInt10 ms))) xs)"
    using assms(1) by (intro filterE_total) (simp add: record_month_matches)
  with assms(2,3) show ?thesis by (simp add: month_filter_def)
qed

text \<open>
  What the theorems below leave out: an element of the stored list that is \<^verbatim>\<open>null\<close> makes
  either filter throw a TypeError (Express then answers through its error middleware).
\<close>

lemma null_element_throws:
  assumes "truthy q" and "ToString rt q = Inr s"
  shows "year_filter rt q (Null # xs) = Inl TypeError"
    and "month_filter rt q (Null # xs) = Inl TypeError"
  using assms
  by (simp_all add: year_filter_def month_filter_def year_matches_def month_matches_def
      photo_date_def effective_timestamp_def)

text \<open>
  The comparison \<^verbatim>\<open>d.getMonth() === m\<close> with the normalised month, spelled out.
\<close>

lemma month_condition:
  "strict_equal a (normalize_month q) \<longleftrightarrow>
     (\<exists>m. q = Some m \<and> a = Some (if 11 < m then m - 1 else m))"
  by (cases q; cases a) (auto simp: strict_equal_def normalize_month_def)

text \<open>
  On records, the code's filter is the filter on the local month of the specification's
  effective timestamp.
\<close>

lemma month_filter_spec:
  assumes "\<forall>p\<in>set xs. is_record p" and "truthy month" and "ToString rt month = Inr ms"
    and "parseInt10 ms = Some m"
  shows "month_filter rt month xs =
           Inr (filter (\<lambda>p. map_option MonthFromTime (spec_local_time rt p)
                              = Some (if 11 < m then m - 1 else m)) xs)"
proof -
  have "filter (\<lambda>p. strict_equal (getMonth rt (record_date rt p)) (normalize_month (parseInt10 ms))) xs
      = filter (\<lambda>p. map_option MonthFromTime (spec_local_time rt p)
                       = Some (if 11 < m then m - 1 else m)) xs"
    using assms(1,4) by (intro filter_cong refl) (simp add: month_condition record_local_month)
  with month_filter_records [OF assms(1,2,3)] show ?thesis by simp
qed

text \<open>
  C1. A month filter whose text parses to the integer \<open>m\<close> is normalised to \<open>m - 1\<close> when
  \<open>m > 11\<close> and used as it is when \<open>0 \<le> m \<le> 11\<close>; of the records it is applied to, exactly
  those are kept, in their order, whose effective timestamp (\<^verbatim>\<open>uploadedAt\<close>, else
  \<^verbatim>\<open>dateUploaded\<close>, else epoch zero) is a date whose 0-indexed month, in local time, is
  that number. The parameter is \<^verbatim>\<open>req.query.month\<close>; it is applied when it is truthy,
  which a non-empty text such as \<^verbatim>\<open>0\<close> is.
\<close>

theorem month_filter_normalizes:
  assumes "truthy month" and "ToString rt month = Inr ms" and "parseInt10 ms = Some m"
    and "\<forall>p\<in>set filtered. is_record p"
  shows "(11 < m \<longrightarrow>
            normalize_month (parseInt10 ms) = Some (m - 1) \<and>
            month_filter rt month filtered =
              Inr (filter (\<lambda>p. map_option MonthFromTime (spec_local_time rt p) = Some (m - 1))
                     filtered)) \<and>
         (0 \<le> m \<and> m \<le> 11 \<longrightarrow>
            normalize_month (parseInt10 ms) = Some m \<and>
            month_filter rt month filtered =
              Inr (filter (\<lambda>p. map_option MonthFromTime (spec_local_time rt p) = Some m)
                     filtered))"
  using month_filter_spec [OF assms(4,1,2,3)] assms(3)
  by (simp add: normalize_month_def)

text \<open>
  The five records, five hours behind UTC: \<^verbatim>\<open>month=12\<close> keeps the December record, the
  record with \<^verbatim>\<open>dateUploaded\<close> only (2024-01-01T02:00Z is still December there) and the
  record with no timestamp (epoch zero is December 1969 there); \<^verbatim>\<open>month=2\<close> keeps the
  March record and \<^verbatim>\<open>month=0\<close> the January record. In UTC, \<^verbatim>\<open>month=0\<close> keeps the January
  record, the record with \<^verbatim>\<open>dateUploaded\<close> only and the record with no timestamp.
\<close>

theorem month_filter_normalizes_witness:
  "truthy (Str ''12'') \<and> ToString west_rt (Str ''12'') = Inr ''12'' \<and> parseInt10 ''12'' = Some 12 \<and>
   is_record photo_jan \<and> is_record photo_mar \<and> is_record photo_dec \<and>
   is_record photo_legacy \<and> is_record photo_bare \<and>
   month_filter west_rt (Str ''12'') [photo_jan, photo_mar, photo_dec, photo_legacy, photo_bare]
     = Inr [photo_dec, photo_legacy, photo_bare] \<and>
   month_filter west_rt (Str ''2'') [photo_jan, photo_mar, photo_dec, photo_legacy, photo_bare]
     = Inr [photo_mar] \<and>
   month_filter west_rt (Str ''0'') [photo_jan, photo_mar, photo_dec, photo_legacy, photo_bare]
     = Inr [photo_jan] \<and>
   month_filter example_rt (Str ''0'') [photo_jan, photo_mar, photo_dec, photo_legacy, photo_bare]
     = Inr [photo_jan, photo_legacy, photo_bare]"
proof -
  let ?xs = "[photo_jan, photo_mar, photo_dec, photo_legacy, photo_bare]"
  have recs: "\<forall>p\<in>set ?xs. is_record p"
    by (simp add: example_records more_records)
  have t: "truthy (Str ''12'')" "truthy (Str ''2'')" "truthy (Str ''0'')" by simp_all
  have s: "ToString west_rt (Str ''12'') = Inr ''12''" "ToString west_rt (Str ''2'') = Inr ''2''"
    "ToString west_rt (Str ''0'') = Inr ''0''" "ToString example_rt (Str ''0'') = Inr ''0''"
    by simp_all
  have c12: "month_filter west_rt (Str ''12'') ?xs = Inr [photo_dec, photo_legacy, photo_bare]"
    using month_filter_normalizes [OF t(1) s(1) example_numbers(4) recs] by (simp add: west_months del: map_option_eq_Some)
  have c2: "month_filter west_rt (Str ''2'') ?xs = Inr [photo_mar]"
    using month_filter_normalizes [OF t(2) s(2) example_numbers(2) recs] by (simp add: west_months del: map_option_eq_Some)
  have c0: "month_filter west_rt (Str ''0'') ?xs = Inr [photo_jan]"
    using month_filter_normalizes [OF t(3) s(3) example_numbers(1) recs] by (simp add: west_months del: map_option_eq_Some)
  have u0: "month_filter example_rt (Str ''0'') ?xs = Inr [photo_jan, photo_legacy, photo_bare]"
    using month_filter_normalizes [OF t(3) s(4) example_numbers(1) recs] by (simp add: utc_months del: map_option_eq_Some)
  show ?thesis
    by (intro conjI t(1) s(1) example_numbers(4) example_records more_records c12 c2 c0 u0)
qed

text \<open>
  C2 as stated fails: \<^verbatim>\<open>month=13\<close> is normalised to 12, which is no month index, while
  \<^verbatim>\<open>month=0\<close> selects January. For the store of the one January record the candidates
  are none under \<^verbatim>\<open>month=13\<close> and the record under \<^verbatim>\<open>month=0\<close>.
\<close>

theorem month_13_counterexample:
  "filter_photos example_rt Undefined (Str ''13'') [photo_jan] = Inr [] \<and>
   filter_photos example_rt Undefined (Str ''0'') [photo_jan] = Inr [photo_jan] \<and>
   filter_photos example_rt Undefined (Str ''13'') [photo_jan]
     \<noteq> filter_photos example_rt Undefined (Str ''0'') [photo_jan]"
proof -
  have month: "getMonth example_rt (record_date example_rt photo_jan) = Some 0"
    by (simp add: date_jan year_month_jan)
  have recs: "\<forall>p\<in>set [photo_jan]. is_record p"
    by (simp add: example_records)
  have m13: "month_filter example_rt (Str ''13'') [photo_jan] = Inr []"
    using month_filter_records [OF recs, of "Str ''13''" example_rt "''13''"]
    by (simp add: example_numbers normalize_month_def strict_equal_Some month)
  have m0: "month_filter example_rt (Str ''0'') [photo_jan] = Inr [photo_jan]"
    using month_filter_records [OF recs, of "Str ''0''" example_rt "''0''"]
    by (simp add: example_numbers normalize_month_def strict_equal_Some month)
  have a: "filter_photos example_rt Undefined (Str ''13'') [photo_jan] = Inr []"
    by (simp add: filter_photos_def year_filter_def m13)
  have b: "filter_photos example_rt Undefined (Str ''0'') [photo_jan] = Inr [photo_jan]"
    by (simp add: filter_photos_def year_filter_def m0)
  have "filter_photos example_rt Undefined (Str ''13'') [photo_jan]
     \<noteq> filter_photos example_rt Undefined (Str ''0'') [photo_jan]"
    unfolding a b by simp
  with a b show ?thesis by (intro conjI)
qed

text \<open>
  C2, as amended. The two month values that behave identically are 12 and 11: for every
  record list and every year filter they give the same candidates (and the same
  exception, should one be thrown). Under \<^verbatim>\<open>month=13\<close> no record is ever a candidate: if
  the filtering returns, it returns the empty list, and for a list of records with a
  year parameter that converts to a string it does return.
\<close>

theorem month_12_is_month_11:
  "filter_photos rt year (Str ''12'') list = filter_photos rt year (Str ''11'') list \<and>
   (\<forall>kept. filter_photos rt year (Str ''13'') list = Inr kept \<longrightarrow> kept = []) \<and>
   ((\<forall>p\<in>set list. is_record p) \<and> (\<exists>ys. ToString rt year = Inr ys) \<longrightarrow>
      filter_photos rt year (Str ''13'') list = Inr [])"
proof (intro conjI allI impI)
  have "month_filter rt (Str ''12'') xs = month_filter rt (Str ''11'') xs" for xs
    by (simp add: month_filter_def example_numbers normalize_month_def)
  then show "filter_photos rt year (Str ''12'') list = filter_photos rt year (Str ''11'') list"
    by (simp add: filter_photos_def split: sum.splits)
next
  have none: "month_filter rt (Str ''13'') xs = Inr kept \<Longrightarrow> kept = []" for xs kept
  proof -
    assume "month_filter rt (Str ''13'') xs = Inr kept"
    then have k: "filterE (month_matches rt (Some 12)) xs = Inr kept"
      by (simp add: month_filter_def example_numbers normalize_month_def)
    have "\<not> b" if "month_matches rt (Some 12) x = Inr b" for x b
      using that getMonth_never_12 [of rt]
      by (auto simp: month_matches_def split: sum.splits)
    then show "kept = []"
      using filterE_none [OF _ k] by blast
  qed
  {
    fix kept
    assume "filter_photos rt year (Str ''13'') list = Inr kept"
    then show "kept = []"
      using none by (auto simp: filter_photos_def split: sum.splits)
  }
  {
    assume a: "(\<forall>p\<in>set list. is_record p) \<and> (\<exists>ys. ToString rt year = Inr ys)"
    then obtain ys where ys: "ToString rt year = Inr ys" by blast
    obtain cs where cs: "year_filter rt year list = Inr cs" and sub: "set cs \<subseteq> set list"
    proof (cases "truthy year")
      case True
      from a have "\<forall>p\<in>set list. is_record p" by simp
      from year_filter_records [OF this True ys] that show ?thesis by auto
    next
      case False
      then have "year_filter rt year list = Inr list" by (simp add: year_filter_def)
      with that show ?thesis by auto
    qed
    from a sub have "\<forall>p\<in>set cs. is_record p" by blast
    from month_filter_records [OF this, of "Str ''13''" rt "''13''"]
    obtain kept where k: "month_filter rt (Str ''13'') cs = Inr kept" by simp
    with none have "kept = []" by blast
    with k cs show "filter_photos rt year (Str ''13'') list = Inr []"
      by (simp add: filter_photos_def)
  }
qed

text \<open>
  The three records: \<^verbatim>\<open>month=12\<close> and \<^verbatim>\<open>month=11\<close> both keep the December record,
  \<^verbatim>\<open>month=13\<close> keeps none.
\<close>

theorem month_12_is_month_11_witness:
  "is_record photo_jan \<and> is_record photo_mar \<and> is_record photo_dec \<and>
   ToString example_rt Undefined = Inr ''undefined'' \<and>
   filter_photos example_rt Undefined (Str ''13'') [photo_jan, photo_mar, photo_dec] = Inr [] \<and>
   filter_photos example_rt Undefined (Str ''11'') [photo_jan, photo_mar, photo_dec] = Inr [photo_dec] \<and>
   filter_photos example_rt Undefined (Str ''12'') [photo_jan, photo_mar, photo_dec] = Inr [photo_dec]"
proof -
  let ?xs = "[photo_jan, photo_mar, photo_dec]"
  note inst = month_12_is_month_11 [of example_rt Undefined ?xs]
  have recs: "\<forall>p\<in>set ?xs. is_record p"
    by (simp add: example_records)
  have str: "\<exists>ys. ToString example_rt Undefined = Inr ys" by simp
  have months:
    "getMonth example_rt (record_date example_rt photo_jan) = Some 0"
    "getMonth example_rt (record_date example_rt photo_mar) = Some 2"
    "getMonth example_rt (record_date example_rt photo_dec) = Some 11"
    by (simp_all add: date_jan date_mar date_dec year_month_jan year_month_mar year_month_dec)
  have c13: "filter_photos example_rt Undefined (Str ''13'') ?xs = Inr []"
    by (rule inst [THEN conjunct2, THEN conjunct2, rule_format, OF conjI [OF recs str]])
  have "month_filter example_rt (Str ''11'') ?xs = Inr [photo_dec]"
    using month_filter_records [OF recs, of "Str ''11''" example_rt "''11''"]
    by (simp add: example_numbers normalize_month_def strict_equal_Some months)
  then have c11: "filter_photos example_rt Undefined (Str ''11'') ?xs = Inr [photo_dec]"
    by (simp add: filter_photos_def year_filter_def)
  have c12: "filter_photos example_rt Undefined (Str ''12'') ?xs = Inr [photo_dec]"
    using inst [THEN conjunct1] c11 by simp
  have und: "ToString example_rt Undefined = Inr ''undefined''" by simp
  show ?thesis
    by (intro conjI example_records und c13 c11 c12)
qed

lemma filter_photos_records:
  assumes recs: "\<forall>p\<in>set xs. is_record p"
    and yr: "truthy year" "ToString rt year = Inr ys" "parseInt10 ys = Some Y"
    and mo: "ToString rt month = Inr ms"
  shows "filter_photos rt year month xs =
           Inr (filter (\<lambda>p. getFullYear rt (record_date rt p) = Some Y \<and>
                            (truthy month \<longrightarrow>
                               strict_equal (getMonth rt (record_date rt p))
                                 (normalize_month (parseInt10 ms)))) xs)"
proof -
  let ?in_year = "\<lambda>p. getFullYear rt (record_date rt p) = Some Y"
  let ?in_month = "\<lambda>p. strict_equal (getMonth rt (record_date rt p)) (normalize_month (parseInt10 ms))"
  have y: "year_filter rt year xs = Inr (filter ?in_year xs)"
    using year_filter_records [OF recs yr(1,2)] yr(3) by (simp add: strict_equal_Some)
  show ?thesis
  proof (cases "truthy month")
    case True
    have "\<forall>p\<in>set (filter ?in_year xs). is_record p" using recs by simp
    from month_filter_records [OF this True mo]
    have "month_filter rt month (filter ?in_year xs) = Inr (filter ?in_month (filter ?in_year xs))" .
    with y True show ?thesis
      by (simp add: filter_photos_def conj_commute)
  next
    case False
    then have "month_filter rt month (filter ?in_year xs) = Inr (filter ?in_year xs)"
      by (simp add: month_filter_def)
    with y False show ?thesis
      by (simp add: filter_photos_def)
  qed
qed

lemma filter_photos_spec:
  assumes recs: "\<forall>p\<in>set xs. is_record p"
    and yr: "truthy year" "ToString rt year = Inr ys" "parseInt10 ys = Some Y"
    and mo: "ToString rt month = Inr ms"
  shows "filter_photos rt year month xs =
           Inr (filter (\<lambda>p. map_option YearFromTime (spec_local_time rt p) = Some Y \<and>
                            (truthy month \<longrightarrow>
                               (\<exists>m. parseInt10 ms = Some m \<and>
                                    map_option MonthFromTime (spec_local_time rt p)
                                      = Some (if 11 < m then m - 1 else m)))) xs)"
proof -
  have "filter (\<lambda>p. getFullYear rt (record_date rt p) = Some Y \<and>
                    (truthy month \<longrightarrow>
                       strict_equal (getMonth rt (record_date rt p))
                         (normalize_month (parseInt10 ms)))) xs
      = filter (\<lambda>p. map_option YearFromTime (spec_local_time rt p) = Some Y \<and>
                    (truthy month \<longrightarrow>
                       (\<exists>m. parseInt10 ms = Some m \<and>
                            map_option MonthFromTime (spec_local_time rt p)
                              = Some (if 11 < m then m - 1 else m)))) xs"
    using recs
    by (intro filter_cong refl) (simp add: month_condition record_local_month record_local_year)
  with filter_photos_records [OF recs yr mo] show ?thesis by simp
qed

text \<open>
  C4. The store holds a non-empty list of records and the request has a year parameter
  whose text parses to \<open>Y\<close>. Then the candidates of \<^verbatim>\<open>/random-photo\<close> are exactly the
  records whose effective timestamp (\<^verbatim>\<open>uploadedAt\<close>, else \<^verbatim>\<open>dateUploaded\<close>, else epoch
  zero) is a date whose calendar year, in local time, is \<open>Y\<close> and, when a month parameter
  is given as well, whose month is the normalised month: both conditions narrow the same
  list. With no candidate the response is 404 "No photos found for this filter";
  otherwise it is the 200 response built from the candidate at the index
  \<^verbatim>\<open>Math.floor(Math.random() * filtered.length)\<close>, a record of the store whose local year
  is \<open>Y\<close>. The handler throws in neither case. \<open>r\<close> is the value of \<^verbatim>\<open>Math.random()\<close>, a
  double at least 0 and below 1.
\<close>

theorem year_filter_correct:
  assumes "\<forall>p\<in>set (readPhotosList rt fs). is_record p"
    and "readPhotosList rt fs \<noteq> []"
    and "truthy year" and "ToString rt year = Inr ys" and "parseInt10 ys = Some Y"
    and "ToString rt month = Inr ms"
    and "unit_double r"
  shows "\<exists>cands.
           cands = filter (\<lambda>p. map_option YearFromTime (spec_local_time rt p) = Some Y \<and>
                              (truthy month \<longrightarrow>
                                 (\<exists>m. parseInt10 ms = Some m \<and>
                                      map_option MonthFromTime (spec_local_time rt p)
                                        = Some (if 11 < m then m - 1 else m))))
                     (readPhotosList rt fs) \<and>
           filter_photos rt year month (readPhotosList rt fs) = Inr cands \<and>
           (cands = [] \<longrightarrow>
              get_random_photo rt fs month year r
                = Inr (json_response 404 (error_body ''No photos found for this filter''))) \<and>
           (cands \<noteq> [] \<longrightarrow>
              (\<exists>i p fname url up.
                  i < length cands \<and> int i = \<lfloor>round_double (r * of_nat (length cands))\<rfloor> \<and>
                  p = cands ! i \<and> p \<in> set (readPhotosList rt fs) \<and>
                  map_option YearFromTime (spec_local_time rt p) = Some Y \<and>
                  get_random_photo rt fs month year r = photo_response rt p \<and>
                  photo_response rt p =
                    Inr (json_response 200
                           (Obj [(''filename'', fname), (''url'', url), (''uploadedAt'', up)])) \<and>
                  get_prop p ''filename'' = Inr fname))"
proof -
  let ?xs = "readPhotosList rt fs"
  let ?keep = "\<lambda>p. map_option YearFromTime (spec_local_time rt p) = Some Y \<and>
                   (truthy month \<longrightarrow>
                      (\<exists>m. parseInt10 ms = Some m \<and>
                           map_option MonthFromTime (spec_local_time rt p)
                             = Some (if 11 < m then m - 1 else m)))"
  let ?cands = "filter ?keep ?xs"
  have f: "filter_photos rt year month ?xs = Inr ?cands"
    by (rule filter_photos_spec [OF assms(1,3,4,5,6)])
  have run: "get_random_photo rt fs month year r =
      (if ?cands = [] then Inr (json_response 404 (error_body ''No photos found for this filter''))
       else photo_response rt (js_nth ?cands (random_index r (length ?cands))))"
    using assms(2) f by (simp add: get_random_photo_def Let_def)
  have none: "?cands = [] \<longrightarrow>
      get_random_photo rt fs month year r
        = Inr (json_response 404 (error_body ''No photos found for this filter''))"
    using run by simp
  have some: "?cands \<noteq> [] \<longrightarrow>
      (\<exists>i p fname url up.
          i < length ?cands \<and> int i = \<lfloor>round_double (r * of_nat (length ?cands))\<rfloor> \<and>
          p = ?cands ! i \<and> p \<in> set ?xs \<and>
          map_option YearFromTime (spec_local_time rt p) = Some Y \<and>
          get_random_photo rt fs month year r = photo_response rt p \<and>
          photo_response rt p =
            Inr (json_response 200 (Obj [(''filename'', fname), (''url'', url), (''uploadedAt'', up)])) \<and>
          get_prop p ''filename'' = Inr fname)"
  proof
    assume ne: "?cands \<noteq> []"
    define i where "i = nat (random_index r (length ?cands))"
    define p where "p = ?cands ! i"
    from js_nth_random [OF assms(7) ne]
    have pick: "js_nth ?cands (random_index r (length ?cands)) = p"
      and lt: "i < length ?cands"
      by (simp_all add: p_def i_def)
    from random_index_range [OF assms(7), of "length ?cands"] ne
    have ix: "int i = \<lfloor>round_double (r * of_nat (length ?cands))\<rfloor>"
      by (simp add: i_def random_index_def)
    have mem: "p \<in> set ?cands"
      unfolding p_def using lt by (rule nth_mem)
    then have in_store: "p \<in> set ?xs"
      and year: "map_option YearFromTime (spec_local_time rt p) = Some Y"
      by simp_all
    from in_store assms(1) have "is_record p" by blast
    from record_photo_response [OF this, of rt] obtain fname url up where
      "photo_response rt p =
         Inr (json_response 200 (Obj [(''filename'', fname), (''url'', url), (''uploadedAt'', up)]))"
      "get_prop p ''filename'' = Inr fname"
      by (elim exE conjE)
    moreover have "get_random_photo rt fs month year r = photo_response rt p"
      using run ne pick by simp
    ultimately show "\<exists>i p fname url up.
          i < length ?cands \<and> int i = \<lfloor>round_double (r * of_nat (length ?cands))\<rfloor> \<and>
          p = ?cands ! i \<and> p \<in> set ?xs \<and>
          map_option YearFromTime (spec_local_time rt p) = Some Y \<and>
          get_random_photo rt fs month year r = photo_response rt p \<and>
          photo_response rt p =
            Inr (json_response 200 (Obj [(''filename'', fname), (''url'', url), (''uploadedAt'', up)])) \<and>
          get_prop p ''filename'' = Inr fname"
      using lt ix p_def in_store year by blast
  qed
  show ?thesis
    by (rule exI [of _ ?cands]) (intro conjI refl f none some)
qed

text \<open>
  The store of five records, five hours behind UTC. \<^verbatim>\<open>?year=2023\<close> has two candidates, the
  December record and the record with \<^verbatim>\<open>dateUploaded\<close> only, whose instant
  2024-01-01T02:00Z lies in 2023 there; with \<open>r = 3/4\<close> the second is returned.
  \<^verbatim>\<open>?year=1969\<close> has the record with no timestamp as its only candidate, epoch zero being
  in 1969 there. \<^verbatim>\<open>?year=2024&month=2\<close>, the scenario of the specification, has the March
  record as its only candidate and returns it. \<^verbatim>\<open>?year=2022\<close> has no candidate and is
  answered 404.
\<close>

theorem year_filter_correct_witness:
  "is_record photo_jan \<and> is_record photo_mar \<and> is_record photo_dec \<and>
   is_record photo_legacy \<and> is_record photo_bare \<and>
   readPhotosList west_rt five_fs = [photo_jan, photo_mar, photo_dec, photo_legacy, photo_bare] \<and>
   truthy (Str ''2023'') \<and> ToString west_rt (Str ''2023'') = Inr ''2023'' \<and>
   parseInt10 ''2023'' = Some 2023 \<and> ToString west_rt Undefined = Inr ''undefined'' \<and>
   unit_double (3 / 4) \<and>
   filter_photos west_rt (Str ''2023'') Undefined
       [photo_jan, photo_mar, photo_dec, photo_legacy, photo_bare]
     = Inr [photo_dec, photo_legacy] \<and>
   get_random_photo west_rt five_fs Undefined (Str ''2023'') (3 / 4)
     = Inr (json_response 200
              (Obj [(''filename'', Str ''old.gif''), (''url'', Str ''/photos/old.gif''),
                    (''uploadedAt'', Str ''2024-01-01T02:00:00.000Z'')])) \<and>
   filter_photos west_rt (Str ''1969'') Undefined
       [photo_jan, photo_mar, photo_dec, photo_legacy, photo_bare]
     = Inr [photo_bare] \<and>
   get_random_photo west_rt five_fs Undefined (Str ''1969'') (3 / 4)
     = Inr (json_response 200
              (Obj [(''filename'', Str ''scan.PNG''), (''url'', Str ''/photos/scan.PNG''),
                    (''uploadedAt'', Undefined)])) \<and>
   filter_photos west_rt (Str ''2024'') (Str ''2'')
       [photo_jan, photo_mar, photo_dec, photo_legacy, photo_bare]
     = Inr [photo_mar] \<and>
   get_random_photo west_rt five_fs (Str ''2'') (Str ''2024'') (3 / 4)
     = Inr (json_response 200
              (Obj [(''filename'', Str ''a.jpg''), (''url'', Str ''/photos/a.jpg''),
                    (''uploadedAt'', Str ''2024-03-05T00:00:00Z'')])) \<and>
   filter_photos west_rt (Str ''2022'') Undefined
       [photo_jan, photo_mar, photo_dec, photo_legacy, photo_bare]
     = Inr [] \<and>
   get_random_photo west_rt five_fs Undefined (Str ''2022'') (3 / 4)
     = Inr (json_response 404 (error_body ''No photos found for this filter''))"
proof -
  let ?xs = "[photo_jan, photo_mar, photo_dec, photo_legacy, photo_bare]"
  have l5: "readPhotosList west_rt five_fs = ?xs"
    by (rule readPhotosList_five)
  have recs: "\<forall>p\<in>set (readPhotosList west_rt five_fs). is_record p"
    by (simp add: l5 example_records more_records)
  have ne: "readPhotosList west_rt five_fs \<noteq> []"
    by (simp add: l5)
  have t: "truthy (Str ''2023'')" "truthy (Str ''1969'')" "truthy (Str ''2024'')"
    "truthy (Str ''2022'')" by simp_all
  have s: "ToString west_rt (Str ''2023'') = Inr ''2023''"
    "ToString west_rt (Str ''1969'') = Inr ''1969''"
    "ToString west_rt (Str ''2024'') = Inr ''2024''"
    "ToString west_rt (Str ''2022'') = Inr ''2022''"
    "ToString west_rt (Str ''2'') = Inr ''2''"
    "ToString west_rt Undefined = Inr ''undefined''" by simp_all
  note r = example_doubles(2)
  have ix2: "\<lfloor>round_double (3 / 4 * of_nat (length [photo_dec, photo_legacy]))\<rfloor> = 1"
    using example_indices(2) by (simp add: random_index_def)
  have ix1: "\<lfloor>round_double (3 / 4 * of_nat (length [q]))\<rfloor> = 0" for q :: jsval
    using example_indices(5) by (simp add: random_index_def)
  \<comment> \<open>year 2023\<close>
  from year_filter_correct [OF recs ne t(1) s(1) example_numbers(8) s(6) r]
  obtain cands where
    c: "cands = filter (\<lambda>p. map_option YearFromTime (spec_local_time west_rt p) = Some 2023 \<and>
                   (truthy Undefined \<longrightarrow>
                      (\<exists>m. parseInt10 ''undefined'' = Some m \<and>
                           map_option MonthFromTime (spec_local_time west_rt p)
                             = Some (if 11 < m then m - 1 else m))))
                (readPhotosList west_rt five_fs)"
    and f: "filter_photos west_rt (Str ''2023'') Undefined (readPhotosList west_rt five_fs)
            = Inr cands"
    and pick: "cands \<noteq> [] \<longrightarrow>
      (\<exists>i p fname url up.
          i < length cands \<and> int i = \<lfloor>round_double (3 / 4 * of_nat (length cands))\<rfloor> \<and>
          p = cands ! i \<and> p \<in> set (readPhotosList west_rt five_fs) \<and>
          map_option YearFromTime (spec_local_time west_rt p) = Some 2023 \<and>
          get_random_photo west_rt five_fs Undefined (Str ''2023'') (3 / 4)
            = photo_response west_rt p \<and>
          photo_response west_rt p =
            Inr (json_response 200 (Obj [(''filename'', fname), (''url'', url), (''uploadedAt'', up)])) \<and>
          get_prop p ''filename'' = Inr fname)"
    by (elim exE conjE)
  have cands: "cands = [photo_dec, photo_legacy]"
    unfolding c l5 by (simp add: west_years del: map_option_eq_Some)
  then have "cands \<noteq> []" by simp
  from pick [rule_format, OF this] obtain i p where
    i: "int i = \<lfloor>round_double (3 / 4 * of_nat (length cands))\<rfloor>" and p: "p = cands ! i"
    and run: "get_random_photo west_rt five_fs Undefined (Str ''2023'') (3 / 4)
                = photo_response west_rt p"
    by (elim exE conjE)
  from i have "i = 1" unfolding cands ix2 by simp
  with p cands have "p = photo_legacy" by simp
  with run have c2: "get_random_photo west_rt five_fs Undefined (Str ''2023'') (3 / 4)
     = Inr (json_response 200
              (Obj [(''filename'', Str ''old.gif''), (''url'', Str ''/photos/old.gif''),
                    (''uploadedAt'', Str ''2024-01-01T02:00:00.000Z'')]))"
    by (simp add: photo_response_legacy)
  have c1: "filter_photos west_rt (Str ''2023'') Undefined ?xs = Inr [photo_dec, photo_legacy]"
    using f cands l5 by simp
  \<comment> \<open>year 1969\<close>
  from year_filter_correct [OF recs ne t(2) s(2) example_numbers(9) s(6) r]
  obtain olds where
    o: "olds = filter (\<lambda>p. map_option YearFromTime (spec_local_time west_rt p) = Some 1969 \<and>
                   (truthy Undefined \<longrightarrow>
                      (\<exists>m. parseInt10 ''undefined'' = Some m \<and>
                           map_option MonthFromTime (spec_local_time west_rt p)
                             = Some (if 11 < m then m - 1 else m))))
                (readPhotosList west_rt five_fs)"
    and fo: "filter_photos west_rt (Str ''1969'') Undefined (readPhotosList west_rt five_fs)
            = Inr olds"
    and picko: "olds \<noteq> [] \<longrightarrow>
      (\<exists>i p fname url up.
          i < length olds \<and> int i = \<lfloor>round_double (3 / 4 * of_nat (length olds))\<rfloor> \<and>
          p = olds ! i \<and> p \<in> set (readPhotosList west_rt five_fs) \<and>
          map_option YearFromTime (spec_local_time west_rt p) = Some 1969 \<and>
          get_random_photo west_rt five_fs Undefined (Str ''1969'') (3 / 4)
            = photo_response west_rt p \<and>
          photo_response west_rt p =
            Inr (json_response 200 (Obj [(''filename'', fname), (''url'', url), (''uploadedAt'', up)])) \<and>
          get_prop p ''filename'' = Inr fname)"
    by (elim exE conjE)
  have olds: "olds = [photo_bare]"
    unfolding o l5 by (simp add: west_years del: map_option_eq_Some)
  then have "olds \<noteq> []" by simp
  from picko [rule_format, OF this] obtain j q where
    j: "int j = \<lfloor>round_double (3 / 4 * of_nat (length olds))\<rfloor>" and q: "q = olds ! j"
    and runo: "get_random_photo west_rt five_fs Undefined (Str ''1969'') (3 / 4)
                = photo_response west_rt q"
    by (elim exE conjE)
  from j have "j = 0" unfolding olds ix1 by simp
  with q olds have "q = photo_bare" by simp
  with runo have c4: "get_random_photo west_rt five_fs Undefined (Str ''1969'') (3 / 4)
     = Inr (json_response 200
              (Obj [(''filename'', Str ''scan.PNG''), (''url'', Str ''/photos/scan.PNG''),
                    (''uploadedAt'', Undefined)]))"
    by (simp add: photo_response_bare_west)
  have c3: "filter_photos west_rt (Str ''1969'') Undefined ?xs = Inr [photo_bare]"
    using fo olds l5 by simp
  \<comment> \<open>year 2024, month 2\<close>
  from year_filter_correct [OF recs ne t(3) s(3) example_numbers(7) s(5) r]
  obtain marches where
    m: "marches = filter (\<lambda>p. map_option YearFromTime (spec_local_time west_rt p) = Some 2024 \<and>
                   (truthy (Str ''2'') \<longrightarrow>
                      (\<exists>m. parseInt10 ''2'' = Some m \<and>
                           map_option MonthFromTime (spec_local_time west_rt p)
                             = Some (if 11 < m then m - 1 else m))))
                (readPhotosList west_rt five_fs)"
    and fm: "filter_photos west_rt (Str ''2024'') (Str ''2'') (readPhotosList west_rt five_fs)
            = Inr marches"
    and pickm: "marches \<noteq> [] \<longrightarrow>
      (\<exists>i p fname url up.
          i < length marches \<and> int i = \<lfloor>round_double (3 / 4 * of_nat (length marches))\<rfloor> \<and>
          p = marches ! i \<and> p \<in> set (readPhotosList west_rt five_fs) \<and>
          map_option YearFromTime (spec_local_time west_rt p) = Some 2024 \<and>
          get_random_photo west_rt five_fs (Str ''2'') (Str ''2024'') (3 / 4)
            = photo_response west_rt p \<and>
          photo_response west_rt p =
            Inr (json_response 200 (Obj [(''filename'', fname), (''url'', url), (''uploadedAt'', up)])) \<and>
          get_prop p ''filename'' = Inr fname)"
    by (elim exE conjE)
  have marches: "marches = [photo_mar]"
    unfolding m l5
    by (simp add: west_years west_months example_numbers del: map_option_eq_Some)
  then have "marches \<noteq> []" by simp
  from pickm [rule_format, OF this] obtain k u where
    k: "int k = \<lfloor>round_double (3 / 4 * of_nat (length marches))\<rfloor>" and u: "u = marches ! k"
    and runm: "get_random_photo west_rt five_fs (Str ''2'') (Str ''2024'') (3 / 4)
                = photo_response west_rt u"
    by (elim exE conjE)
  from k have "k = 0" unfolding marches ix1 by simp
  with u marches have "u = photo_mar" by simp
  with runm have c6: "get_random_photo west_rt five_fs (Str ''2'') (Str ''2024'') (3 / 4)
     = Inr (json_response 200
              (Obj [(''filename'', Str ''a.jpg''), (''url'', Str ''/photos/a.jpg''),
                    (''uploadedAt'', Str ''2024-03-05T00:00:00Z'')]))"
    by (simp add: photo_response_mar_west)
  have c5: "filter_photos west_rt (Str ''2024'') (Str ''2'') ?xs = Inr [photo_mar]"
    using fm marches l5 by simp
  \<comment> \<open>year 2022\<close>
  from year_filter_correct [OF recs ne t(4) s(4) example_numbers(6) s(6) r]
  obtain none where
    n: "none = filter (\<lambda>p. map_option YearFromTime (spec_local_time west_rt p) = Some 2022 \<and>
                   (truthy Undefined \<longrightarrow>
                      (\<exists>m. parseInt10 ''undefined'' = Some m \<and>
                           map_option MonthFromTime (spec_local_time west_rt p)
                             = Some (if 11 < m then m - 1 else m))))
                (readPhotosList west_rt five_fs)"
    and g: "filter_photos west_rt (Str ''2022'') Undefined (readPhotosList west_rt five_fs)
            = Inr none"
    and miss: "none = [] \<longrightarrow>
      get_random_photo west_rt five_fs Undefined (Str ''2022'') (3 / 4)
        = Inr (json_response 404 (error_body ''No photos found for this filter''))"
    by (elim exE conjE)
  have none: "none = []"
    unfolding n l5 by (simp add: west_years del: map_option_eq_Some)
  have c7: "filter_photos west_rt (Str ''2022'') Undefined ?xs = Inr []"
    using g none l5 by simp
  have c8: "get_random_photo west_rt five_fs Undefined (Str ''2022'') (3 / 4)
        = Inr (json_response 404 (error_body ''No photos found for this filter''))"
    using miss none by simp
  show ?thesis
    by (intro conjI example_records more_records l5 t(1) s(1) example_numbers(8) s(6) r
        c1 c2 c3 c4 c5 c6 c7 c8)
qed

section \<open>/random-photo: no candidate, and the fallback to the upload directory\<close>

lemma readdir_callback_error:
  "readdir_callback rt (Some err, files) r
     = Inr (json_response 500 (error_body ''Failed to read photos''))"
  by (simp add: readdir_callback_def)

lemma readdir_callback_files:
  assumes "unit_double r"
  shows "readdir_callback rt (None, files) r =
     (let images = filter is_image_name (case files of None \<Rightarrow> [] | Some names \<Rightarrow> names)
      in if images = [] then Inr (json_response 404 (error_body ''No photos yet''))
         else Inr (json_response 200
                     (Obj [(''filename'', Str (images ! nat (random_index r (length images)))),
                           (''url'', Str (''/photos/'' @ images ! nat (random_index r (length images))))])))"
proof -
  define images where "images = filter is_image_name (case files of None \<Rightarrow> [] | Some names \<Rightarrow> names)"
  show ?thesis
  proof (cases "images = []")
    case True
    then show ?thesis
      by (simp add: readdir_callback_def images_def [symmetric] Let_def)
  next
    case False
    then have ne: "map Str images \<noteq> []" by simp
    from js_nth_random [OF assms ne]
    have "js_nth (map Str images) (random_index r (length images))
            = Str (images ! nat (random_index r (length images)))"
      by simp
    with False show ?thesis
      by (simp add: readdir_callback_def images_def [symmetric] Let_def)
  qed
qed

text \<open>
  C3. \<^verbatim>\<open>GET /random-photo\<close>. When the stored list is not empty and the filters leave no
  candidate, the response is 404 "No photos found for this filter". When the stored list
  is empty, the response is that of the directory listing whatever the \<^verbatim>\<open>month\<close> and
  \<^verbatim>\<open>year\<close> parameters are: 500 "Failed to read photos" when the listing fails; otherwise,
  with \<open>images\<close> the listed names that end in \<^verbatim>\<open>.jpg\<close>, \<^verbatim>\<open>.jpeg\<close>, \<^verbatim>\<open>.png\<close>, \<^verbatim>\<open>.gif\<close>,
  \<^verbatim>\<open>.webp\<close> or \<^verbatim>\<open>.avif\<close> in any mix of upper and lower case, 404 "No photos yet" when
  there is none, and else 200 with exactly \<^verbatim>\<open>filename\<close> and \<^verbatim>\<open>url\<close> = \<^verbatim>\<open>/photos/filename\<close>
  of the name at index \<^verbatim>\<open>Math.floor(Math.random() * images.length)\<close>, the floor of the
  product as the machine computes it, which lies within \<open>images\<close>. \<open>r\<close> is the value of
  \<^verbatim>\<open>Math.random()\<close>, a double at least 0 and below 1.
\<close>

theorem random_photo_not_found_and_fallback:
  assumes "unit_double r"
  shows
    "(readPhotosList rt fs \<noteq> [] \<and> filter_photos rt year month (readPhotosList rt fs) = Inr [] \<longrightarrow>
        get_random_photo rt fs month year r
          = Inr (json_response 404 (error_body ''No photos found for this filter''))) \<and>
     (readPhotosList rt fs = [] \<longrightarrow>
        (\<forall>month' year'. get_random_photo rt fs month' year' r = get_random_photo rt fs month year r) \<and>
        (\<forall>err files. uploads_listing fs = (Some err, files) \<longrightarrow>
            get_random_photo rt fs month year r
              = Inr (json_response 500 (error_body ''Failed to read photos''))) \<and>
        (\<forall>files images.
            uploads_listing fs = (None, files) \<and>
            images = filter is_image_name (case files of None \<Rightarrow> [] | Some names \<Rightarrow> names) \<longrightarrow>
            (images = [] \<longrightarrow>
               get_random_photo rt fs month year r
                 = Inr (json_response 404 (error_body ''No photos yet''))) \<and>
            (images \<noteq> [] \<longrightarrow>
               (\<exists>i < length images.
                   int i = \<lfloor>round_double (r * of_nat (length images))\<rfloor> \<and>
                   get_random_photo rt fs month year r
                     = Inr (json_response 200
                              (Obj [(''filename'', Str (images ! i)),
                                    (''url'', Str (''/photos/'' @ images ! i))])))))) \<and>
     (\<forall>name. is_image_name name \<longleftrightarrow>
        (\<exists>ext \<in> {''jpg'', ''jpeg'', ''png'', ''gif'', ''webp'', ''avif''}.
            ends_with (map ascii_lower name) (''.'' @ ext)))"
    (is "?nomatch \<and> (?empty \<longrightarrow> ?same \<and> ?failed \<and> ?listed) \<and> ?names")
proof (intro conjI)
  show ?nomatch
    by (simp add: get_random_photo_def Let_def)
next
  show "?empty \<longrightarrow> ?same \<and> ?failed \<and> ?listed"
  proof
    assume empty: ?empty
    have fallback: "get_random_photo rt fs m y r = readdir_callback rt (uploads_listing fs) r" for m y
      using empty by (simp add: get_random_photo_def)
    have a: ?same
      by (simp add: fallback)
    have b: ?failed
      by (simp add: fallback readdir_callback_error)
    have c: ?listed
    proof (intro allI impI)
      fix files images
      assume h: "uploads_listing fs = (None, files) \<and>
        images = filter is_image_name (case files of None \<Rightarrow> [] | Some names \<Rightarrow> names)"
      then have run: "get_random_photo rt fs month year r =
          (if images = [] then Inr (json_response 404 (error_body ''No photos yet''))
           else Inr (json_response 200
                  (Obj [(''filename'', Str (images ! nat (random_index r (length images)))),
                        (''url'', Str (''/photos/'' @ images ! nat (random_index r (length images))))])))"
        by (simp add: fallback readdir_callback_files [OF assms] Let_def)
      have none: "images = [] \<longrightarrow>
           get_random_photo rt fs month year r = Inr (json_response 404 (error_body ''No photos yet''))"
        using run by simp
      have some: "images \<noteq> [] \<longrightarrow>
           (\<exists>i < length images.
               int i = \<lfloor>round_double (r * of_nat (length images))\<rfloor> \<and>
               get_random_photo rt fs month year r
                 = Inr (json_response 200
                          (Obj [(''filename'', Str (images ! i)),
                                (''url'', Str (''/photos/'' @ images ! i))])))"
      proof
        assume ne: "images \<noteq> []"
        let ?i = "nat (random_index r (length images))"
        from random_index_range [OF assms, of "length images"] ne
        have "?i < length images" "int ?i = \<lfloor>round_double (r * of_nat (length images))\<rfloor>"
          by (simp_all add: nat_less_iff random_index_def)
        moreover have "get_random_photo rt fs month year r
            = Inr (json_response 200
                     (Obj [(''filename'', Str (images ! ?i)), (''url'', Str (''/photos/'' @ images ! ?i))]))"
          using run ne by simp
        ultimately show "\<exists>i < length images.
               int i = \<lfloor>round_double (r * of_nat (length images))\<rfloor> \<and>
               get_random_photo rt fs month year r
                 = Inr (json_response 200
                          (Obj [(''filename'', Str (images ! i)),
                                (''url'', Str (''/photos/'' @ images ! i))]))"
          by blast
      qed
      from none some show "(images = [] \<longrightarrow>
           get_random_photo rt fs month year r
             = Inr (json_response 404 (error_body ''No photos yet''))) \<and>
        (images \<noteq> [] \<longrightarrow>
           (\<exists>i < length images.
               int i = \<lfloor>round_double (r * of_nat (length images))\<rfloor> \<and>
               get_random_photo rt fs month year r
                 = Inr (json_response 200
                          (Obj [(''filename'', Str (images ! i)),
                                (''url'', Str (''/photos/'' @ images ! i))]))))"
        by (rule conjI)
    qed
    from a b c show "?same \<and> ?failed \<and> ?listed"
      by (intro conjI)
  qed
next
  show ?names
    by (simp add: is_image_name_def)
qed

text \<open>
  The store of three records under \<^verbatim>\<open>?month=13\<close>: 404 for the filter. A store that was
  just created, with \<open>r = 3/4\<close>: of the listed names \<^verbatim>\<open>0f1e2d3c4b5a69788796a5b4.jpg\<close>,
  \<^verbatim>\<open>notes.txt\<close> and \<^verbatim>\<open>scan.PNG\<close> the first and the last are images, and the last is
  returned, with or without filters. Seven images with \<open>r = 2573485501354569 / 2 ^ 52\<close>:
  the product is rounded to 4 and the fifth name is returned. A listing that fails: 500.
  No image: 404.
\<close>

theorem random_photo_not_found_and_fallback_witness:
  "unit_double (3 / 4) \<and>
   readPhotosList example_rt three_fs \<noteq> [] \<and>
   filter_photos example_rt Undefined (Str ''13'') (readPhotosList example_rt three_fs) = Inr [] \<and>
   get_random_photo example_rt three_fs (Str ''13'') Undefined (3 / 4)
     = Inr (json_response 404 (error_body ''No photos found for this filter'')) \<and>
   readPhotosList example_rt empty_fs = [] \<and>
   uploads_listing empty_fs
     = (None, Some [''0f1e2d3c4b5a69788796a5b4.jpg'', ''notes.txt'', ''scan.PNG'']) \<and>
   filter is_image_name [''0f1e2d3c4b5a69788796a5b4.jpg'', ''notes.txt'', ''scan.PNG'']
     = [''0f1e2d3c4b5a69788796a5b4.jpg'', ''scan.PNG''] \<and>
   get_random_photo example_rt empty_fs Undefined Undefined (3 / 4)
     = Inr (json_response 200
              (Obj [(''filename'', Str ''scan.PNG''), (''url'', Str ''/photos/scan.PNG'')])) \<and>
   get_random_photo example_rt empty_fs (Str ''13'') (Str ''1999'') (3 / 4)
     = Inr (json_response 200
              (Obj [(''filename'', Str ''scan.PNG''), (''url'', Str ''/photos/scan.PNG'')])) \<and>
   unit_double (2573485501354569 / 4503599627370496) \<and>
   filter is_image_name
       [''a.jpg'', ''b.jpeg'', ''c.png'', ''d.gif'', ''e.webp'', ''f.avif'', ''g.JPG'', ''h.txt'']
     = [''a.jpg'', ''b.jpeg'', ''c.png'', ''d.gif'', ''e.webp'', ''f.avif'', ''g.JPG''] \<and>
   get_random_photo example_rt
       (empty_fs\<lparr>uploads_listing :=
          (None, Some [''a.jpg'', ''b.jpeg'', ''c.png'', ''d.gif'', ''e.webp'', ''f.avif'',
                       ''g.JPG'', ''h.txt''])\<rparr>)
       Undefined Undefined (2573485501354569 / 4503599627370496)
     = Inr (json_response 200
              (Obj [(''filename'', Str ''e.webp''), (''url'', Str ''/photos/e.webp'')])) \<and>
   get_random_photo example_rt (empty_fs\<lparr>uploads_listing := (Some IOError, None)\<rparr>)
       Undefined Undefined (3 / 4)
     = Inr (json_response 500 (error_body ''Failed to read photos'')) \<and>
   get_random_photo example_rt (empty_fs\<lparr>uploads_listing := (None, Some [''notes.txt''])\<rparr>)
       Undefined Undefined (3 / 4)
     = Inr (json_response 404 (error_body ''No photos yet''))"
proof -
  let ?names = "[''0f1e2d3c4b5a69788796a5b4.jpg'', ''notes.txt'', ''scan.PNG'']"
  let ?images = "[''0f1e2d3c4b5a69788796a5b4.jpg'', ''scan.PNG'']"
  let ?names7 = "[''a.jpg'', ''b.jpeg'', ''c.png'', ''d.gif'', ''e.webp'', ''f.avif'', ''g.JPG'',
    ''h.txt'']"
  let ?images7 = "[''a.jpg'', ''b.jpeg'', ''c.png'', ''d.gif'', ''e.webp'', ''f.avif'', ''g.JPG'']"
  let ?r7 = "2573485501354569 / 4503599627370496 :: rat"
  let ?failing = "empty_fs\<lparr>uploads_listing := (Some IOError, None)\<rparr>"
  let ?bare = "empty_fs\<lparr>uploads_listing := (None, Some [''notes.txt''])\<rparr>"
  let ?seven = "empty_fs\<lparr>uploads_listing := (None, Some ?names7)\<rparr>"
  note r = example_doubles(2)
  note r7 = example_doubles(3)
  have l3: "readPhotosList example_rt three_fs \<noteq> []"
    by (simp add: readPhotosList_three)
  have l0: "readPhotosList example_rt empty_fs = []"
    by (rule readPhotosList_empty)
  have l0': "readPhotosList example_rt ?failing = []" "readPhotosList example_rt ?bare = []"
    "readPhotosList example_rt ?seven = []"
    by (simp_all add: readPhotosList_def readPhotosList_try_def readFileSync_def
        JSON_parse_text_def empty_fs_def example_parsed)
  have months:
    "getMonth example_rt (record_date example_rt photo_jan) = Some 0"
    "getMonth example_rt (record_date example_rt photo_mar) = Some 2"
    "getMonth example_rt (record_date example_rt photo_dec) = Some 11"
    by (simp_all add: date_jan date_mar date_dec year_month_jan year_month_mar year_month_dec)
  have recs: "\<forall>p\<in>set [photo_jan, photo_mar, photo_dec]. is_record p"
    by (simp add: example_records)
  have "month_filter example_rt (Str ''13'') [photo_jan, photo_mar, photo_dec] = Inr []"
    using month_filter_records [OF recs, of "Str ''13''" example_rt "''13''"]
    by (simp add: example_numbers normalize_month_def strict_equal_Some months)
  then have f13: "filter_photos example_rt Undefined (Str ''13'') (readPhotosList example_rt three_fs)
      = Inr []"
    by (simp add: readPhotosList_three filter_photos_def year_filter_def)
  have ls: "uploads_listing empty_fs = (None, Some ?names)"
    by (simp add: empty_fs_def)
  have ls': "uploads_listing ?failing = (Some IOError, None)"
    "uploads_listing ?bare = (None, Some [''notes.txt''])"
    "uploads_listing ?seven = (None, Some ?names7)"
    by simp_all
  have im: "filter is_image_name ?names = ?images"
    by (simp add: is_image_name_def ends_with_def ascii_lower_def)
  have im': "filter is_image_name [''notes.txt''] = []"
    by (simp add: is_image_name_def ends_with_def ascii_lower_def)
  have im7: "filter is_image_name ?names7 = ?images7"
    by (simp add: is_image_name_def ends_with_def ascii_lower_def)
  have ix: "\<lfloor>round_double (3 / 4 * of_nat (length ?images))\<rfloor> = 1"
    using example_indices(2) by (simp add: random_index_def)
  have ix7: "\<lfloor>round_double (?r7 * of_nat (length ?images7))\<rfloor> = 4"
    using example_indices(3) by (simp add: random_index_def)
  note t3 = random_photo_not_found_and_fallback [OF r, of example_rt three_fs Undefined "Str ''13''"]
  note t0 = random_photo_not_found_and_fallback [OF r, of example_rt empty_fs Undefined Undefined]
  note t7 = random_photo_not_found_and_fallback [OF r7, of example_rt ?seven Undefined Undefined]
  note tf = random_photo_not_found_and_fallback [OF r, of example_rt ?failing Undefined Undefined]
  note tb = random_photo_not_found_and_fallback [OF r, of example_rt ?bare Undefined Undefined]
  have c1: "get_random_photo example_rt three_fs (Str ''13'') Undefined (3 / 4)
     = Inr (json_response 404 (error_body ''No photos found for this filter''))"
    by (rule t3 [THEN conjunct1, rule_format, OF conjI [OF l3 f13]])
  have im2: "?images = filter is_image_name (case Some ?names of None \<Rightarrow> [] | Some names \<Rightarrow> names)"
    using im by simp
  have ne2: "?images \<noteq> []" by simp
  from t0 [THEN conjunct2, THEN conjunct1, rule_format, OF l0, THEN conjunct2, THEN conjunct2,
      rule_format, OF conjI [OF ls im2], THEN conjunct2, rule_format, OF ne2]
  obtain i where i: "int i = \<lfloor>round_double (3 / 4 * of_nat (length ?images))\<rfloor>"
    and picked: "get_random_photo example_rt empty_fs Undefined Undefined (3 / 4)
      = Inr (json_response 200
               (Obj [(''filename'', Str (?images ! i)), (''url'', Str (''/photos/'' @ ?images ! i))]))"
    by (elim exE conjE)
  from i have "i = 1" unfolding ix by simp
  with picked have c2: "get_random_photo example_rt empty_fs Undefined Undefined (3 / 4)
     = Inr (json_response 200
              (Obj [(''filename'', Str ''scan.PNG''), (''url'', Str ''/photos/scan.PNG'')]))"
    by simp
  have c3: "get_random_photo example_rt empty_fs (Str ''13'') (Str ''1999'') (3 / 4)
     = Inr (json_response 200
              (Obj [(''filename'', Str ''scan.PNG''), (''url'', Str ''/photos/scan.PNG'')]))"
    using t0 [THEN conjunct2, THEN conjunct1, rule_format, OF l0, THEN conjunct1, rule_format,
        of "Str ''13''" "Str ''1999''"] c2
    by simp
  have im72: "?images7 = filter is_image_name (case Some ?names7 of None \<Rightarrow> [] | Some names \<Rightarrow> names)"
    using im7 by simp
  have ne7: "?images7 \<noteq> []" by simp
  from t7 [THEN conjunct2, THEN conjunct1, rule_format, OF l0'(3), THEN conjunct2, THEN conjunct2,
      rule_format, OF conjI [OF ls'(3) im72], THEN conjunct2, rule_format, OF ne7]
  obtain j where j: "int j = \<lfloor>round_double (?r7 * of_nat (length ?images7))\<rfloor>"
    and picked7: "get_random_photo example_rt ?seven Undefined Undefined ?r7
      = Inr (json_response 200
               (Obj [(''filename'', Str (?images7 ! j)), (''url'', Str (''/photos/'' @ ?images7 ! j))]))"
    by (elim exE conjE)
  from j have "j = 4" unfolding ix7 by simp
  with picked7 have c7: "get_random_photo example_rt ?seven Undefined Undefined ?r7
     = Inr (json_response 200
              (Obj [(''filename'', Str ''e.webp''), (''url'', Str ''/photos/e.webp'')]))"
    by simp
  have c4: "get_random_photo example_rt ?failing Undefined Undefined (3 / 4)
     = Inr (json_response 500 (error_body ''Failed to read photos''))"
    by (rule tf [THEN conjunct2, THEN conjunct1, rule_format, OF l0'(1), THEN conjunct2,
        THEN conjunct1, rule_format, OF ls'(1)])
  have im3: "[] = filter is_image_name (case Some [''notes.txt''] of None \<Rightarrow> [] | Some names \<Rightarrow> names)"
    using im' by simp
  have c5: "get_random_photo example_rt ?bare Undefined Undefined (3 / 4)
     = Inr (json_response 404 (error_body ''No photos yet''))"
    by (rule tb [THEN conjunct2, THEN conjunct1, rule_format, OF l0'(2), THEN conjunct2,
        THEN conjunct2, rule_format, OF conjI [OF ls'(2) im3], THEN conjunct1, rule_format, OF refl])
  show ?thesis
    by (intro conjI r l3 f13 c1 l0 ls im c2 c3 r7 im7 c7 c4 c5)
qed

end
